(* ===== verification/Outbox_Prelude.thy ===== *)
theory Outbox_Prelude
  imports Main "HOL-Library.Word"
begin

text \<open>
  The vocabulary shared by every theory of the development: type synonyms for the Rust and
  SQL types the crate uses, the collections of simplification and introduction rules, generic
  lemmas on lists (a database table is a list of rows), and two interfaces as locales: a
  transition system with an inductive invariant, and a table whose rows are identified by a key.
\<close>

section \<open>Types\<close>

text \<open>
  \<^item> A Rust \<open>str\<close> is a sequence of bytes that is valid UTF-8, and \<open>len()\<close> counts bytes. A HOL
    \<open>char\<close> is a byte, so a Rust string is a HOL \<open>string\<close>; validity is the predicate
    \<open>is_str\<close> of the theory on text.
  \<^item> \<open>Vec<u8>\<close> is a list of 8-bit words, \<open>Uuid\<close> a 128-bit word, \<open>u32\<close> a 32-bit word.
  \<^item> \<open>usize\<close> lengths and \<open>u64\<close> counters are \<open>nat\<close> with saturation written out where the source
    saturates.
  \<^item> A \<open>std::time::Duration\<close> is its number of nanoseconds (\<open>nat\<close>, whose truncated subtraction
    is \<open>saturating_sub\<close>); a \<open>TIMESTAMPTZ\<close> or \<open>DateTime<Utc>\<close> is an \<open>int\<close>.
\<close>

type_synonym bytes = "8 word list"
type_synonym uuid = "128 word"
type_synonym u32 = "32 word"
type_synonym duration = nat
type_synonym timestamp = int

text \<open>\<open>Result<T, E>\<close> is the sum type: \<open>Inl e\<close> is \<open>Err(e)\<close>, \<open>Inr v\<close> is \<open>Ok(v)\<close>.\<close>

type_synonym ('a, 'e) rresult = "'e + 'a"

definition from_millis :: "nat \<Rightarrow> duration" where
  "from_millis n = n * 1000000"

definition from_secs :: "nat \<Rightarrow> duration" where
  "from_secs n = n * 1000000000"

definition i32_max :: int where
  "i32_max = 2147483647"

definition u64_max :: nat where
  "u64_max = 18446744073709551615"

section \<open>Collections of rules\<close>

named_theorems row_update_defs \<open>definitions that unfold a row update of a table\<close>
named_theorems schema_defs \<open>definitions of the constraints of the schema\<close>
named_theorems schema_intro \<open>preservation rules for the schema's invariants\<close>

section \<open>Lists as tables\<close>

text \<open>
  An SQL \<open>UPDATE t SET \<dots> WHERE p\<close> rewrites the rows that satisfy \<open>p\<close> and reports how many
  there were; a \<open>DELETE\<close> keeps the others.
\<close>

definition update_where :: "('r \<Rightarrow> bool) \<Rightarrow> ('r \<Rightarrow> 'r) \<Rightarrow> 'r list \<Rightarrow> 'r list" where
  "update_where p f rs = map (\<lambda>r. if p r then f r else r) rs"

definition rows_matching :: "('r \<Rightarrow> bool) \<Rightarrow> 'r list \<Rightarrow> nat" where
  "rows_matching p rs = length (filter p rs)"

lemma set_update_where [simp]:
  "set (update_where p f rs) = (\<lambda>r. if p r then f r else r) ` set rs"
  by (simp add: update_where_def)

lemma length_update_where [simp]: "length (update_where p f rs) = length rs"
  by (simp add: update_where_def)

lemma update_where_Nil [simp]: "update_where p f [] = []"
  by (simp add: update_where_def)

lemma update_where_Cons [simp]:
  "update_where p f (r # rs) = (if p r then f r else r) # update_where p f rs"
  by (simp add: update_where_def)

lemma map_update_where:
  assumes "\<And>r. r \<in> set rs \<Longrightarrow> p r \<Longrightarrow> k (f r) = k r"
  shows "map k (update_where p f rs) = map k rs"
  using assms by (induction rs) auto

lemma update_where_no_match:
  assumes "\<And>r. r \<in> set rs \<Longrightarrow> \<not> p r"
  shows "update_where p f rs = rs"
  using assms by (induction rs) auto

lemma rows_matching_eq_0_iff: "rows_matching p rs = 0 \<longleftrightarrow> (\<forall>r \<in> set rs. \<not> p r)"
  by (auto simp: rows_matching_def filter_empty_conv)

lemma rows_matching_0_update:
  "rows_matching p rs = 0 \<Longrightarrow> update_where p f rs = rs"
  by (rule update_where_no_match) (auto simp: rows_matching_eq_0_iff)

lemma find_SomeD: "find p xs = Some x \<Longrightarrow> x \<in> set xs \<and> p x"
  by (induction xs) (auto split: if_splits)

lemma find_None_iff: "find p xs = None \<longleftrightarrow> (\<forall>x \<in> set xs. \<not> p x)"
  by (induction xs) auto

lemma find_distinct_key:
  assumes "distinct (map k xs)" and "x \<in> set xs" and "k x = a"
  shows "find (\<lambda>y. k y = a) xs = Some x"
  using assms by (induction xs) (auto simp: rev_image_eqI)

lemma sum_Inl_Inr_cases:
  obtains (Err) e where "x = Inl e" | (Ok) v where "x = Inr v"
  by (cases x) auto

section \<open>Interface: a table with a key\<close>

text \<open>
  The runtime and the dispatcher address rows by a unique key (an event by its id, a delivery by
  event and handler, a reservation by tenant and idempotency key). The interface offers the
  lookup by key; the table keeps its keys distinct. The clients' lemmas say what a lookup sees
  after a row update, an insertion or a deletion.
\<close>

locale keyed_table =
  fixes key :: "'r \<Rightarrow> 'k"
    and look :: "'k \<Rightarrow> 'r list \<Rightarrow> 'r option"
  assumes look_eq: "look k rs = find (\<lambda>r. key r = k) rs"
begin

lemma look_SomeD: "look k rs = Some r \<Longrightarrow> r \<in> set rs \<and> key r = k"
  by (auto simp: look_eq dest: find_SomeD)

lemma look_None_iff: "look k rs = None \<longleftrightarrow> k \<notin> key ` set rs"
  by (auto simp: look_eq find_None_iff)

lemma look_in:
  "distinct (map key rs) \<Longrightarrow> r \<in> set rs \<Longrightarrow> look (key r) rs = Some r"
  by (simp add: look_eq find_distinct_key)

lemma look_update_where:
  assumes "\<And>r. r \<in> set rs \<Longrightarrow> p r \<Longrightarrow> key (f r) = key r"
  shows "look k (update_where p f rs) =
    (case look k rs of None \<Rightarrow> None | Some r \<Rightarrow> Some (if p r then f r else r))"
  using assms by (induction rs) (auto simp: look_eq)

lemma look_append:
  "look k (rs @ rs') = (case look k rs of None \<Rightarrow> look k rs' | Some r \<Rightarrow> Some r)"
  by (induction rs) (auto simp: look_eq)

lemma look_filter:
  assumes "distinct (map key rs)"
  shows "look k (filter p rs) =
    (case look k rs of None \<Rightarrow> None | Some r \<Rightarrow> if p r then Some r else None)"
  using assms
proof (induction rs)
  case Nil
  then show ?case by (simp add: look_eq)
next
  case (Cons r rs)
  have "key r = k \<Longrightarrow> look k (filter p rs) = None"
    using Cons.prems by (auto simp: look_None_iff)
  then show ?case using Cons by (auto simp: look_eq)
qed

lemma distinct_filter: "distinct (map key rs) \<Longrightarrow> distinct (map key (filter p rs))"
  by (simp add: distinct_map_filter)

lemma distinct_append:
  assumes "distinct (map key rs)" and "distinct (map key rs')"
    and "\<And>r. r \<in> set rs' \<Longrightarrow> look (key r) rs = None"
  shows "distinct (map key (rs @ rs'))"
  using assms by (auto simp: look_None_iff) (metis imageI)

end

section \<open>Interface: a transition system with an inductive invariant\<close>

text \<open>
  The start protocol and the delivery system are step relations. The interface fixes the initial
  states, the steps, the reachable states and an invariant with its two laws; its lemma is that
  the invariant holds in every reachable state.
\<close>

locale invariant_system =
  fixes init :: "'s \<Rightarrow> bool"
    and step :: "'s \<Rightarrow> 's \<Rightarrow> bool"
    and reach :: "'s \<Rightarrow> bool"
    and invar :: "'s \<Rightarrow> bool"
  assumes reach_induct:
      "reach s \<Longrightarrow> (\<And>s. init s \<Longrightarrow> P s) \<Longrightarrow>
       (\<And>s t. reach s \<Longrightarrow> P s \<Longrightarrow> step s t \<Longrightarrow> P t) \<Longrightarrow> P s"
    and invar_init: "init s \<Longrightarrow> invar s"
    and invar_step: "invar s \<Longrightarrow> step s t \<Longrightarrow> invar t"
begin

lemma reach_invar: "reach s \<Longrightarrow> invar s"
  by (erule reach_induct) (blast intro: invar_init invar_step)+

lemma reach_invar_step: "reach s \<Longrightarrow> step s t \<Longrightarrow> invar s \<and> invar t"
  by (blast intro: reach_invar invar_step)

end

end
