(* ===== verification/Outbox_Text.thy ===== *)
theory Outbox_Text
  imports Outbox_Prelude
begin

text \<open>
  The string helpers of \<^verbatim>\<open>src/src/util.rs\<close> (\<open>sanitize_reason\<close>, \<open>truncate_utf8\<close>), over an executable model
  of what they use of the standard library: UTF-8 encoding and decoding, \<open>char::is_control\<close>,
  \<open>str::is_char_boundary\<close>; and the decimal and \<open>Duration\<close> formatting used in error messages.
\<close>

section \<open>UTF-8\<close>

text \<open>A Rust \<open>char\<close> is a Unicode scalar value: a code point that is not a surrogate.\<close>

definition is_scalar :: "nat \<Rightarrow> bool" where
  "is_scalar c \<longleftrightarrow> c < 0x110000 \<and> \<not> (0xD800 \<le> c \<and> c < 0xE000)"

definition encode_char :: "nat \<Rightarrow> string" where
  "encode_char c =
    (if c < 0x80 then [char_of c]
     else if c < 0x800 then [char_of (0xC0 + c div 64), char_of (0x80 + c mod 64)]
     else if c < 0x10000 then
       [char_of (0xE0 + c div 4096), char_of (0x80 + c div 64 mod 64), char_of (0x80 + c mod 64)]
     else
       [char_of (0xF0 + c div 262144), char_of (0x80 + c div 4096 mod 64),
        char_of (0x80 + c div 64 mod 64), char_of (0x80 + c mod 64)])"

definition encode_utf8 :: "nat list \<Rightarrow> string" where
  "encode_utf8 cs = concat (map encode_char cs)"

text \<open>\<open>str::chars\<close>: the width of a character is read off its first byte.\<close>

fun chars :: "string \<Rightarrow> nat list" where
  "chars [] = []"
| "chars (x # s) =
    (let b = of_char x in
     if b < 0x80 then b # chars s
     else case s of [] \<Rightarrow> [] | y # s1 \<Rightarrow>
       (if b < 0xE0 then (b mod 32 * 64 + of_char y mod 64) # chars s1
        else case s1 of [] \<Rightarrow> [] | z # s2 \<Rightarrow>
          (if b < 0xF0
           then (b mod 16 * 4096 + of_char y mod 64 * 64 + of_char z mod 64) # chars s2
           else case s2 of [] \<Rightarrow> [] | w # s3 \<Rightarrow>
             (b mod 8 * 262144 + of_char y mod 64 * 4096 + of_char z mod 64 * 64
               + of_char w mod 64) # chars s3)))"

text \<open>The invariant of the type \<open>str\<close>: the bytes are the encoding of scalar values.\<close>

definition is_str :: "string \<Rightarrow> bool" where
  "is_str s \<longleftrightarrow> list_all is_scalar (chars s) \<and> encode_utf8 (chars s) = s"

section \<open>util.rs: sanitizing and truncating\<close>

text \<open>\<open>char::is_control\<close>: general category Cc, the C0 and C1 ranges and DEL.\<close>

definition is_control :: "nat \<Rightarrow> bool" where
  "is_control c \<longleftrightarrow> c < 0x20 \<or> (0x7F \<le> c \<and> c < 0xA0)"

definition sanitize_char :: "nat \<Rightarrow> nat" where
  "sanitize_char c = (if is_control c then 63 else c)"

definition sanitize_reason :: "string \<Rightarrow> string" where
  "sanitize_reason s = encode_utf8 (map sanitize_char (chars s))"

text \<open>
  \<open>str::is_char_boundary\<close>: index 0 and the length are boundaries; inside, a byte that is not a
  continuation byte (\<open>0x80 .. 0xBF\<close>) starts a character; beyond the length there is none.
\<close>

definition is_continuation :: "char \<Rightarrow> bool" where
  "is_continuation x \<longleftrightarrow> 0x80 \<le> (of_char x :: nat) \<and> (of_char x :: nat) < 0xC0"

definition is_char_boundary :: "string \<Rightarrow> nat \<Rightarrow> bool" where
  "is_char_boundary s i \<longleftrightarrow>
    i = 0 \<or> i = length s \<or> (i < length s \<and> \<not> is_continuation (s ! i))"

text \<open>The loop \<open>while end > 0 && !s.is_char_boundary(end) { end -= 1 }\<close>.\<close>

fun truncate_end :: "string \<Rightarrow> nat \<Rightarrow> nat" where
  "truncate_end s 0 = 0"
| "truncate_end s (Suc n) =
    (if is_char_boundary s (Suc n) then Suc n else truncate_end s n)"

text \<open>
  The slice \<open>&s[..end]\<close> panics unless \<open>end\<close> is a boundary; \<open>truncate_end_boundary\<close> below shows
  that it always is, so the model takes the prefix.
\<close>

definition truncate_utf8 :: "string \<Rightarrow> nat \<Rightarrow> string" where
  "truncate_utf8 s m = (if length s \<le> m then s else take (truncate_end s m) s)"

section \<open>Formatting of numbers and durations\<close>

definition digit_char :: "nat \<Rightarrow> char" where
  "digit_char d = char_of (48 + d)"

fun show_nat :: "nat \<Rightarrow> string" where
  "show_nat n = (if n < 10 then [digit_char n] else show_nat (n div 10) @ [digit_char (n mod 10)])"

declare show_nat.simps [simp del]

text \<open>
  \<open>impl Debug for Duration\<close> without a precision: the largest unit that is not zero, and the
  fractional digits without trailing zeros (nine at most, the loop bound of the formatter).
\<close>

fun frac_digits :: "nat \<Rightarrow> nat \<Rightarrow> nat \<Rightarrow> string" where
  "frac_digits 0 r d = []"
| "frac_digits (Suc k) r d =
    (if r = 0 then [] else digit_char (r div d) # frac_digits k (r mod d) (d div 10))"

definition fmt_decimal :: "nat \<Rightarrow> nat \<Rightarrow> nat \<Rightarrow> string \<Rightarrow> string" where
  "fmt_decimal i r d suffix =
    show_nat i @ (if r = 0 then [] else CHR ''.'' # frac_digits 9 r d) @ suffix"

definition debug_duration :: "duration \<Rightarrow> string" where
  "debug_duration d =
    (if 1000000000 \<le> d then fmt_decimal (d div 1000000000) (d mod 1000000000) 100000000 ''s''
     else if 1000000 \<le> d then fmt_decimal (d div 1000000) (d mod 1000000) 100000 ''ms''
     else if 1000 \<le> d then
       fmt_decimal (d div 1000) (d mod 1000) 100 [CHR 0xC2, CHR 0xB5, CHR ''s'']
     else fmt_decimal d 0 1 ''ns'')"

section \<open>Decoding inverts encoding\<close>

definition char_width :: "nat \<Rightarrow> nat" where
  "char_width c = (if c < 0x80 then 1 else if c < 0x800 then 2 else if c < 0x10000 then 3 else 4)"

lemma length_encode_char [simp]: "length (encode_char c) = char_width c"
  by (simp add: encode_char_def char_width_def)

lemma char_width_pos [simp]: "0 < char_width c"
  by (simp add: char_width_def)

lemma encode_utf8_Nil [simp]: "encode_utf8 [] = []"
  and encode_utf8_Cons [simp]: "encode_utf8 (c # cs) = encode_char c @ encode_utf8 cs"
  and encode_utf8_append [simp]: "encode_utf8 (cs @ ds) = encode_utf8 cs @ encode_utf8 ds"
  by (simp_all add: encode_utf8_def)

lemma mod_offset: "r < k \<Longrightarrow> k dvd m \<Longrightarrow> (m + r) mod k = (r::nat)"
  by (metis add.commute mod_less dvd_imp_mod_0 mod_add_right_eq add.right_neutral)

lemma split_64: "(c::nat) = c div 64 * 64 + c mod 64"
  by simp

lemma split_4096: "(c::nat) = c div 4096 * 4096 + c div 64 mod 64 * 64 + c mod 64"
proof -
  have "c div 64 = c div 4096 * 64 + c div 64 mod 64"
    using split_64 [of "c div 64"] by (simp add: div_mult2_eq [symmetric])
  then show ?thesis using split_64 [of c] by linarith
qed

lemma split_262144:
  "(c::nat) = c div 262144 * 262144 + c div 4096 mod 64 * 4096 + c div 64 mod 64 * 64 + c mod 64"
proof -
  have "c div 4096 = c div 262144 * 64 + c div 4096 mod 64"
    using split_64 [of "c div 4096"] by (simp add: div_mult2_eq [symmetric])
  then show ?thesis using split_4096 [of c] by linarith
qed

lemma chars_2: "0x80 \<le> c \<Longrightarrow> c < 0x800 \<Longrightarrow> chars (encode_char c @ s) = c # chars s"
proof -
  assume c: "0x80 \<le> c" "c < 0x800"
  then have "c div 64 < 32" by simp
  with c show ?thesis
    by (simp add: encode_char_def Let_def mod_offset)
qed

lemma chars_3: "0x800 \<le> c \<Longrightarrow> c < 0x10000 \<Longrightarrow> chars (encode_char c @ s) = c # chars s"
proof -
  assume c: "0x800 \<le> c" "c < 0x10000"
  then have "c div 4096 < 16" by simp
  with c show ?thesis
    by (simp add: encode_char_def Let_def mod_offset split_4096 [symmetric])
qed

lemma chars_4: "0x10000 \<le> c \<Longrightarrow> c < 0x110000 \<Longrightarrow> chars (encode_char c @ s) = c # chars s"
proof -
  assume c: "0x10000 \<le> c" "c < 0x110000"
  then have "c div 262144 < 8" by simp
  with c show ?thesis
    by (simp add: encode_char_def Let_def mod_offset split_262144 [symmetric])
qed

lemma chars_encode_char: "is_scalar c \<Longrightarrow> chars (encode_char c @ s) = c # chars s"
proof -
  assume "is_scalar c"
  then consider "c < 0x80" | "0x80 \<le> c \<and> c < 0x800" | "0x800 \<le> c \<and> c < 0x10000"
    | "0x10000 \<le> c \<and> c < 0x110000"
    by (fastforce simp: is_scalar_def)
  then show ?thesis
    by cases (simp_all add: chars_2 chars_3 chars_4, simp add: encode_char_def Let_def)
qed

lemma chars_encode_utf8: "list_all is_scalar cs \<Longrightarrow> chars (encode_utf8 cs) = cs"
  by (induction cs) (simp_all add: chars_encode_char)

lemma is_str_encode_utf8 [intro]: "list_all is_scalar cs \<Longrightarrow> is_str (encode_utf8 cs)"
  by (simp add: is_str_def chars_encode_utf8)

lemma is_strE:
  assumes "is_str s"
  obtains cs where "s = encode_utf8 cs" and "list_all is_scalar cs" and "chars s = cs"
  using assms by (metis is_str_def)

section \<open>Boundaries\<close>

lemma encode_char_hd: "is_scalar c \<Longrightarrow> \<not> is_continuation (encode_char c ! 0)"
  by (auto simp: encode_char_def is_continuation_def is_scalar_def)

lemma encode_char_tl:
  "is_scalar c \<Longrightarrow> 0 < i \<Longrightarrow> i < char_width c \<Longrightarrow> is_continuation (encode_char c ! i)"
proof -
  assume "is_scalar c" "0 < i" "i < char_width c"
  moreover from this have "i = 1 \<or> i = 2 \<or> i = 3" by (auto simp: char_width_def split: if_splits)
  ultimately show ?thesis
    by (auto simp: encode_char_def is_continuation_def is_scalar_def char_width_def split: if_splits)
qed
lemma boundary_shift:
  assumes "list_all is_scalar (c # cs)"
  shows "is_char_boundary (encode_utf8 (c # cs)) (char_width c + i) \<longleftrightarrow>
    is_char_boundary (encode_utf8 cs) i"
proof (cases "i = 0")
  case True
  show ?thesis
  proof (cases cs)
    case Nil
    with True show ?thesis by (simp add: is_char_boundary_def)
  next
    case (Cons d ds)
    then have "encode_utf8 (c # cs) ! char_width c = encode_char d ! 0"
      by (simp add: nth_append)
    with Cons True assms encode_char_hd show ?thesis
      by (simp add: is_char_boundary_def)
  qed
next
  case False
  then show ?thesis by (auto simp: is_char_boundary_def nth_append)
qed

lemma boundary_inside:
  assumes "is_scalar c" and "0 < i" and "i < char_width c"
  shows "\<not> is_char_boundary (encode_utf8 (c # cs)) i"
  using encode_char_tl [OF assms] assms by (auto simp: is_char_boundary_def nth_append)

lemma truncate_end_le: "truncate_end s m \<le> m"
  by (induction s m rule: truncate_end.induct) auto

lemma truncate_end_boundary: "is_char_boundary s (truncate_end s m)"
  by (induction s m rule: truncate_end.induct) (auto simp: is_char_boundary_def)

lemma truncate_end_max:
  "j \<le> m \<Longrightarrow> is_char_boundary s j \<Longrightarrow> j \<le> truncate_end s m"
  by (induction s m rule: truncate_end.induct) (auto simp: le_Suc_eq)

lemma truncate_end_eqI:
  assumes "b \<le> m" and "is_char_boundary s b"
    and "\<And>j. b < j \<Longrightarrow> j \<le> m \<Longrightarrow> \<not> is_char_boundary s j"
  shows "truncate_end s m = b"
  using assms truncate_end_max [of b m s] truncate_end_le [of s m] truncate_end_boundary [of s m]
  by (meson le_antisym not_le)

section \<open>The reference truncation, character by character\<close>

text \<open>The longest prefix of the characters whose encoding fits into the budget.\<close>

fun take_fitting :: "nat \<Rightarrow> nat list \<Rightarrow> nat list" where
  "take_fitting m [] = []"
| "take_fitting m (c # cs) =
    (if char_width c \<le> m then c # take_fitting (m - char_width c) cs else [])"

lemma truncate_end_Cons:
  assumes "list_all is_scalar (c # cs)"
  shows "truncate_end (encode_utf8 (c # cs)) m =
    (if char_width c \<le> m then char_width c + truncate_end (encode_utf8 cs) (m - char_width c)
     else 0)"
proof (cases "char_width c \<le> m")
  case True
  let ?e = "truncate_end (encode_utf8 cs) (m - char_width c)"
  have "truncate_end (encode_utf8 (c # cs)) m = char_width c + ?e"
  proof (rule truncate_end_eqI)
    show "char_width c + ?e \<le> m"
      using truncate_end_le [of "encode_utf8 cs" "m - char_width c"] True by linarith
    show "is_char_boundary (encode_utf8 (c # cs)) (char_width c + ?e)"
      by (simp only: boundary_shift [OF assms] truncate_end_boundary)
    fix j
    assume j: "char_width c + ?e < j" "j \<le> m"
    then have "\<not> is_char_boundary (encode_utf8 cs) (j - char_width c)"
      using truncate_end_max [of "j - char_width c" "m - char_width c" "encode_utf8 cs"] by linarith
    with j show "\<not> is_char_boundary (encode_utf8 (c # cs)) j"
      using boundary_shift [OF assms, of "j - char_width c"] by simp
  qed
  with True show ?thesis by simp
next
  case False
  have "truncate_end (encode_utf8 (c # cs)) m = 0"
  proof (rule truncate_end_eqI)
    fix j
    assume "0 < j" "j \<le> m"
    with False assms show "\<not> is_char_boundary (encode_utf8 (c # cs)) j"
      using boundary_inside [of c j cs] by simp
  qed (simp_all add: is_char_boundary_def)
  with False show ?thesis by simp
qed

lemma take_fitting_all: "length (encode_utf8 cs) \<le> m \<Longrightarrow> take_fitting m cs = cs"
  by (induction cs arbitrary: m) auto

lemma take_truncate_end:
  "list_all is_scalar cs \<Longrightarrow>
   take (truncate_end (encode_utf8 cs) m) (encode_utf8 cs) = encode_utf8 (take_fitting m cs)"
proof (induction cs arbitrary: m)
  case Nil
  then show ?case by simp
next
  case (Cons c cs)
  then show ?case
    using truncate_end_Cons [OF Cons.prems, of m] by (simp del: encode_utf8_Cons) simp
qed

lemma truncate_utf8_encode:
  "list_all is_scalar cs \<Longrightarrow> truncate_utf8 (encode_utf8 cs) m = encode_utf8 (take_fitting m cs)"
  by (simp add: truncate_utf8_def take_truncate_end take_fitting_all)

lemma length_take_fitting: "length (encode_utf8 (take_fitting m cs)) \<le> m"
  by (induction m cs rule: take_fitting.induct) auto

lemma take_fitting_take: "take_fitting m cs = take (length (take_fitting m cs)) cs"
  by (induction m cs rule: take_fitting.induct) auto

lemma set_take_fitting: "set (take_fitting m cs) \<subseteq> set cs"
  by (induction m cs rule: take_fitting.induct) auto

lemma length_take_fitting_le: "length (take_fitting m cs) \<le> length cs"
  by (induction m cs rule: take_fitting.induct) auto

lemma take_fitting_max:
  "j \<le> length cs \<Longrightarrow> length (encode_utf8 (take j cs)) \<le> m \<Longrightarrow> j \<le> length (take_fitting m cs)"
proof (induction m cs arbitrary: j rule: take_fitting.induct)
  case (1 m)
  then show ?case by simp
next
  case (2 m c cs)
  then show ?case by (cases j) auto
qed

lemma list_all_take_fitting: "list_all P cs \<Longrightarrow> list_all P (take_fitting m cs)"
  using set_take_fitting [of m cs] by (auto simp: list_all_iff)

lemma is_str_truncate_utf8 [intro]: "is_str s \<Longrightarrow> is_str (truncate_utf8 s m)"
  by (auto elim!: is_strE simp: truncate_utf8_encode intro!: is_str_encode_utf8 list_all_take_fitting)

lemma length_truncate_utf8: "length (truncate_utf8 s m) \<le> m"
  using truncate_end_le [of s m] by (simp add: truncate_utf8_def)

lemma set_truncate_utf8: "set (truncate_utf8 s m) \<subseteq> set s"
  by (auto simp: truncate_utf8_def dest: in_set_takeD)

section \<open>Sanitizing\<close>

lemma is_scalar_sanitize_char [simp]: "is_scalar c \<Longrightarrow> is_scalar (sanitize_char c)"
  by (simp add: sanitize_char_def is_scalar_def)

lemma is_control_sanitize_char [simp]: "\<not> is_control (sanitize_char c)"
  by (simp add: sanitize_char_def is_control_def)

lemma sanitize_char_id: "\<not> is_control c \<Longrightarrow> sanitize_char c = c"
  by (simp add: sanitize_char_def)

lemma chars_sanitize_reason:
  "is_str s \<Longrightarrow> chars (sanitize_reason s) = map sanitize_char (chars s)"
  by (simp add: sanitize_reason_def is_str_def list_all_iff chars_encode_utf8)

lemma is_str_sanitize_reason [intro]: "is_str s \<Longrightarrow> is_str (sanitize_reason s)"
  by (auto simp: sanitize_reason_def is_str_def [of s] list_all_iff)

definition is_c1 :: "nat \<Rightarrow> bool" where
  "is_c1 c \<longleftrightarrow> 0x80 \<le> c \<and> c < 0xA0"

lemma char_width_sanitize:
  "char_width c = char_width (sanitize_char c) + (if is_c1 c then 1 else 0)"
  by (auto simp: char_width_def sanitize_char_def is_control_def is_c1_def)

lemma length_encode_sanitize:
  "length (encode_utf8 cs) =
   length (encode_utf8 (map sanitize_char cs)) + length (filter is_c1 cs)"
proof (induction cs)
  case (Cons c cs)
  then show ?case using char_width_sanitize [of c] by simp
qed simp

lemma char_of_eq_nul: "n < 256 \<Longrightarrow> CHR 0x00 = char_of n \<longleftrightarrow> n = (0::nat)"
proof
  assume "n < 256" and "CHR 0x00 = char_of n"
  then have "(of_char (CHR 0x00) :: nat) = of_char (char_of n :: char)" by (simp only:)
  then have "0 = n mod 256" by (simp only: of_char_of) simp
  with \<open>n < 256\<close> show "n = 0" by simp
qed (simp add: char_of_def)

text \<open>No byte of a sanitised text is NUL, for any input bytes: \<open>chars\<close> yields 21-bit numbers.\<close>

lemma code_point_bounds:
  fixes b y z w :: nat
  shows "b mod 32 * 64 + y mod 64 < 0x200000"
    "b mod 16 * 4096 + y mod 64 * 64 + z mod 64 < 0x200000"
    "b mod 8 * 262144 + y mod 64 * 4096 + z mod 64 * 64 + w mod 64 < 0x200000"
  using mod_less_divisor [of 32 b] mod_less_divisor [of 16 b] mod_less_divisor [of 8 b]
    mod_less_divisor [of 64 y] mod_less_divisor [of 64 z] mod_less_divisor [of 64 w] by linarith+

lemma chars_bound: "list_all (\<lambda>c. c < 0x200000) (chars s)"
proof (induction s rule: length_induct)
  case (1 s)
  then have IH: "length t < length s \<Longrightarrow> list_all (\<lambda>c. c < 0x200000) (chars t)" for t by blast
  show ?case
  proof (cases s)
    case (Cons x t)
    show ?thesis
      unfolding Cons chars.simps(2) [of x t] Let_def
      using IH unfolding Cons
      by (simp del: chars.simps add: code_point_bounds split: list.split)
  qed simp
qed

lemma nul_encode_char: "c < 0x200000 \<Longrightarrow> CHR 0x00 \<in> set (encode_char c) \<Longrightarrow> c = 0"
proof -
  assume c: "c < 0x200000" "CHR 0x00 \<in> set (encode_char c)"
  have "128 + c div 64 mod 64 < 256" "128 + c div 4096 mod 64 < 256" "128 + c mod 64 < 256"
    using mod_less_divisor [of 64 "c div 64"] mod_less_divisor [of 64 "c div 4096"]
      mod_less_divisor [of 64 c] by simp_all
  moreover have "c < 0x800 \<Longrightarrow> 192 + c div 64 < 256" "c < 0x10000 \<Longrightarrow> 224 + c div 4096 < 256"
    "c < 0x200000 \<Longrightarrow> 240 + c div 262144 < 256"
    by simp_all
  ultimately show ?thesis
    using c by (auto simp: encode_char_def char_of_eq_nul split: if_splits)
qed

lemma nul_encode_utf8:
  "list_all (\<lambda>c. c < 0x200000) cs \<Longrightarrow> 0 \<notin> set cs \<Longrightarrow> CHR 0x00 \<notin> set (encode_utf8 cs)"
  by (induction cs) (auto dest: nul_encode_char)

lemma nul_sanitize_reason: "CHR 0x00 \<notin> set (sanitize_reason s)"
proof -
  have "list_all (\<lambda>c. c < 0x200000) (map sanitize_char (chars s))"
    using chars_bound [of s] by (auto simp: list_all_iff sanitize_char_def)
  moreover have "0 \<notin> set (map sanitize_char (chars s))"
    by (auto simp: sanitize_char_def is_control_def split: if_splits)
  ultimately show ?thesis
    by (simp add: sanitize_reason_def nul_encode_utf8)
qed

lemma ascii_is_str: "list_all (\<lambda>x. of_char x < (128::nat)) s \<Longrightarrow> is_str s"
proof -
  assume a: "list_all (\<lambda>x. of_char x < (128::nat)) s"
  then have "chars s = map of_char s"
    by (induction s) (auto simp: Let_def)
  moreover from a have "encode_utf8 (map of_char s) = s"
    by (induction s) (auto simp: encode_char_def)
  ultimately show "is_str s"
    using a by (auto simp: is_str_def list_all_iff is_scalar_def)
qed

lemma sanitize_reason_printable:
  assumes "list_all (\<lambda>x. (32::nat) \<le> of_char x \<and> of_char x < (127::nat)) s"
  shows "sanitize_reason s = s"
  using assms
  by (induction s) (auto simp: sanitize_reason_def sanitize_char_def is_control_def encode_char_def)

lemma sanitize_reason_encode:
  "list_all is_scalar cs \<Longrightarrow> sanitize_reason (encode_utf8 cs) = encode_utf8 (map sanitize_char cs)"
  by (simp add: sanitize_reason_def chars_encode_utf8)

lemma sanitize_reason_ascii:
  assumes "list_all (\<lambda>x. of_char x < (128::nat)) s"
  shows "sanitize_reason s = map (\<lambda>x. if of_char x < (32::nat) \<or> of_char x = (127::nat) then CHR ''?'' else x) s"
  using assms
proof (induction s)
  case (Cons a s)
  moreover have "char_of (63 :: nat) = CHR ''?''" using char_of_char [of "CHR ''?''"] by simp
  ultimately show ?case
    by (auto simp: sanitize_reason_def sanitize_char_def is_control_def encode_char_def Let_def)
qed (simp add: sanitize_reason_def)

lemma truncate_utf8_prefix: "\<exists>rest. s = truncate_utf8 s m @ rest"
  by (auto simp: truncate_utf8_def intro: append_take_drop_id [symmetric])

section \<open>Properties of the string helpers\<close>

text \<open>
  \<open>truncate_utf8\<close> returns the longest prefix of whole characters whose byte length is at
  most the limit: the byte loop never splits a character, never exceeds the limit, keeps the
  string valid UTF-8 and drops no character that would have fitted.
\<close>

lemma truncate_utf8_longest_prefix:
  assumes "is_str s"
  shows "\<exists>k \<le> length (chars s). truncate_utf8 s m = encode_utf8 (take k (chars s)) \<and>
    is_str (truncate_utf8 s m) \<and> length (truncate_utf8 s m) \<le> m \<and>
    (\<forall>j \<le> length (chars s). length (encode_utf8 (take j (chars s))) \<le> m \<longrightarrow> j \<le> k)"
proof -
  from assms obtain cs where s: "s = encode_utf8 cs" "list_all is_scalar cs" "chars s = cs"
    by (rule is_strE)
  let ?k = "length (take_fitting m cs)"
  have "truncate_utf8 s m = encode_utf8 (take ?k cs)"
    using s take_fitting_take [of m cs] by (simp add: truncate_utf8_encode)
  moreover have "?k \<le> length cs" by (rule length_take_fitting_le)
  moreover have "j \<le> length cs \<Longrightarrow> length (encode_utf8 (take j cs)) \<le> m \<Longrightarrow> j \<le> ?k" for j
    by (rule take_fitting_max)
  ultimately show ?thesis
    using assms s(3) length_truncate_utf8 by blast
qed

lemma chars_append: "list_all is_scalar cs \<Longrightarrow> chars (encode_utf8 cs @ s) = cs @ chars s"
  by (induction cs) (simp_all add: chars_encode_char)

lemma length_encode_take_mono: "j \<le> k \<Longrightarrow> length (encode_utf8 (take j cs)) \<le> length (encode_utf8 (take k cs))"
proof -
  assume "j \<le> k"
  then have "take k cs = take j cs @ take (k - j) (drop j cs)" by (metis le_add_diff_inverse take_add)
  then show ?thesis by (simp add: encode_utf8_def)
qed

text \<open>The same without characters: no valid prefix within the limit is longer.\<close>

lemma truncate_utf8_maximal:
  assumes s: "is_str (p @ q)" and p: "is_str p" and m: "length p \<le> m"
  shows "length p \<le> length (truncate_utf8 (p @ q) m)"
proof -
  from p obtain cs where cs: "p = encode_utf8 cs" "list_all is_scalar cs" by (rule is_strE)
  have chars: "chars (p @ q) = cs @ chars q" by (simp add: cs chars_append)
  from truncate_utf8_longest_prefix [OF s, of m] obtain k where
    k: "truncate_utf8 (p @ q) m = encode_utf8 (take k (chars (p @ q)))"
    "\<And>j. j \<le> length (chars (p @ q)) \<Longrightarrow> length (encode_utf8 (take j (chars (p @ q)))) \<le> m \<Longrightarrow> j \<le> k"
    by blast
  have "length cs \<le> k" using k(2) [of "length cs"] m unfolding chars by (simp add: cs(1))
  from length_encode_take_mono [OF this, of "chars (p @ q)"] show ?thesis unfolding k(1) chars by (simp add: cs(1))
qed

text \<open>
  \<open>sanitize_reason\<close> yields a valid string in which no control character is left (so no NUL
  byte, which Postgres would refuse, and no escape sequence), changes nothing else, and is
  idempotent.
\<close>

lemma sanitize_reason_clean:
  assumes "is_str s"
  shows "is_str (sanitize_reason s) \<and>
    list_all (\<lambda>c. \<not> is_control c) (chars (sanitize_reason s)) \<and>
    CHR 0x00 \<notin> set (sanitize_reason s) \<and>
    chars (sanitize_reason s) = map (\<lambda>c. if is_control c then 63 else c) (chars s) \<and>
    sanitize_reason (sanitize_reason s) = sanitize_reason s"
proof -
  have chars: "chars (sanitize_reason s) = map sanitize_char (chars s)"
    using assms by (rule chars_sanitize_reason)
  have "map sanitize_char (map sanitize_char (chars s)) = map sanitize_char (chars s)"
    by (simp add: sanitize_char_id)
  then have "sanitize_reason (sanitize_reason s) = sanitize_reason s"
    using chars by (metis sanitize_reason_def)
  moreover have "chars (sanitize_reason s) = map (\<lambda>c. if is_control c then 63 else c) (chars s)"
    unfolding chars sanitize_char_def ..
  moreover have "list_all (\<lambda>c. \<not> is_control c) (chars (sanitize_reason s))"
    unfolding chars by (simp add: list_all_iff)
  ultimately show ?thesis
    using assms nul_sanitize_reason is_str_sanitize_reason by blast
qed

text \<open>
  The byte length after \<open>sanitize_reason\<close>: every C1 control character (U+0080 to U+009F, two
  bytes) loses one byte and nothing else changes length, so the result is never longer than the
  input, and it has the input's length exactly when the input has no C1 control character.
\<close>

lemma sanitize_reason_length:
  assumes "is_str s"
  shows "length (sanitize_reason s) + length (filter is_c1 (chars s)) = length s"
  using assms length_encode_sanitize [of "chars s"] by (simp add: sanitize_reason_def is_str_def)

end
