(* ===== verification/Outbox_Errors.thy ===== *)
theory Outbox_Errors
  imports Outbox_Text
begin

text \<open>
  The limits of \<^verbatim>\<open>src/src/limits.rs\<close>, the error types of \<^verbatim>\<open>src/src/error.rs\<close> and the helpers of
  \<^verbatim>\<open>src/src/util.rs\<close> that classify and redact database errors. Errors of other crates appear as far as the
  source looks into them: of \<open>sqlx::Error\<close> the variants the source matches on (every other variant is
  \<open>OtherError\<close>), of \<open>pg_work_queue\<close>'s own error types nothing (they are type variables).
\<close>

section \<open>limits.rs\<close>

definition MAX_EVENT_TYPE_BYTES :: nat where "MAX_EVENT_TYPE_BYTES = 128"
definition MAX_HANDLER_ID_BYTES :: nat where "MAX_HANDLER_ID_BYTES = 128"
definition MAX_TENANT_BYTES :: nat where "MAX_TENANT_BYTES = 64"
definition MAX_BC_BYTES :: nat where "MAX_BC_BYTES = 64"
definition MAX_IDEMPOTENCY_KEY_BYTES :: nat where "MAX_IDEMPOTENCY_KEY_BYTES = 128"
definition MAX_AGGREGATE_KEY_BYTES :: nat where "MAX_AGGREGATE_KEY_BYTES = 128"
definition MAX_PAYLOAD_BYTES :: nat where "MAX_PAYLOAD_BYTES = 1048576"
definition MAX_HEADERS_BYTES :: nat where "MAX_HEADERS_BYTES = 16 * 1024"
definition MAX_LAST_ERROR_BYTES :: nat where "MAX_LAST_ERROR_BYTES = 8192"
definition PURGE_CHUNK_SIZE :: nat where "PURGE_CHUNK_SIZE = 10000"

lemmas limit_defs = MAX_EVENT_TYPE_BYTES_def MAX_HANDLER_ID_BYTES_def MAX_TENANT_BYTES_def
  MAX_BC_BYTES_def MAX_IDEMPOTENCY_KEY_BYTES_def MAX_AGGREGATE_KEY_BYTES_def
  MAX_PAYLOAD_BYTES_def MAX_HEADERS_BYTES_def MAX_LAST_ERROR_BYTES_def

section \<open>Database errors\<close>

text \<open>
  \<open>Database code text\<close>: an error reported by Postgres, with its SQLSTATE and the free text (message
  and DETAIL line) that may echo column values. The texts of the other variants are theirs.
\<close>

datatype sqlx_error =
    Database "string option" string
  | Io string
  | Tls string
  | Protocol string
  | TypeNotFound string
  | ColumnDecode string
  | Encode string
  | Decode string
  | Configuration string
  | RowNotFound
  | PoolTimedOut
  | PoolClosed
  | OtherError string

definition starts_with :: "string \<Rightarrow> string \<Rightarrow> bool" where
  "starts_with s p \<longleftrightarrow> take (length p) s = p"

fun is_pg_constraint_violation :: "sqlx_error \<Rightarrow> bool" where
  "is_pg_constraint_violation (Database (Some code) t) = starts_with code ''23''"
| "is_pg_constraint_violation e = False"

fun is_sqlx_deterministic :: "sqlx_error \<Rightarrow> bool" where
  "is_sqlx_deterministic (Database (Some c) t) =
    (starts_with c ''0A'' \<or> starts_with c ''22'' \<or> starts_with c ''23'' \<or> starts_with c ''25''
     \<or> starts_with c ''28'' \<or> starts_with c ''3F'' \<or> starts_with c ''42'' \<or> starts_with c ''44'')"
| "is_sqlx_deterministic (Database None t) = False"
| "is_sqlx_deterministic (Protocol t) = True"
| "is_sqlx_deterministic (TypeNotFound t) = True"
| "is_sqlx_deterministic (ColumnDecode t) = True"
| "is_sqlx_deterministic (Encode t) = True"
| "is_sqlx_deterministic (Decode t) = True"
| "is_sqlx_deterministic (Configuration t) = True"
| "is_sqlx_deterministic e = False"

fun redact_db_error :: "sqlx_error \<Rightarrow> string" where
  "redact_db_error (Database code t) =
    ''db_error code='' @ (case code of Some c \<Rightarrow> c | None \<Rightarrow> ''unknown'')"
| "redact_db_error (Io t) = ''db_error kind=io''"
| "redact_db_error PoolTimedOut = ''db_error kind=pool_timed_out''"
| "redact_db_error PoolClosed = ''db_error kind=pool_closed''"
| "redact_db_error RowNotFound = ''db_error kind=row_not_found''"
| "redact_db_error (Tls t) = ''db_error kind=tls''"
| "redact_db_error (Configuration t) = ''db_error kind=configuration''"
| "redact_db_error e = ''db_error kind=other''"

section \<open>Panic payloads and headers\<close>

text \<open>What \<open>downcast_ref\<close> can find in the \<open>Box<dyn Any>\<close> of a panic.\<close>

datatype panic_payload = StaticStr string | OwnedString string | OtherPayload

fun panic_payload_message :: "panic_payload \<Rightarrow> string" where
  "panic_payload_message (StaticStr s) = s"
| "panic_payload_message (OwnedString s) = s"
| "panic_payload_message OtherPayload = ''panic with non-string payload''"

text \<open>\<open>serde_json::Value\<close>; a \<open>serde_json::Map\<close> is the list of its entries.\<close>

datatype json =
    JNull | JBool bool | JNumber string | JString string
  | JArray "json list" | JObject "(string \<times> json) list"

type_synonym json_map = "(string \<times> json) list"

fun parse_headers :: "json \<Rightarrow> json_map" where
  "parse_headers (JObject m) = m"
| "parse_headers v = []"

section \<open>error.rs\<close>

datatype BuildError =
    HandlerIdEmpty
  | HandlerIdTooLong nat nat
  | DuplicateHandlerId string string
  | ConfigInvalid string

datatype 'p DispatchError =
    TenantIdTooLong nat nat
  | ProducerBcTooLong nat nat
  | EventTypeInvalid nat nat
  | IdempotencyKeyInvalid nat nat
  | AggregateKeyInvalid nat nat
  | PayloadTooLarge nat nat
  | HeadersTooLarge nat nat
  | NoHandlersRegistered string
  | Codec string
  | PgwqPush 'p
  | Constraint sqlx_error
  | Transient sqlx_error

datatype HistoryError = HistorySqlx sqlx_error

datatype PurgeError = PurgeSqlx sqlx_error

datatype ('b, 's) StartError =
    AlreadyStarted
  | SchemaMissing sqlx_error
  | PoolTooSmall u32 u32 nat
  | PgwqBuild 'b
  | PgwqStart 's

datatype 'd ShutdownError = ShutdownPgwq 'd

text \<open>\<open>impl From<sqlx::Error> for DispatchError\<close>.\<close>

definition dispatch_error_from :: "sqlx_error \<Rightarrow> 'p DispatchError" where
  "dispatch_error_from e = (if is_sqlx_deterministic e then Constraint e else Transient e)"

text \<open>\<open>DispatchError::is_retriable\<close>; \<open>PushError::is_retriable\<close> of \<open>pg_work_queue\<close> is the parameter.\<close>

fun is_retriable :: "('p \<Rightarrow> bool) \<Rightarrow> 'p DispatchError \<Rightarrow> bool" where
  "is_retriable push_retriable (Transient e) = True"
| "is_retriable push_retriable (PgwqPush e) = push_retriable e"
| "is_retriable push_retriable e = False"

text \<open>The \<open>Display\<close> strings that \<open>thiserror\<close> derives from the \<open>#[error(\<dots>)]\<close> attributes.\<close>

text \<open>The multiplication sign and the dash of the messages, in UTF-8.\<close>

definition times_sign :: string where "times_sign = [CHR 0xC3, CHR 0x97]"
definition em_dash :: string where "em_dash = [CHR 0xE2, CHR 0x80, CHR 0x94]"

definition quoted :: "string \<Rightarrow> string" where
  "quoted s = CHR 0x27 # s @ [CHR 0x27]"

fun display_BuildError :: "BuildError \<Rightarrow> string" where
  "display_BuildError HandlerIdEmpty = ''handler_id must be non-empty''"
| "display_BuildError (HandlerIdTooLong len mx) =
    ''handler_id length '' @ show_nat len @ '' bytes exceeds max '' @ show_nat mx"
| "display_BuildError (DuplicateHandlerId event_type handler_id) =
    ''handler_id '' @ quoted handler_id @ '' already registered for event_type '' @ quoted event_type"
| "display_BuildError (ConfigInvalid m) = ''config invalid: '' @ m"

fun display_DispatchError :: "'p DispatchError \<Rightarrow> string" where
  "display_DispatchError (TenantIdTooLong len mx) =
    ''tenant_id length '' @ show_nat len @ '' bytes exceeds max '' @ show_nat mx"
| "display_DispatchError (ProducerBcTooLong len mx) =
    ''producer_bc length '' @ show_nat len @ '' bytes exceeds max '' @ show_nat mx"
| "display_DispatchError (EventTypeInvalid len mx) =
    ''event_type length '' @ show_nat len @ '' bytes not in 1..='' @ show_nat mx"
| "display_DispatchError (IdempotencyKeyInvalid len mx) =
    ''idempotency_key length '' @ show_nat len @ '' bytes not in 1..='' @ show_nat mx"
| "display_DispatchError (AggregateKeyInvalid len mx) =
    ''aggregate_key length '' @ show_nat len @ '' bytes not in 1..='' @ show_nat mx"
| "display_DispatchError (PayloadTooLarge sz mx) =
    ''encoded payload size '' @ show_nat sz @ '' exceeds max '' @ show_nat mx"
| "display_DispatchError (HeadersTooLarge sz mx) =
    ''encoded headers size '' @ show_nat sz @ '' exceeds max '' @ show_nat mx"
| "display_DispatchError (NoHandlersRegistered event_type) =
    ''no handlers registered for event_type '' @ quoted event_type"
| "display_DispatchError (Codec e) = ''codec error encoding event''"
| "display_DispatchError (PgwqPush e) = ''pg_work_queue push failed''"
| "display_DispatchError (Constraint e) = ''database constraint violation during dispatch''"
| "display_DispatchError (Transient e) = ''transient database error during dispatch''"

fun display_HistoryError :: "HistoryError \<Rightarrow> string" where
  "display_HistoryError (HistorySqlx e) = ''database error''"

fun display_PurgeError :: "PurgeError \<Rightarrow> string" where
  "display_PurgeError (PurgeSqlx e) = ''database error''"

fun display_StartError :: "('b, 's) StartError \<Rightarrow> string" where
  "display_StartError AlreadyStarted = ''outbox already started; second start() rejected''"
| "display_StartError (SchemaMissing e) =
    ''outbox schema missing '' @ em_dash @ '' did you run rust_events::migrator()?''"
| "display_StartError (PoolTooSmall max_connections concurrency required) =
    ''connection pool too small: max_connections='' @ show_nat (unat max_connections)
    @ '', but concurrency='' @ show_nat (unat concurrency) @ '' requires at least '' @ show_nat required
    @ '' (concurrency '' @ times_sign @ '' 2 + 2)''"
| "display_StartError (PgwqBuild e) = ''pg_work_queue worker build failed''"
| "display_StartError (PgwqStart e) = ''pg_work_queue worker start failed''"

fun display_ShutdownError :: "'d ShutdownError \<Rightarrow> string" where
  "display_ShutdownError (ShutdownPgwq e) = ''pg_work_queue worker shutdown failed''"

section \<open>What an error may tell\<close>

text \<open>What may be told of an error: its variant and, for a database error, the SQLSTATE.\<close>

fun error_shape :: "sqlx_error \<Rightarrow> sqlx_error" where
  "error_shape (Database code t) = Database code []"
| "error_shape (Io t) = Io []"
| "error_shape (Tls t) = Tls []"
| "error_shape (Protocol t) = Protocol []"
| "error_shape (TypeNotFound t) = TypeNotFound []"
| "error_shape (ColumnDecode t) = ColumnDecode []"
| "error_shape (Encode t) = Encode []"
| "error_shape (Decode t) = Decode []"
| "error_shape (Configuration t) = Configuration []"
| "error_shape (OtherError t) = OtherError []"
| "error_shape e = e"

lemma redact_shape: "redact_db_error (error_shape e) = redact_db_error e"
  by (cases e) auto

lemma deterministic_shape: "is_sqlx_deterministic (error_shape e) = is_sqlx_deterministic e"
  by (cases e rule: is_sqlx_deterministic.cases) auto

text \<open>No \<open>Display\<close> text of an error that wraps a database error depends on that error.\<close>

lemma display_echoes_nothing:
  "display_DispatchError (Constraint e) = display_DispatchError (Constraint e')"
  "display_DispatchError (Transient e) = display_DispatchError (Transient e')"
  "display_HistoryError (HistorySqlx e) = display_HistoryError (HistorySqlx e')"
  "display_PurgeError (PurgeSqlx e) = display_PurgeError (PurgeSqlx e')"
  "display_StartError (SchemaMissing e) = display_StartError (SchemaMissing e')"
  by simp_all

lemma redact_db_error_prefix: "starts_with (redact_db_error e) ''db_error ''"
  by (cases e) (auto simp: starts_with_def)

section \<open>Properties of the error helpers\<close>

definition deterministic_classes :: "string list" where
  "deterministic_classes = [''0A'', ''22'', ''23'', ''25'', ''28'', ''3F'', ''42'', ''44'']"

text \<open>
  An error the server reported with an SQLSTATE is retriable for \<open>dispatch\<close> exactly when its class is none of eight: the
  four that the documentation of \<open>Constraint\<close> lists and 0A, 25, 3F and 44.
\<close>

lemma sqlstate_classification:
  "is_retriable pr (dispatch_error_from (Database (Some c) t)) = (take 2 c \<notin> set deterministic_classes)"
  by (auto simp: dispatch_error_from_def deterministic_classes_def starts_with_def numeral_2_eq_2)

end
