(* ===== verification/Outbox_Handler.thy ===== *)
theory Outbox_Handler
  imports Outbox_Errors
begin

text \<open>
  The data that flows between the dispatcher, the worker and the user's handlers:
  \<^verbatim>\<open>src/src/handler.rs\<close> (events, handler errors, handler context), \<^verbatim>\<open>src/src/dispatch_context.rs\<close>, \<^verbatim>\<open>src/src/envelope.rs\<close>,
  \<^verbatim>\<open>src/src/outcome.rs\<close>, and the type-erased handler of \<^verbatim>\<open>src/src/registry.rs\<close>.
\<close>

section \<open>handler.rs\<close>

text \<open>
  The trait \<open>DomainEvent\<close> as a dictionary: the wire name, the aggregate key, and the event's
  \<open>serde_json\<close> encoder and decoder, which are parameters (an encoder or decoder error is its text).
\<close>

record 'e DomainEvent =
  EVENT_TYPE :: string
  aggregate_key :: "'e \<Rightarrow> string option"
  to_vec :: "'e \<Rightarrow> (bytes, string) rresult"
  from_slice :: "bytes \<Rightarrow> ('e, string) rresult"

datatype HandlerError =
    Retry string "duration option"
  | Skip string
  | Abort string

fun display_HandlerError :: "HandlerError \<Rightarrow> string" where
  "display_HandlerError (Retry reason retry_in) = ''retry: '' @ reason"
| "display_HandlerError (Skip reason) = ''skip: '' @ reason"
| "display_HandlerError (Abort reason) = ''abort: '' @ reason"

definition handler_retry :: "string \<Rightarrow> HandlerError" where
  "handler_retry reason = Retry reason None"

definition handler_retry_in :: "string \<Rightarrow> duration \<Rightarrow> HandlerError" where
  "handler_retry_in reason d = Retry reason (Some d)"

text \<open>
  \<open>(when - Utc::now()).to_std().unwrap_or(Duration::ZERO)\<close>: \<open>to_std\<close> fails on a negative distance.
\<close>

definition handler_retry_at :: "string \<Rightarrow> timestamp \<Rightarrow> timestamp \<Rightarrow> HandlerError" where
  "handler_retry_at reason when_at now =
    Retry reason (Some (if when_at - now < 0 then 0 else nat (when_at - now)))"

definition handler_skip :: "string \<Rightarrow> HandlerError" where
  "handler_skip reason = Skip reason"

definition handler_abort :: "string \<Rightarrow> HandlerError" where
  "handler_abort reason = Abort reason"

record HandlerContext =
  hc_event_id :: uuid
  hc_tenant_id :: string
  hc_producer_bc :: string
  hc_attempt :: u32
  hc_max_attempts :: u32
  hc_delivery_key :: uuid
  hc_dispatch_idempotency_key :: "string option"
  hc_headers :: json_map

section \<open>Handler futures\<close>

text \<open>
  A handler's future, as far as the worker observes it: after how long it completes (\<open>None\<close> when it
  never does) and how, by returning or by a panic.
\<close>

datatype 'a ending = Returned 'a | Panicked panic_payload

record 'a run =
  completes_after :: "duration option"
  ending :: "'a ending"

section \<open>registry.rs: the type-erased handler\<close>

datatype HandlerOutcome =
    OutcomeOk
  | OutcomeHandler HandlerError
  | DecodeFailed string

type_synonym ErasedHandler = "bytes \<Rightarrow> HandlerContext \<Rightarrow> HandlerOutcome run"

fun outcome_of :: "(unit, HandlerError) rresult \<Rightarrow> HandlerOutcome" where
  "outcome_of (Inr _) = OutcomeOk"
| "outcome_of (Inl err) = OutcomeHandler err"

fun map_ending :: "('a \<Rightarrow> 'b) \<Rightarrow> 'a ending \<Rightarrow> 'b ending" where
  "map_ending f (Returned a) = Returned (f a)"
| "map_ending f (Panicked p) = Panicked p"

text \<open>\<open>impl ErasedHandler for TypedHandler<E, H>\<close>: decode, then run the user's handler.\<close>

definition handle_erased ::
  "'e DomainEvent \<Rightarrow> ('e \<Rightarrow> HandlerContext \<Rightarrow> (unit, HandlerError) rresult run) \<Rightarrow> ErasedHandler"
where
  "handle_erased E handle payload ctx =
    (case from_slice E payload of
       Inl e \<Rightarrow> \<lparr>completes_after = Some 0,
                ending = Returned (DecodeFailed (''decode '' @ EVENT_TYPE E @ '': '' @ e))\<rparr>
     | Inr event \<Rightarrow>
         (let r = handle event ctx
          in \<lparr>completes_after = completes_after r, ending = map_ending outcome_of (ending r)\<rparr>))"

section \<open>dispatch\_context.rs\<close>

record DispatchContext =
  dc_tenant_id :: string
  dc_producer_bc :: string
  dc_idempotency_key :: "string option"
  dc_headers :: "json_map option"

definition DispatchContext_new :: "string \<Rightarrow> DispatchContext" where
  "DispatchContext_new tenant_id =
    \<lparr>dc_tenant_id = tenant_id, dc_producer_bc = '''', dc_idempotency_key = None, dc_headers = None\<rparr>"

definition with_producer_bc :: "string \<Rightarrow> DispatchContext \<Rightarrow> DispatchContext" where
  "with_producer_bc bc c = c\<lparr>dc_producer_bc := bc\<rparr>"

definition with_idempotency_key :: "string \<Rightarrow> DispatchContext \<Rightarrow> DispatchContext" where
  "with_idempotency_key key c = c\<lparr>dc_idempotency_key := Some key\<rparr>"

definition with_headers :: "json_map \<Rightarrow> DispatchContext \<Rightarrow> DispatchContext" where
  "with_headers h c = c\<lparr>dc_headers := Some h\<rparr>"

section \<open>envelope.rs and outcome.rs\<close>

record HandlerEnvelope =
  env_event_id :: uuid
  env_handler_id :: string

datatype DispatchOutcome =
    Dispatched uuid nat
  | Duplicate uuid
  | NoHandlers uuid

record OutboxStats =
  pending_deliveries :: nat

section \<open>Interface types of pg\_work\_queue\<close>

text \<open>
  The values the crate exchanges with \<open>pg_work_queue\<close>: what a claimed job carries, the verdict a job
  handler returns (\<open>JobError::retry\<close>, \<open>JobError::retry_in\<close>, \<open>JobError::abort\<close>), and the panic policy.
\<close>

record JobContext =
  jc_attempt :: u32
  jc_max_attempts :: u32
  jc_lease_token :: uuid
  jc_idempotency_key :: uuid

datatype JobError = JobRetry string "duration option" | JobAbort string

datatype PanicPolicy = PanicPolicy_Retry | PanicPolicy_Dead

section \<open>Properties\<close>

text \<open>
  A payload that does not decode never reaches the user's handler; one that decodes is passed on, and every way
  the handler ends is kept, a panic included.
\<close>

lemma handle_erased_decoded:
  "from_slice E payload = Inr event \<Longrightarrow>
    handle_erased E handle payload ctx =
      \<lparr>completes_after = completes_after (handle event ctx), ending = map_ending outcome_of (ending (handle event ctx))\<rparr>"
  by (simp add: handle_erased_def Let_def)

definition sample_event :: "nat DomainEvent" where
  "sample_event = \<lparr>EVENT_TYPE = ''shop.order_created'', aggregate_key = (\<lambda>_. None),
    to_vec = (\<lambda>n. Inr (replicate n 0)),
    from_slice = (\<lambda>b. if b = [] then Inl ''EOF'' else Inr (length b))\<rparr>"

text \<open>
  \<open>retry_at\<close> converts an instant into a delay that reaches exactly that instant, and a time that
  has passed into an immediate retry; it never produces a negative delay or loses the reason.
\<close>

lemma handler_retry_at_delay:
  "\<exists>d. handler_retry_at reason when_at now = Retry reason (Some d) \<and>
       now + int d = max now when_at"
  by (auto simp: handler_retry_at_def)

end
