(* ===== verification/Outbox_Builder.thy ===== *)
theory Outbox_Builder
  imports Outbox_Handler
begin

text \<open>
  The configuration and registration side of the crate: \<^verbatim>\<open>src/src/builder.rs\<close> (handler options, the
  configuration builder with its validation, the outbox builder) and the registry of \<^verbatim>\<open>src/src/registry.rs\<close>.
  A \<open>HashMap\<close> is an association list with distinct keys. \<open>pg_work_queue\<close>'s \<open>BackoffPolicy\<close> is a type variable,
  and the defaults of that crate are arguments of \<open>OutboxConfig_default\<close>.
\<close>

section \<open>Options and configuration\<close>

datatype DecodeStrategy = DecodeStrategy_Retry | DecodeStrategy_Abort

record HandlerOptions =
  opt_handler_timeout :: "duration option"
  opt_concurrency_limit :: "u32 option"

definition HandlerOptions_new :: HandlerOptions where
  "HandlerOptions_new = \<lparr>opt_handler_timeout = None, opt_concurrency_limit = None\<rparr>"

definition options_handler_timeout :: "duration \<Rightarrow> HandlerOptions \<Rightarrow> HandlerOptions" where
  "options_handler_timeout d opts = opts\<lparr>opt_handler_timeout := Some d\<rparr>"

definition options_concurrency_limit :: "u32 \<Rightarrow> HandlerOptions \<Rightarrow> HandlerOptions" where
  "options_concurrency_limit n opts = opts\<lparr>opt_concurrency_limit := Some n\<rparr>"

record 'b OutboxConfig =
  cfg_poll_interval :: duration
  cfg_concurrency :: u32
  cfg_max_attempts :: u32
  cfg_lease_timeout :: duration
  cfg_handler_timeout :: duration
  cfg_retry_backoff :: 'b
  cfg_panic_policy :: PanicPolicy
  cfg_decode_error_strategy :: DecodeStrategy

definition OutboxConfig_default :: "'b \<Rightarrow> PanicPolicy \<Rightarrow> 'b OutboxConfig" where
  "OutboxConfig_default backoff_default panic_default =
    \<lparr>cfg_poll_interval = from_millis 500,
     cfg_concurrency = 16,
     cfg_max_attempts = 5,
     cfg_lease_timeout = from_secs 300,
     cfg_handler_timeout = from_secs 240,
     cfg_retry_backoff = backoff_default,
     cfg_panic_policy = panic_default,
     cfg_decode_error_strategy = DecodeStrategy_Retry\<rparr>"

text \<open>\<open>OutboxConfig::builder()\<close> and the setters of \<open>OutboxConfigBuilder\<close>; the builder is its one field \<open>cfg\<close>.\<close>

definition OutboxConfig_builder :: "'b \<Rightarrow> PanicPolicy \<Rightarrow> 'b OutboxConfig" where
  "OutboxConfig_builder backoff_default panic_default = OutboxConfig_default backoff_default panic_default"

definition set_poll_interval :: "duration \<Rightarrow> 'b OutboxConfig \<Rightarrow> 'b OutboxConfig" where
  "set_poll_interval d c = c\<lparr>cfg_poll_interval := d\<rparr>"

definition set_concurrency :: "u32 \<Rightarrow> 'b OutboxConfig \<Rightarrow> 'b OutboxConfig" where
  "set_concurrency n c = c\<lparr>cfg_concurrency := n\<rparr>"

definition set_max_attempts :: "u32 \<Rightarrow> 'b OutboxConfig \<Rightarrow> 'b OutboxConfig" where
  "set_max_attempts n c = c\<lparr>cfg_max_attempts := n\<rparr>"

definition set_lease_timeout :: "duration \<Rightarrow> 'b OutboxConfig \<Rightarrow> 'b OutboxConfig" where
  "set_lease_timeout d c = c\<lparr>cfg_lease_timeout := d\<rparr>"

definition set_handler_timeout :: "duration \<Rightarrow> 'b OutboxConfig \<Rightarrow> 'b OutboxConfig" where
  "set_handler_timeout d c = c\<lparr>cfg_handler_timeout := d\<rparr>"

definition set_retry_backoff :: "'b \<Rightarrow> 'b OutboxConfig \<Rightarrow> 'b OutboxConfig" where
  "set_retry_backoff p c = c\<lparr>cfg_retry_backoff := p\<rparr>"

definition set_panic_policy :: "PanicPolicy \<Rightarrow> 'b OutboxConfig \<Rightarrow> 'b OutboxConfig" where
  "set_panic_policy p c = c\<lparr>cfg_panic_policy := p\<rparr>"

definition set_decode_error_strategy :: "DecodeStrategy \<Rightarrow> 'b OutboxConfig \<Rightarrow> 'b OutboxConfig" where
  "set_decode_error_strategy st c = c\<lparr>cfg_decode_error_strategy := st\<rparr>"

text \<open>\<open>runtime.rs\<close> owns the constant; the builder validates against it.\<close>

definition HANDLER_CLEANUP_BUDGET :: duration where
  "HANDLER_CLEANUP_BUDGET = from_millis 200"

definition handler_timeout_floor_check :: "duration \<Rightarrow> string \<Rightarrow> (unit, BuildError) rresult" where
  "handler_timeout_floor_check d label =
    (let min' = HANDLER_CLEANUP_BUDGET * 2
     in if d \<le> min' then
          Inl (ConfigInvalid (label @ '': handler_timeout '' @ debug_duration d @ '' must be > ''
            @ debug_duration min' @ '' (2'' @ times_sign @ '' HANDLER_CLEANUP_BUDGET) ''
            @ ''so mark_*_fenced has headroom before pgwq'' @ CHR 0x27 # ''s outer cancellation''))
        else Inr ())"

definition OutboxConfig_build :: "'b OutboxConfig \<Rightarrow> ('b OutboxConfig, BuildError) rresult" where
  "OutboxConfig_build c =
    (if cfg_concurrency c = 0 then Inl (ConfigInvalid ''concurrency must be >= 1'')
     else if cfg_max_attempts c = 0 then Inl (ConfigInvalid ''max_attempts must be >= 1'')
     else if cfg_handler_timeout c \<ge> cfg_lease_timeout c
       then Inl (ConfigInvalid ''handler_timeout must be < lease_timeout'')
     else case handler_timeout_floor_check (cfg_handler_timeout c) ''OutboxConfig'' of
       Inl e \<Rightarrow> Inl e
     | Inr _ \<Rightarrow> Inr c)"

section \<open>The registry\<close>

record RegisteredHandler =
  rh_handler :: ErasedHandler
  rh_handler_timeout :: "duration option"
  rh_concurrency_limit :: "u32 option"

record Registry =
  handlers :: "(string \<times> RegisteredHandler) list"
  by_type :: "(string \<times> string list) list"

definition Registry_new :: Registry where
  "Registry_new = \<lparr>handlers = [], by_type = []\<rparr>"

definition lookup :: "Registry \<Rightarrow> string \<Rightarrow> RegisteredHandler option" where
  "lookup r handler_id = map_of (handlers r) handler_id"

definition handler_ids_for :: "Registry \<Rightarrow> string \<Rightarrow> string list" where
  "handler_ids_for r event_type =
    (case map_of (by_type r) event_type of None \<Rightarrow> [] | Some ids \<Rightarrow> ids)"

section \<open>The outbox builder\<close>

record PendingHandler =
  pend_event_type :: string
  pend_handler_id :: string
  pend_handler :: ErasedHandler
  pend_handler_timeout :: "duration option"
  pend_concurrency_limit :: "u32 option"

text \<open>A \<open>PgPool\<close> is what the crate reads of it: its \<open>max_connections\<close>.\<close>

record 'b OutboxBuilder =
  bld_max_connections :: u32
  bld_config :: "'b OutboxConfig option"
  bld_pending :: "PendingHandler list"
  bld_allow_no_handlers :: bool

record 'b Outbox =
  ob_max_connections :: u32
  ob_config :: "'b OutboxConfig"
  ob_registry :: Registry
  ob_allow_no_handlers :: bool
  ob_started :: bool

definition OutboxBuilder_new :: "u32 \<Rightarrow> 'b OutboxBuilder" where
  "OutboxBuilder_new pool =
    \<lparr>bld_max_connections = pool, bld_config = None, bld_pending = [], bld_allow_no_handlers = False\<rparr>"

definition builder_config :: "'b OutboxConfig \<Rightarrow> 'b OutboxBuilder \<Rightarrow> 'b OutboxBuilder" where
  "builder_config cfg b = b\<lparr>bld_config := Some cfg\<rparr>"

definition register_handler ::
  "'e DomainEvent \<Rightarrow> string \<Rightarrow> ('e \<Rightarrow> HandlerContext \<Rightarrow> (unit, HandlerError) rresult run) \<Rightarrow>
   HandlerOptions \<Rightarrow> 'b OutboxBuilder \<Rightarrow> 'b OutboxBuilder"
where
  "register_handler E handler_id handle opts b =
    b\<lparr>bld_pending := bld_pending b @
      [\<lparr>pend_event_type = EVENT_TYPE E, pend_handler_id = handler_id,
        pend_handler = handle_erased E handle,
        pend_handler_timeout = opt_handler_timeout opts,
        pend_concurrency_limit = opt_concurrency_limit opts\<rparr>]\<rparr>"

definition allow_no_handlers :: "bool \<Rightarrow> 'b OutboxBuilder \<Rightarrow> 'b OutboxBuilder" where
  "allow_no_handlers allow b = b\<lparr>bld_allow_no_handlers := allow\<rparr>"

definition Outbox_new :: "u32 \<Rightarrow> 'b OutboxConfig \<Rightarrow> Registry \<Rightarrow> bool \<Rightarrow> 'b Outbox" where
  "Outbox_new pool cfg reg allow =
    \<lparr>ob_max_connections = pool, ob_config = cfg, ob_registry = reg, ob_allow_no_handlers = allow,
     ob_started = False\<rparr>"

text \<open>\<open>by_type.entry(t).or_default().push(id)\<close>.\<close>

fun push_by_type :: "string \<Rightarrow> string \<Rightarrow> (string \<times> string list) list \<Rightarrow> (string \<times> string list) list"
where
  "push_by_type t hid [] = [(t, [hid])]"
| "push_by_type t hid ((u, ids) # rest) =
    (if u = t then (u, ids @ [hid]) # rest else (u, ids) # push_by_type t hid rest)"

definition timeout_above_global_message :: "string \<Rightarrow> duration \<Rightarrow> duration \<Rightarrow> string" where
  "timeout_above_global_message handler_id ht global =
    ''handler '' @ quoted handler_id @ '': a per-handler handler_timeout may only match or tighten ''
    @ ''the global budget, never exceed it '' @ em_dash @ '' '' @ debug_duration ht
    @ '' is larger than the global OutboxConfig handler_timeout '' @ debug_duration global
    @ '' (which is the default 240s when .config(...) was not called). The global value is the ''
    @ ''hard ceiling: pg_work_queue'' @ CHR 0x27 # ''s worker-wide outer cancellation enforces it. ''
    @ ''Fix: lower this override, or raise the global handler_timeout.''"

text \<open>The body of the validation loop, up to the insertions.\<close>

definition check_entry ::
  "'b OutboxConfig \<Rightarrow> (string \<times> RegisteredHandler) list \<Rightarrow> PendingHandler \<Rightarrow> (unit, BuildError) rresult"
where
  "check_entry cfg hs entry =
    (if pend_handler_id entry = [] then Inl HandlerIdEmpty
     else if length (pend_handler_id entry) > MAX_HANDLER_ID_BYTES
       then Inl (HandlerIdTooLong (length (pend_handler_id entry)) MAX_HANDLER_ID_BYTES)
     else if map_of hs (pend_handler_id entry) \<noteq> None
       then Inl (DuplicateHandlerId (pend_event_type entry) (pend_handler_id entry))
     else case
       (case pend_handler_timeout entry of
          None \<Rightarrow> Inr ()
        | Some ht \<Rightarrow>
            (case handler_timeout_floor_check ht (''handler '' @ quoted (pend_handler_id entry)) of
               Inl e \<Rightarrow> Inl e
             | Inr _ \<Rightarrow>
                 if ht > cfg_handler_timeout cfg
                 then Inl (ConfigInvalid (timeout_above_global_message (pend_handler_id entry) ht
                   (cfg_handler_timeout cfg)))
                 else Inr ())) of
         Inl e \<Rightarrow> Inl e
       | Inr _ \<Rightarrow>
           (case pend_concurrency_limit entry of
              None \<Rightarrow> Inr ()
            | Some limit \<Rightarrow>
                if limit = 0 \<or> int (unat limit) > i32_max
                then Inl (ConfigInvalid (''handler '' @ quoted (pend_handler_id entry)
                  @ '': concurrency_limit must be in 1..=2147483647, got '' @ show_nat (unat limit)))
                else Inr ()))"

definition registered :: "PendingHandler \<Rightarrow> RegisteredHandler" where
  "registered entry =
    \<lparr>rh_handler = pend_handler entry, rh_handler_timeout = pend_handler_timeout entry,
     rh_concurrency_limit = pend_concurrency_limit entry\<rparr>"

text \<open>The loop \<open>for entry in self.pending\<close>, with the two maps it fills.\<close>

fun build_registry ::
  "'b OutboxConfig \<Rightarrow> Registry \<Rightarrow> PendingHandler list \<Rightarrow> (Registry, BuildError) rresult"
where
  "build_registry cfg r [] = Inr r"
| "build_registry cfg r (entry # rest) =
    (case check_entry cfg (handlers r) entry of
       Inl e \<Rightarrow> Inl e
     | Inr _ \<Rightarrow>
         build_registry cfg
           \<lparr>handlers = handlers r @ [(pend_handler_id entry, registered entry)],
            by_type = push_by_type (pend_event_type entry) (pend_handler_id entry) (by_type r)\<rparr>
           rest)"

definition OutboxBuilder_build ::
  "'b \<Rightarrow> PanicPolicy \<Rightarrow> 'b OutboxBuilder \<Rightarrow> ('b Outbox, BuildError) rresult"
where
  "OutboxBuilder_build backoff_default panic_default b =
    (let config = (case bld_config b of Some c \<Rightarrow> c
                   | None \<Rightarrow> OutboxConfig_default backoff_default panic_default)
     in case build_registry config Registry_new (bld_pending b) of
          Inl e \<Rightarrow> Inl e
        | Inr reg \<Rightarrow> Inr (Outbox_new (bld_max_connections b) config reg (bld_allow_no_handlers b)))"

section \<open>Validation\<close>

text \<open>What \<open>OutboxConfig_build\<close> accepts.\<close>

definition config_valid :: "'b OutboxConfig \<Rightarrow> bool" where
  "config_valid c \<longleftrightarrow> cfg_concurrency c \<noteq> 0 \<and> cfg_max_attempts c \<noteq> 0 \<and>
    cfg_handler_timeout c < cfg_lease_timeout c \<and> 2 * HANDLER_CLEANUP_BUDGET < cfg_handler_timeout c"

text \<open>What one registration must satisfy by itself.\<close>

definition entry_valid :: "'b OutboxConfig \<Rightarrow> PendingHandler \<Rightarrow> bool" where
  "entry_valid cfg e \<longleftrightarrow>
    pend_handler_id e \<noteq> [] \<and> length (pend_handler_id e) \<le> MAX_HANDLER_ID_BYTES \<and>
    (\<forall>ht. pend_handler_timeout e = Some ht \<longrightarrow>
       2 * HANDLER_CLEANUP_BUDGET < ht \<and> ht \<le> cfg_handler_timeout cfg) \<and>
    (\<forall>n. pend_concurrency_limit e = Some n \<longrightarrow> n \<noteq> 0 \<and> int (unat n) \<le> i32_max)"

lemma floor_check_ok_iff:
  "handler_timeout_floor_check d label = Inr () \<longleftrightarrow> 2 * HANDLER_CLEANUP_BUDGET < d"
  by (auto simp: handler_timeout_floor_check_def Let_def)

lemma floor_check_cases:
  obtains (ok) "2 * HANDLER_CLEANUP_BUDGET < d" "handler_timeout_floor_check d label = Inr ()"
  | (bad) e where "d \<le> 2 * HANDLER_CLEANUP_BUDGET" "handler_timeout_floor_check d label = Inl e"
  by (cases "2 * HANDLER_CLEANUP_BUDGET < d")
    (auto simp: handler_timeout_floor_check_def Let_def)

lemma config_build_iff:
  "OutboxConfig_build c = Inr c' \<longleftrightarrow> config_valid c \<and> c' = c"
  by (cases "cfg_handler_timeout c" "''OutboxConfig''" rule: floor_check_cases)
    (auto simp: OutboxConfig_build_def config_valid_def)

lemma config_valid_default: "config_valid (OutboxConfig_default b p)"
  by (simp add: config_valid_def OutboxConfig_default_def HANDLER_CLEANUP_BUDGET_def
      from_millis_def from_secs_def)

lemma check_entry_ok_iff:
  "check_entry cfg hs e = Inr () \<longleftrightarrow>
   entry_valid cfg e \<and> pend_handler_id e \<notin> fst ` set hs"
proof (cases "pend_handler_timeout e")
  case None
  then show ?thesis
    by (cases "pend_concurrency_limit e")
      (auto simp: check_entry_def entry_valid_def map_of_eq_None_iff)
next
  case (Some ht)
  show ?thesis
    by (cases ht "''handler '' @ quoted (pend_handler_id e)" rule: floor_check_cases;
        cases "pend_concurrency_limit e")
      (auto simp: check_entry_def entry_valid_def map_of_eq_None_iff Some)
qed

section \<open>The registry that a successful build produces\<close>

definition add_entry :: "PendingHandler \<Rightarrow> Registry \<Rightarrow> Registry" where
  "add_entry e r =
    \<lparr>handlers = handlers r @ [(pend_handler_id e, registered e)],
     by_type = push_by_type (pend_event_type e) (pend_handler_id e) (by_type r)\<rparr>"

lemma handlers_add_entry [simp]:
  "handlers (add_entry e r) = handlers r @ [(pend_handler_id e, registered e)]"
  by (simp add: add_entry_def)

lemma handlers_fold_add_entry:
  "handlers (fold add_entry es r) = handlers r @ map (\<lambda>e. (pend_handler_id e, registered e)) es"
  by (induction es arbitrary: r) auto

lemma map_of_push_by_type:
  "map_of (push_by_type t h bt) =
    (map_of bt)(t \<mapsto> (case map_of bt t of None \<Rightarrow> [] | Some ids \<Rightarrow> ids) @ [h])"
  by (induction t h bt rule: push_by_type.induct) auto

lemma handler_ids_for_add_entry:
  "handler_ids_for (add_entry e r) t =
    handler_ids_for r t @ (if pend_event_type e = t then [pend_handler_id e] else [])"
  by (simp add: handler_ids_for_def add_entry_def map_of_push_by_type)

lemma handler_ids_for_fold:
  "handler_ids_for (fold add_entry es r) t =
    handler_ids_for r t @ map pend_handler_id (filter (\<lambda>e. pend_event_type e = t) es)"
  by (induction es arbitrary: r) (auto simp: handler_ids_for_add_entry)

lemma build_registry_ok_iff:
  "build_registry cfg r es = Inr r' \<longleftrightarrow>
    list_all (entry_valid cfg) es \<and> distinct (map pend_handler_id es) \<and>
    set (map pend_handler_id es) \<inter> fst ` set (handlers r) = {} \<and> r' = fold add_entry es r"
proof (induction es arbitrary: r)
  case Nil
  then show ?case by auto
next
  case (Cons e es)
  show ?case
  proof (cases "check_entry cfg (handlers r) e")
    case (Inl err)
    then have "\<not> (entry_valid cfg e \<and> pend_handler_id e \<notin> fst ` set (handlers r))"
      using check_entry_ok_iff [of cfg "handlers r" e] by auto
    with Inl show ?thesis by auto
  next
    case (Inr u)
    then have "entry_valid cfg e \<and> pend_handler_id e \<notin> fst ` set (handlers r)"
      using check_entry_ok_iff [of cfg "handlers r" e] by simp
    with Inr Cons.IH [of "add_entry e r"] show ?thesis
      by (auto simp: add_entry_def [symmetric])
  qed
qed

lemma Registry_new_simps [simp]:
  "handlers Registry_new = []" "by_type Registry_new = []" "handler_ids_for Registry_new t = []"
  by (simp_all add: Registry_new_def handler_ids_for_def)

lemma OutboxBuilder_build_ok_iff:
  "OutboxBuilder_build bd pd b = Inr ob \<longleftrightarrow>
    (let config = (case bld_config b of Some c \<Rightarrow> c | None \<Rightarrow> OutboxConfig_default bd pd)
     in list_all (entry_valid config) (bld_pending b) \<and> distinct (map pend_handler_id (bld_pending b)) \<and>
        ob = Outbox_new (bld_max_connections b) config
               (fold add_entry (bld_pending b) Registry_new) (bld_allow_no_handlers b))"
proof -
  define config where
    "config = (case bld_config b of Some c \<Rightarrow> c | None \<Rightarrow> OutboxConfig_default bd pd)"
  let ?r = "fold add_entry (bld_pending b) Registry_new"
  let ?good = "list_all (entry_valid config) (bld_pending b) \<and> distinct (map pend_handler_id (bld_pending b))"
  have iff: "build_registry config Registry_new (bld_pending b) = Inr r' \<longleftrightarrow> ?good \<and> r' = ?r" for r'
    by (simp add: build_registry_ok_iff)
  show ?thesis
  proof (cases "build_registry config Registry_new (bld_pending b)")
    case (Inl e)
    with iff have "\<not> ?good" by auto
    with Inl show ?thesis
      by (auto simp: OutboxBuilder_build_def Let_def config_def [symmetric])
  next
    case (Inr reg)
    with iff [of reg] have "?good" and "reg = ?r" by auto
    with Inr show ?thesis
      by (auto simp: OutboxBuilder_build_def Let_def config_def [symmetric])
  qed
qed

lemma build_registry_append:
  "build_registry cfg r (es @ fs) =
    (case build_registry cfg r es of Inl e \<Rightarrow> Inl e | Inr r' \<Rightarrow> build_registry cfg r' fs)"
  by (induction es arbitrary: r) (auto split: sum.splits)

section \<open>Interface: the registry as the dispatcher and the worker see it\<close>

text \<open>
  The dispatcher asks for the handler ids of an event type and looks each of them up; the worker
  looks the id of an envelope up. What the builder promises them: ids are registered, listed once,
  under one event type only, and within the byte limits of the schema.
\<close>

locale handler_registry =
  fixes find_handler :: "'r \<Rightarrow> string \<Rightarrow> 'h option"
    and ids_for :: "'r \<Rightarrow> string \<Rightarrow> string list"
    and invar :: "'r \<Rightarrow> bool"
  assumes ids_registered: "invar r \<Longrightarrow> h \<in> set (ids_for r t) \<Longrightarrow> find_handler r h \<noteq> None"
    and registered_listed: "invar r \<Longrightarrow> find_handler r h \<noteq> None \<Longrightarrow> \<exists>t. h \<in> set (ids_for r t)"
    and ids_distinct: "invar r \<Longrightarrow> distinct (ids_for r t)"
    and ids_one_type: "invar r \<Longrightarrow> h \<in> set (ids_for r t) \<Longrightarrow> h \<in> set (ids_for r u) \<Longrightarrow> t = u"
    and id_bytes: "invar r \<Longrightarrow> find_handler r h \<noteq> None \<Longrightarrow> h \<noteq> [] \<and> length h \<le> MAX_HANDLER_ID_BYTES"
begin

lemma ids_bytes: "invar r \<Longrightarrow> h \<in> set (ids_for r t) \<Longrightarrow> h \<noteq> [] \<and> length h \<le> MAX_HANDLER_ID_BYTES"
  using id_bytes ids_registered by blast

lemma registered_one_type: "invar r \<Longrightarrow> find_handler r h \<noteq> None \<Longrightarrow> \<exists>!t. h \<in> set (ids_for r t)"
  using registered_listed ids_one_type by blast

lemma distinct_pairs:
  assumes "invar r"
  shows "distinct (map (\<lambda>h. (e, h)) (ids_for r t))"
  using ids_distinct [OF assms, of t] by (simp add: distinct_map inj_on_def)

end

definition registry_wf :: "Registry \<Rightarrow> bool" where
  "registry_wf r \<longleftrightarrow> distinct (map fst (handlers r)) \<and>
    distinct (map fst (by_type r)) \<and> distinct (concat (map snd (by_type r))) \<and>
    set (concat (map snd (by_type r))) = fst ` set (handlers r) \<and>
    (\<forall>h \<in> fst ` set (handlers r). h \<noteq> [] \<and> length h \<le> MAX_HANDLER_ID_BYTES)"

lemma fst_push_by_type:
  "fst ` set (push_by_type t h bt) = insert t (fst ` set bt)"
  by (induction t h bt rule: push_by_type.induct) auto

lemma distinct_push_by_type:
  "distinct (map fst bt) \<Longrightarrow> distinct (map fst (push_by_type t h bt))"
proof (induction t h bt rule: push_by_type.induct)
  case (2 t h u ids rest)
  then show ?case
    using fst_push_by_type [of t h rest] by auto
qed simp

lemma set_concat_push_by_type:
  "set (concat (map snd (push_by_type t h bt))) = insert h (set (concat (map snd bt)))"
  by (induction t h bt rule: push_by_type.induct) auto

lemma distinct_concat_push_by_type:
  "distinct (concat (map snd bt)) \<Longrightarrow> h \<notin> set (concat (map snd bt)) \<Longrightarrow>
   distinct (concat (map snd (push_by_type t h bt)))"
proof (induction t h bt rule: push_by_type.induct)
  case (2 t h u ids rest)
  then show ?case
    using set_concat_push_by_type [of t h rest] by auto
qed simp

lemma registry_wf_add_entry:
  assumes "registry_wf r" and "entry_valid cfg e" and "pend_handler_id e \<notin> fst ` set (handlers r)"
  shows "registry_wf (add_entry e r)"
  using assms
  by (simp add: registry_wf_def add_entry_def entry_valid_def distinct_push_by_type
      distinct_concat_push_by_type set_concat_push_by_type del: set_concat)

lemma registry_wf_fold:
  "registry_wf r \<Longrightarrow> list_all (entry_valid cfg) es \<Longrightarrow> distinct (map pend_handler_id es) \<Longrightarrow>
   set (map pend_handler_id es) \<inter> fst ` set (handlers r) = {} \<Longrightarrow> registry_wf (fold add_entry es r)"
proof (induction es arbitrary: r)
  case (Cons e es)
  then have "registry_wf (add_entry e r)"
    by (auto intro: registry_wf_add_entry)
  then show ?case using Cons by auto
qed simp

lemma registry_wf_new: "registry_wf Registry_new"
  by (simp add: registry_wf_def)

lemma registry_wf_built:
  "OutboxBuilder_build bd pd b = Inr ob \<Longrightarrow> registry_wf (ob_registry ob)"
  by (auto simp: OutboxBuilder_build_ok_iff Let_def Outbox_new_def intro!: registry_wf_fold registry_wf_new)

lemma handler_ids_for_in:
  "registry_wf r \<Longrightarrow> h \<in> set (handler_ids_for r t) \<longleftrightarrow> (\<exists>ids. (t, ids) \<in> set (by_type r) \<and> h \<in> set ids)"
  by (auto simp: handler_ids_for_def registry_wf_def split: option.splits dest: map_of_SomeD)

lemma distinct_concat_unique:
  "distinct (concat (map snd bt)) \<Longrightarrow> (t, ids) \<in> set bt \<Longrightarrow> (u, ids') \<in> set bt \<Longrightarrow>
   h \<in> set ids \<Longrightarrow> h \<in> set ids' \<Longrightarrow> t = u"
  by (induction bt) force+

lemma lookup_Some_iff:
  assumes "registry_wf r"
  shows "lookup r h \<noteq> None \<longleftrightarrow> (\<exists>t ids. (t, ids) \<in> set (by_type r) \<and> h \<in> set ids)"
proof -
  have "lookup r h \<noteq> None \<longleftrightarrow> h \<in> set (concat (map snd (by_type r)))"
    using assms by (simp add: registry_wf_def lookup_def map_of_eq_None_iff del: set_concat)
  then show ?thesis by force
qed

interpretation reg: handler_registry lookup handler_ids_for registry_wf
proof
  fix r h t u
  assume wf: "registry_wf r"
  show "h \<in> set (handler_ids_for r t) \<Longrightarrow> lookup r h \<noteq> None"
    unfolding handler_ids_for_in [OF wf] lookup_Some_iff [OF wf] by blast
  show "lookup r h \<noteq> None \<Longrightarrow> \<exists>t. h \<in> set (handler_ids_for r t)"
    unfolding handler_ids_for_in [OF wf] lookup_Some_iff [OF wf] by blast
  show "distinct (handler_ids_for r t)"
  proof (cases "map_of (by_type r) t")
    case (Some ids)
    then have "(t, ids) \<in> set (by_type r)" by (rule map_of_SomeD)
    then have "ids \<in> set (map snd (by_type r))" by force
    moreover have "distinct (concat (map snd (by_type r)))" using wf by (simp add: registry_wf_def)
    ultimately show ?thesis using Some by (simp add: handler_ids_for_def distinct_concat_iff)
  qed (simp add: handler_ids_for_def)
  show "t = u" if "h \<in> set (handler_ids_for r t)" "h \<in> set (handler_ids_for r u)"
  proof -
    from that obtain ids ids' where "(t, ids) \<in> set (by_type r)" "h \<in> set ids"
      "(u, ids') \<in> set (by_type r)" "h \<in> set ids'"
      unfolding handler_ids_for_in [OF wf] by blast
    moreover have "distinct (concat (map snd (by_type r)))" using wf by (simp add: registry_wf_def)
    ultimately show "t = u" by (rule_tac distinct_concat_unique)
  qed
  show "lookup r h \<noteq> None \<Longrightarrow> h \<noteq> [] \<and> length h \<le> MAX_HANDLER_ID_BYTES"
    using wf unfolding lookup_def registry_wf_def map_of_eq_None_iff by blast
qed

section \<open>Properties of the builders\<close>

text \<open>
  \<open>OutboxConfigBuilder::build\<close> accepts a configuration exactly when concurrency and attempts are
  positive, the handler timeout is below the lease timeout and above twice the cleanup budget;
  it then returns the configuration unchanged, and the defaults are accepted.
\<close>

lemma config_build_validates:
  "(\<exists>c'. OutboxConfig_build c = Inr c') =
     (0 < unat (cfg_concurrency c) \<and> 0 < unat (cfg_max_attempts c) \<and>
      cfg_handler_timeout c < cfg_lease_timeout c \<and> from_millis 400 < cfg_handler_timeout c) \<and>
   (\<forall>c'. OutboxConfig_build c = Inr c' \<longrightarrow> c' = c) \<and>
   OutboxConfig_build (OutboxConfig_default bd pd) = Inr (OutboxConfig_default bd pd)"
  using config_valid_default [of bd pd]
  by (auto simp: config_build_iff config_valid_def HANDLER_CLEANUP_BUDGET_def from_millis_def
      unat_gt_0)

definition builder_effective_config :: "'b \<Rightarrow> PanicPolicy \<Rightarrow> 'b OutboxBuilder \<Rightarrow> 'b OutboxConfig" where
  "builder_effective_config bd pd b =
    (case bld_config b of Some c \<Rightarrow> c | None \<Rightarrow> OutboxConfig_default bd pd)"

lemma outbox_build_ok_routes:
  assumes "OutboxBuilder_build bd pd b = Inr ob"
  shows "list_all (entry_valid (ob_config ob)) (bld_pending b) \<and>
    distinct (map pend_handler_id (bld_pending b)) \<and>
    (\<forall>t. handler_ids_for (ob_registry ob) t =
      map pend_handler_id (filter (\<lambda>e. pend_event_type e = t) (bld_pending b))) \<and>
    (\<forall>e \<in> set (bld_pending b). lookup (ob_registry ob) (pend_handler_id e) = Some (registered e)) \<and>
    (\<forall>h. lookup (ob_registry ob) h \<noteq> None \<longrightarrow> h \<in> pend_handler_id ` set (bld_pending b)) \<and>
    registry_wf (ob_registry ob) \<and> \<not> ob_started ob"
proof -
  define config where
    "config = (case bld_config b of Some c \<Rightarrow> c | None \<Rightarrow> OutboxConfig_default bd pd)"
  from assms have v: "list_all (entry_valid config) (bld_pending b)"
    and d: "distinct (map pend_handler_id (bld_pending b))"
    and ob: "ob = Outbox_new (bld_max_connections b) config
      (fold add_entry (bld_pending b) Registry_new) (bld_allow_no_handlers b)"
    by (simp_all add: OutboxBuilder_build_ok_iff Let_def config_def [symmetric])
  let ?hs = "map (\<lambda>e. (pend_handler_id e, registered e)) (bld_pending b)"
  have hs: "handlers (ob_registry ob) = ?hs"
    by (simp add: ob Outbox_new_def handlers_fold_add_entry)
  have dk: "distinct (map fst ?hs)" using d by (simp add: comp_def)
  have "\<forall>e \<in> set (bld_pending b). lookup (ob_registry ob) (pend_handler_id e) = Some (registered e)"
    unfolding lookup_def hs using dk by (auto intro: map_of_is_SomeI)
  moreover have "\<forall>h. lookup (ob_registry ob) h \<noteq> None \<longrightarrow> h \<in> pend_handler_id ` set (bld_pending b)"
    unfolding lookup_def hs by (force dest: map_of_SomeD)
  ultimately show ?thesis
    using v d registry_wf_built [OF assms] ob
    by (simp add: Outbox_new_def handler_ids_for_fold)
qed

text \<open>
  (C33) \<open>OutboxBuilder::build\<close> succeeds exactly when every registration is valid by itself (id of 1 to 128
  bytes, per-handler timeout above 400 ms and at most the global one, concurrency limit in
  1 to \<open>i32::MAX\<close>) and no two registrations share an id; the registry then routes each event type
  to its handlers in registration order and finds every registered handler with its options.
\<close>

theorem outbox_build_routes:
  "((\<exists>ob. OutboxBuilder_build bd pd b = Inr ob) \<longleftrightarrow>
      list_all (entry_valid (builder_effective_config bd pd b)) (bld_pending b) \<and>
      distinct (map pend_handler_id (bld_pending b))) \<and>
   (\<forall>ob. OutboxBuilder_build bd pd b = Inr ob \<longrightarrow>
      ob_config ob = builder_effective_config bd pd b \<and>
      (\<forall>t. handler_ids_for (ob_registry ob) t =
        map pend_handler_id (filter (\<lambda>e. pend_event_type e = t) (bld_pending b))) \<and>
      (\<forall>e \<in> set (bld_pending b). lookup (ob_registry ob) (pend_handler_id e) = Some (registered e)) \<and>
      (\<forall>h. lookup (ob_registry ob) h \<noteq> None \<longrightarrow> h \<in> pend_handler_id ` set (bld_pending b)) \<and>
      registry_wf (ob_registry ob) \<and> \<not> ob_started ob)"
proof -
  have "ob_config ob = builder_effective_config bd pd b" if "OutboxBuilder_build bd pd b = Inr ob" for ob
    using that by (simp add: OutboxBuilder_build_ok_iff Let_def builder_effective_config_def Outbox_new_def)
  moreover have "(\<exists>ob. OutboxBuilder_build bd pd b = Inr ob) \<longleftrightarrow>
      list_all (entry_valid (builder_effective_config bd pd b)) (bld_pending b) \<and>
      distinct (map pend_handler_id (bld_pending b))"
    by (simp add: OutboxBuilder_build_ok_iff Let_def builder_effective_config_def)
  ultimately show ?thesis
    by (simp add: outbox_build_ok_routes)
qed

definition sample_pending :: "string \<Rightarrow> string \<Rightarrow> PendingHandler" where
  "sample_pending t h = \<lparr>pend_event_type = t, pend_handler_id = h,
    pend_handler = (\<lambda>_ _. \<lparr>completes_after = Some 0, ending = Returned OutcomeOk\<rparr>),
    pend_handler_timeout = None, pend_concurrency_limit = None\<rparr>"

definition sample_builder :: "unit OutboxBuilder" where
  "sample_builder = \<lparr>bld_max_connections = 50, bld_config = None,
    bld_pending = [sample_pending ''order'' ''audit'', sample_pending ''user'' ''mail'',
      sample_pending ''order'' ''bill''],
    bld_allow_no_handlers = False\<rparr>"

theorem outbox_build_routes_witness:
  "\<exists>ob. OutboxBuilder_build () PanicPolicy_Retry sample_builder = Inr ob \<and>
     handler_ids_for (ob_registry ob) ''order'' = [''audit'', ''bill''] \<and>
     handler_ids_for (ob_registry ob) ''gone'' = []"
proof -
  have "list_all (entry_valid (builder_effective_config () PanicPolicy_Retry sample_builder))
      (bld_pending sample_builder) \<and> distinct (map pend_handler_id (bld_pending sample_builder))"
    by (simp add: sample_builder_def sample_pending_def entry_valid_def limit_defs)
  then obtain ob where ob: "OutboxBuilder_build () PanicPolicy_Retry sample_builder = Inr ob"
    using outbox_build_routes [of "()" PanicPolicy_Retry sample_builder] by blast
  with outbox_build_routes [of "()" PanicPolicy_Retry sample_builder] show ?thesis
    by (simp add: sample_builder_def sample_pending_def)
qed

text \<open>
  (C37) Handler ids are unique across the whole registry, not per event type: a second registration with
  an id already taken is refused with \<open>DuplicateHandlerId\<close> whatever its event type is, and the error
  names the event type of the refused registration, not the one that holds the id.
\<close>

theorem duplicate_handler_id_any_type:
  assumes "build_registry cfg Registry_new pre = Inr r" and "first \<in> set pre"
    and "pend_handler_id e = pend_handler_id first"
  shows "build_registry cfg Registry_new (pre @ e # post) =
    Inl (DuplicateHandlerId (pend_event_type e) (pend_handler_id first))"
proof -
  from assms(1) have "list_all (entry_valid cfg) pre" and r: "r = fold add_entry pre Registry_new"
    by (simp_all add: build_registry_ok_iff)
  with assms(2) have "entry_valid cfg first" by (auto simp: list_all_iff)
  moreover have "pend_handler_id first \<in> fst ` set (handlers r)"
    using assms(2) by (force simp: r handlers_fold_add_entry)
  ultimately have "check_entry cfg (handlers r) e =
      Inl (DuplicateHandlerId (pend_event_type e) (pend_handler_id first))"
    using assms(3) by (simp add: check_entry_def entry_valid_def map_of_eq_None_iff not_less)
  with assms(1) show ?thesis by (simp add: build_registry_append)
qed

theorem duplicate_handler_id_any_type_witness:
  "build_registry (OutboxConfig_default () PanicPolicy_Retry) Registry_new
     ([sample_pending ''order'' ''audit''] @ sample_pending ''user'' ''audit'' # []) =
   Inl (DuplicateHandlerId ''user'' ''audit'')"
proof -
  have "build_registry (OutboxConfig_default () PanicPolicy_Retry) Registry_new
      [sample_pending ''order'' ''audit''] =
    Inr (fold add_entry [sample_pending ''order'' ''audit''] Registry_new)"
    by (simp add: build_registry_ok_iff entry_valid_def sample_pending_def limit_defs
        del: build_registry.simps)
  from duplicate_handler_id_any_type [OF this, of "sample_pending ''order'' ''audit''"
      "sample_pending ''user'' ''audit''" "[]"]
  show ?thesis by (simp add: sample_pending_def)
qed

definition sample_outbox :: "unit Outbox" where
  "sample_outbox = Outbox_new 50 (OutboxConfig_default () PanicPolicy_Retry)
    (fold add_entry (bld_pending sample_builder) Registry_new) False"

lemma sample_outbox_built: "OutboxBuilder_build () PanicPolicy_Retry sample_builder = Inr sample_outbox"
  by (simp add: OutboxBuilder_build_ok_iff Let_def sample_outbox_def sample_builder_def
      sample_pending_def entry_valid_def limit_defs)

end
