(* ===== verification/Outbox_Schema.thy ===== *)
theory Outbox_Schema
  imports Outbox_Builder "HOL-Library.Char_ord" "HOL-Library.List_Lexorder"
begin

text \<open>
  The database side of the crate: the tables, constraints and triggers of the migration, the delivery
  status of \<^verbatim>\<open>src/src/history.rs\<close>, and how a statement executes. A table is the list of its rows. A
  statement either fails, leaving the tables as they were, or yields a value and the new tables; a
  fault is what the connection may do to it. Postgres' \<open>jsonb\<close> input and output are parameters.
\<close>

section \<open>Delivery status\<close>

datatype DeliveryStatus = Queued | Running | AwaitingRetry | Sent | Skipped | Dead

fun as_str :: "DeliveryStatus \<Rightarrow> string" where
  "as_str Queued = ''queued''"
| "as_str Running = ''running''"
| "as_str AwaitingRetry = ''awaiting_retry''"
| "as_str Sent = ''sent''"
| "as_str Skipped = ''skipped''"
| "as_str Dead = ''dead''"

definition DeliveryStatus_ALL :: "DeliveryStatus list" where
  "DeliveryStatus_ALL = [Queued, Running, AwaitingRetry, Sent, Skipped, Dead]"

text \<open>The SQL literals \<open>('sent','dead','skipped')\<close> and \<open>('queued','running','awaiting_retry')\<close>.\<close>

definition terminal_status :: "DeliveryStatus \<Rightarrow> bool" where
  "terminal_status st \<longleftrightarrow> st \<in> {Sent, Dead, Skipped}"

definition active_status :: "DeliveryStatus \<Rightarrow> bool" where
  "active_status st \<longleftrightarrow> st \<in> {Queued, Running, AwaitingRetry}"

lemma active_status_iff: "active_status st \<longleftrightarrow> \<not> terminal_status st"
  by (cases st) (auto simp: active_status_def terminal_status_def)

lemma terminal_status_simps [simp]:
  "terminal_status Sent" "terminal_status Dead" "terminal_status Skipped"
  "\<not> terminal_status Queued" "\<not> terminal_status Running" "\<not> terminal_status AwaitingRetry"
  by (simp_all add: terminal_status_def)

section \<open>Tables\<close>

record event_row =
  ev_id :: uuid
  ev_event_type :: string
  ev_producer_bc :: string
  ev_tenant_id :: string
  ev_aggregate_key :: "string option"
  ev_payload :: bytes
  ev_headers :: json
  ev_created_at :: timestamp

record dispatch_key_row =
  dk_tenant_id :: string
  dk_idempotency_key :: string
  dk_event_id :: uuid
  dk_created_at :: timestamp

record delivery_row =
  hd_id :: nat
  hd_event_id :: uuid
  hd_handler_id :: string
  hd_status :: DeliveryStatus
  hd_attempts :: int
  hd_last_error :: "string option"
  hd_lease_token :: "uuid option"
  hd_first_attempted_at :: "timestamp option"
  hd_last_attempted_at :: "timestamp option"
  hd_finished_at :: "timestamp option"
  hd_created_at :: timestamp
  hd_updated_at :: timestamp

record outbox_db =
  events :: "event_row list"
  dispatch_keys :: "dispatch_key_row list"
  deliveries :: "delivery_row list"
  next_delivery_id :: nat

definition empty_db :: outbox_db where
  "empty_db = \<lparr>events = [], dispatch_keys = [], deliveries = [], next_delivery_id = 1\<rparr>"

section \<open>CHECK constraints\<close>

fun is_json_object :: "json \<Rightarrow> bool" where
  "is_json_object (JObject m) = True"
| "is_json_object v = False"

text \<open>\<open>jt\<close> is the text form of a \<open>jsonb\<close> value (\<open>headers::text\<close>).\<close>

definition events_check :: "(json \<Rightarrow> string) \<Rightarrow> event_row \<Rightarrow> bool" where
  "events_check jt r \<longleftrightarrow>
    1 \<le> length (ev_event_type r) \<and> length (ev_event_type r) \<le> 128 \<and>
    length (ev_producer_bc r) \<le> 64 \<and> length (ev_tenant_id r) \<le> 64 \<and>
    (case ev_aggregate_key r of None \<Rightarrow> True | Some k \<Rightarrow> 1 \<le> length k \<and> length k \<le> 128) \<and>
    length (ev_payload r) \<le> 1048576 \<and> is_json_object (ev_headers r) \<and>
    length (jt (ev_headers r)) \<le> 16384"

definition dispatch_keys_check :: "dispatch_key_row \<Rightarrow> bool" where
  "dispatch_keys_check r \<longleftrightarrow> length (dk_tenant_id r) \<le> 64 \<and>
    1 \<le> length (dk_idempotency_key r) \<and> length (dk_idempotency_key r) \<le> 128"

definition coalesce :: "'a option \<Rightarrow> 'a \<Rightarrow> 'a" where
  "coalesce a b = (case a of Some x \<Rightarrow> x | None \<Rightarrow> b)"

definition temporal_check :: "delivery_row \<Rightarrow> bool" where
  "temporal_check r \<longleftrightarrow>
    (\<forall>t. hd_first_attempted_at r = Some t \<longrightarrow> hd_created_at r \<le> t) \<and>
    (\<forall>t. hd_last_attempted_at r = Some t \<longrightarrow>
       coalesce (hd_first_attempted_at r) (hd_created_at r) \<le> t) \<and>
    (\<forall>t. hd_finished_at r = Some t \<longrightarrow>
       coalesce (hd_last_attempted_at r) (hd_created_at r) \<le> t) \<and>
    hd_created_at r \<le> hd_updated_at r"

definition status_invariants :: "delivery_row \<Rightarrow> bool" where
  "status_invariants r \<longleftrightarrow>
    (hd_status r = Queued \<and> hd_attempts r = 0 \<and> hd_first_attempted_at r = None \<and>
       hd_last_attempted_at r = None \<and> hd_finished_at r = None \<and> hd_lease_token r = None) \<or>
    (hd_status r = Running \<and> hd_attempts r > 0 \<and> hd_first_attempted_at r \<noteq> None \<and>
       hd_last_attempted_at r \<noteq> None \<and> hd_finished_at r = None \<and> hd_lease_token r \<noteq> None) \<or>
    (hd_status r = AwaitingRetry \<and> hd_attempts r > 0 \<and> hd_first_attempted_at r \<noteq> None \<and>
       hd_last_attempted_at r \<noteq> None \<and> hd_finished_at r = None \<and> hd_lease_token r = None) \<or>
    (hd_status r \<in> {Sent, Dead, Skipped} \<and> hd_attempts r > 0 \<and> hd_first_attempted_at r \<noteq> None \<and>
       hd_last_attempted_at r \<noteq> None \<and> hd_finished_at r \<noteq> None \<and> hd_lease_token r = None)"

definition deliveries_check :: "delivery_row \<Rightarrow> bool" where
  "deliveries_check r \<longleftrightarrow>
    1 \<le> length (hd_handler_id r) \<and> length (hd_handler_id r) \<le> 128 \<and> hd_attempts r \<ge> 0 \<and>
    (case hd_last_error r of None \<Rightarrow> True | Some e \<Rightarrow> length e \<le> 8192) \<and>
    temporal_check r \<and> status_invariants r"

section \<open>Keys\<close>

definition delivery_key :: "delivery_row \<Rightarrow> uuid \<times> string" where
  "delivery_key r = (hd_event_id r, hd_handler_id r)"

definition reservation_key :: "dispatch_key_row \<Rightarrow> string \<times> string" where
  "reservation_key r = (dk_tenant_id r, dk_idempotency_key r)"

definition find_event :: "uuid \<Rightarrow> event_row list \<Rightarrow> event_row option" where
  "find_event k rs = find (\<lambda>r. ev_id r = k) rs"

definition find_delivery :: "uuid \<times> string \<Rightarrow> delivery_row list \<Rightarrow> delivery_row option" where
  "find_delivery k rs = find (\<lambda>r. delivery_key r = k) rs"

definition find_reservation :: "string \<times> string \<Rightarrow> dispatch_key_row list \<Rightarrow> dispatch_key_row option" where
  "find_reservation k rs = find (\<lambda>r. reservation_key r = k) rs"

interpretation ev_tab: keyed_table ev_id find_event
  by unfold_locales (simp add: find_event_def)

interpretation hd_tab: keyed_table delivery_key find_delivery
  by unfold_locales (simp add: find_delivery_def)

interpretation dk_tab: keyed_table reservation_key find_reservation
  by unfold_locales (simp add: find_reservation_def)

section \<open>The invariant of the database\<close>

text \<open>Constraints checked when a statement runs, and the foreign key that is deferred to the commit.\<close>

definition immediate_ok :: "(json \<Rightarrow> string) \<Rightarrow> outbox_db \<Rightarrow> bool" where
  "immediate_ok jt d \<longleftrightarrow>
    distinct (map ev_id (events d)) \<and>
    distinct (map reservation_key (dispatch_keys d)) \<and> distinct (map dk_event_id (dispatch_keys d)) \<and>
    distinct (map hd_id (deliveries d)) \<and> distinct (map delivery_key (deliveries d)) \<and>
    (\<forall>r \<in> set (deliveries d). hd_id r < next_delivery_id d) \<and>
    (\<forall>r \<in> set (deliveries d). hd_event_id r \<in> ev_id ` set (events d)) \<and>
    (\<forall>r \<in> set (events d). events_check jt r) \<and>
    (\<forall>r \<in> set (dispatch_keys d). dispatch_keys_check r) \<and>
    (\<forall>r \<in> set (deliveries d). deliveries_check r)"

definition deferred_ok :: "outbox_db \<Rightarrow> bool" where
  "deferred_ok d \<longleftrightarrow> (\<forall>r \<in> set (dispatch_keys d). dk_event_id r \<in> ev_id ` set (events d))"

definition db_ok :: "(json \<Rightarrow> string) \<Rightarrow> outbox_db \<Rightarrow> bool" where
  "db_ok jt d \<longleftrightarrow> immediate_ok jt d \<and> deferred_ok d"

lemmas check_defs = events_check_def dispatch_keys_check_def deliveries_check_def
lemmas [schema_defs] = immediate_ok_def deferred_ok_def db_ok_def

section \<open>Statements\<close>

type_synonym 'a stmt = "outbox_db \<Rightarrow> ('a \<times> outbox_db, sqlx_error) rresult"

text \<open>
  Errors the server raises: the SQLSTATE matters to the crate, the text only as something to redact.
  A \<open>TEXT\<close> value with a NUL character is refused with 22021.
\<close>

definition pg_error :: "string \<Rightarrow> sqlx_error" where
  "pg_error code = Database (Some code) ''server message''"

definition text_ok :: "string \<Rightarrow> bool" where
  "text_ok s \<longleftrightarrow> CHR 0x00 \<notin> set s"

text \<open>
  A fault of the connection: the statement may not have reached the server (\<open>FailBefore\<close>, which also
  covers a pool that hands out no connection), or it was executed and only its answer was lost
  (\<open>FailAfter\<close>).
\<close>

datatype fault = NoFault | FailBefore sqlx_error | FailAfter sqlx_error

definition run_stmt :: "fault \<Rightarrow> 'a stmt \<Rightarrow> outbox_db \<Rightarrow> ('a, sqlx_error) rresult \<times> outbox_db" where
  "run_stmt f st d =
    (case f of
       FailBefore e \<Rightarrow> (Inl e, d)
     | NoFault \<Rightarrow> (case st d of Inl e \<Rightarrow> (Inl e, d) | Inr (v, d') \<Rightarrow> (Inr v, d'))
     | FailAfter e \<Rightarrow> (case st d of Inl e' \<Rightarrow> (Inl e', d) | Inr (v, d') \<Rightarrow> (Inl e, d')))"

lemma run_stmt_db:
  assumes "run_stmt f st d = (res, d')"
  shows "d' = d \<or> (\<exists>v. st d = Inr (v, d'))"
  using assms by (auto simp: run_stmt_def split: fault.splits sum.splits)

lemma run_stmt_Inr:
  "run_stmt f st d = (Inr v, d') \<longleftrightarrow> f = NoFault \<and> st d = Inr (v, d')"
  by (auto simp: run_stmt_def split: fault.splits sum.splits)

text \<open>The trigger \<open>touch_handler_deliveries\<close> stamps \<open>updated_at\<close> on every update of a delivery.\<close>

definition set_updated_at :: "timestamp \<Rightarrow> delivery_row \<Rightarrow> delivery_row" where
  "set_updated_at now r = r\<lparr>hd_updated_at := now\<rparr>"

text \<open>
  \<open>UPDATE outbox.handler_deliveries SET \<dots> WHERE \<dots>\<close>: all matching rows are rewritten and touched; if one of
  the new rows breaks a CHECK, the statement fails with 23514 and nothing changes.
\<close>

definition update_deliveries ::
  "timestamp \<Rightarrow> (delivery_row \<Rightarrow> bool) \<Rightarrow> (delivery_row \<Rightarrow> delivery_row) \<Rightarrow> nat stmt" where
  "update_deliveries now p f d =
    (if list_all (\<lambda>r. deliveries_check (set_updated_at now (f r))) (filter p (deliveries d))
     then Inr (rows_matching p (deliveries d),
               d\<lparr>deliveries := update_where p (\<lambda>r. set_updated_at now (f r)) (deliveries d)\<rparr>)
     else Inl (pg_error ''23514''))"

lemma update_deliveries_frame:
  assumes "update_deliveries now p f d = Inr (n, d')"
  shows "events d' = events d" "dispatch_keys d' = dispatch_keys d"
    "next_delivery_id d' = next_delivery_id d"
    "deliveries d' = update_where p (\<lambda>r. set_updated_at now (f r)) (deliveries d)"
    "n = rows_matching p (deliveries d)"
    "\<forall>r \<in> set (deliveries d). p r \<longrightarrow> deliveries_check (set_updated_at now (f r))"
  using assms by (auto simp: update_deliveries_def list_all_iff split: if_splits)

lemma update_deliveries_db_ok [schema_intro]:
  assumes ok: "db_ok jt d" and upd: "update_deliveries now p f d = Inr (n, d')"
    and keep: "\<And>r. hd_id (f r) = hd_id r" "\<And>r. delivery_key (f r) = delivery_key r"
  shows "db_ok jt d'"
proof -
  note fr = update_deliveries_frame [OF upd]
  let ?g = "\<lambda>r. set_updated_at now (f r)"
  have g: "hd_id (?g r) = hd_id r" "delivery_key (?g r) = delivery_key r"
    "hd_event_id (?g r) = hd_event_id r" for r
    using keep [of r] by (auto simp: set_updated_at_def delivery_key_def)
  have "map hd_id (deliveries d') = map hd_id (deliveries d)"
    "map delivery_key (deliveries d') = map delivery_key (deliveries d)"
    unfolding fr(4) by (auto intro!: map_update_where g)
  moreover have "\<forall>r \<in> set (deliveries d'). hd_id r < next_delivery_id d' \<and>
      hd_event_id r \<in> ev_id ` set (events d')"
    using ok g by (auto simp: fr schema_defs)
  moreover have "\<forall>r \<in> set (deliveries d'). deliveries_check r"
    using fr(6) ok by (auto simp: fr(4) schema_defs)
  ultimately show ?thesis
    using ok fr(1,2,3) unfolding db_ok_def immediate_ok_def deferred_ok_def by (simp only: fr) blast
qed

text \<open>An update whose WHERE clause matches nothing succeeds and changes nothing.\<close>

lemma update_deliveries_no_match:
  assumes "\<And>r. r \<in> set (deliveries d) \<Longrightarrow> \<not> p r"
  shows "update_deliveries now p f d = Inr (0, d)"
proof -
  have "rows_matching p (deliveries d) = 0"
    using assms by (simp add: rows_matching_eq_0_iff)
  then show ?thesis
    using assms by (simp add: update_deliveries_def update_where_no_match rows_matching_def)
qed

text \<open>An update of the row with one key, which passes the checks, rewrites that row and no other.\<close>

lemma find_in_deliveries:
  assumes "db_ok jt d" and "r \<in> set (deliveries d)" and "delivery_key r = k"
  shows "find_delivery k (deliveries d) = Some r"
  using assms hd_tab.look_in by (auto simp: schema_defs)

lemma update_one_delivery:
  assumes ok: "db_ok jt d" and fnd: "find_delivery k (deliveries d) = Some r" and pr: "p r"
    and only: "\<And>r. p r \<Longrightarrow> delivery_key r = k"
    and keep: "\<And>r. delivery_key (f r) = delivery_key r"
    and chk: "deliveries_check (set_updated_at now (f r))"
  obtains d' where "update_deliveries now p f d = Inr (1, d')"
    "find_delivery k (deliveries d') = Some (set_updated_at now (f r))"
    "\<And>k'. k' \<noteq> k \<Longrightarrow> find_delivery k' (deliveries d') = find_delivery k' (deliveries d)"
    "events d' = events d" "dispatch_keys d' = dispatch_keys d"
proof -
  let ?g = "\<lambda>r. set_updated_at now (f r)"
  let ?d = "d\<lparr>deliveries := update_where p ?g (deliveries d)\<rparr>"
  have r: "r \<in> set (deliveries d)" "delivery_key r = k"
    using hd_tab.look_SomeD [OF fnd] by auto
  have uniq: "s = r" if "s \<in> set (deliveries d)" "p s" for s
    using find_in_deliveries [OF ok that(1) only [OF that(2)]] fnd by simp
  have "distinct (filter p (deliveries d))"
    using ok by (auto simp: schema_defs distinct_map)
  moreover have "set (filter p (deliveries d)) = {r}"
    unfolding set_filter using uniq r(1) pr by blast
  ultimately have one: "rows_matching p (deliveries d) = 1"
    using distinct_card [of "filter p (deliveries d)"] by (simp add: rows_matching_def)
  have kg: "delivery_key (?g s) = delivery_key s" for s
    using keep [of s] by (simp add: set_updated_at_def delivery_key_def)
  have look: "find_delivery k' (update_where p ?g (deliveries d)) =
      (case find_delivery k' (deliveries d) of None \<Rightarrow> None | Some s \<Rightarrow> Some (if p s then ?g s else s))" for k'
    by (simp add: hd_tab.look_update_where kg)
  show ?thesis
  proof (rule that [of ?d])
    have "\<forall>s \<in> set (filter p (deliveries d)). deliveries_check (?g s)"
      unfolding set_filter using uniq chk by blast
    then show "update_deliveries now p f d = Inr (1, ?d)"
      by (simp add: update_deliveries_def list_all_iff one)
    show "find_delivery k (deliveries ?d) = Some (?g r)"
      using fnd pr by (simp add: look)
    show "find_delivery k' (deliveries ?d) = find_delivery k' (deliveries d)" if "k' \<noteq> k" for k'
      using that only hd_tab.look_SomeD [of k' "deliveries d"]
      by (auto simp: look split: option.split)
  qed simp_all
qed

section \<open>Properties of the schema\<close>

text \<open>
  \<open>ALL\<close> lists every status once, so it enumerates the type; the wire names are pairwise different, so a status
  read back from its name is the one that was written.
\<close>

lemma set_DeliveryStatus_ALL: "set DeliveryStatus_ALL = UNIV"
proof (intro equalityI subset_UNIV subsetI)
  fix x :: DeliveryStatus
  show "x \<in> set DeliveryStatus_ALL" by (cases x) (simp_all add: DeliveryStatus_ALL_def)
qed

lemma delivery_status_names: "find (\<lambda>st. as_str st = as_str s) DeliveryStatus_ALL = Some s"
  by (cases s) (simp_all add: DeliveryStatus_ALL_def)

instantiation DeliveryStatus :: enum
begin

definition enum_DeliveryStatus :: "DeliveryStatus list" where
  "enum_DeliveryStatus = DeliveryStatus_ALL"

definition enum_all_DeliveryStatus :: "(DeliveryStatus \<Rightarrow> bool) \<Rightarrow> bool" where
  "enum_all_DeliveryStatus P = list_all P DeliveryStatus_ALL"

definition enum_ex_DeliveryStatus :: "(DeliveryStatus \<Rightarrow> bool) \<Rightarrow> bool" where
  "enum_ex_DeliveryStatus P = list_ex P DeliveryStatus_ALL"

instance
proof
  have "set (Enum.enum :: DeliveryStatus list) = UNIV" by (simp only: enum_DeliveryStatus_def set_DeliveryStatus_ALL)
  then show "(UNIV :: DeliveryStatus set) = set Enum.enum" by simp
  show "distinct (Enum.enum :: DeliveryStatus list)" by (simp add: enum_DeliveryStatus_def DeliveryStatus_ALL_def)
qed (simp_all add: enum_all_DeliveryStatus_def enum_ex_DeliveryStatus_def list_all_iff list_ex_iff set_DeliveryStatus_ALL)

end

text \<open>
  What the status constraint of \<open>handler_deliveries\<close> means: a row that passes it carries a lease token
  exactly while it is running, a finish time exactly when its status is terminal, and an attempt
  count of zero exactly while it is queued.
\<close>

lemma status_invariants_meaning:
  assumes "status_invariants r" and "hd_attempts r \<ge> 0"
  shows "(hd_lease_token r \<noteq> None \<longleftrightarrow> hd_status r = Running) \<and>
    (hd_finished_at r \<noteq> None \<longleftrightarrow> terminal_status (hd_status r)) \<and>
    (hd_attempts r = 0 \<longleftrightarrow> hd_status r = Queued)"
  using assms by (auto simp: status_invariants_def)

definition sample_delivery :: delivery_row where
  "sample_delivery = \<lparr>hd_id = 1, hd_event_id = 7, hd_handler_id = ''audit'', hd_status = Queued,
    hd_attempts = 0, hd_last_error = None, hd_lease_token = None, hd_first_attempted_at = None,
    hd_last_attempted_at = None, hd_finished_at = None, hd_created_at = 100, hd_updated_at = 100\<rparr>"

end
