(* ===== verification/Outbox_Dispatch.thy ===== *)
theory Outbox_Dispatch
  imports Outbox_Schema
begin

text \<open>
  The producer side, \<open>Outbox::dispatch\<close> of \<^verbatim>\<open>src/src/outbox.rs\<close>: validation, the idempotency reservation,
  the insertion of the event with its deliveries and the jobs pushed to \<open>pg_work_queue\<close>, all in the
  caller's transaction. Parameters of the model: \<open>serde_json\<close>'s rendering of the headers, the server's \<open>jsonb\<close>
  input and text output, the fresh event id, the transaction's start time, connection faults, and
  \<open>pg_work_queue\<close>'s \<open>push_batch\<close> on its own part of the database.
\<close>

section \<open>Transactions\<close>

text \<open>
  A transaction: the tables as it sees them, the job queue's tables, and whether a statement failed,
  after which the server accepts nothing but a rollback. A fault of the connection counts as such a failure,
  also when the statement did not reach the server: the connection is gone, and its transaction with it.
\<close>

record 'q txn =
  tx_db :: outbox_db
  tx_queue :: 'q
  tx_failed :: bool

definition run_tx :: "fault \<Rightarrow> 'a stmt \<Rightarrow> 'q txn \<Rightarrow> ('a, sqlx_error) rresult \<times> 'q txn" where
  "run_tx f st tx =
    (if tx_failed tx then (Inl (pg_error ''25P02''), tx)
     else case run_stmt f st (tx_db tx) of
       (Inl e, d) \<Rightarrow> (Inl e, tx\<lparr>tx_db := d, tx_failed := True\<rparr>)
     | (Inr v, d) \<Rightarrow> (Inr v, tx\<lparr>tx_db := d\<rparr>))"

text \<open>
  \<open>COMMIT\<close>: a failed transaction, or one that leaves a reservation without its event (the foreign key is
  deferred to this point), is rolled back to what was committed before.
\<close>

definition tx_commit :: "outbox_db \<times> 'q \<Rightarrow> 'q txn \<Rightarrow> outbox_db \<times> 'q" where
  "tx_commit before tx =
    (if tx_failed tx \<or> \<not> deferred_ok (tx_db tx) then before else (tx_db tx, tx_queue tx))"

section \<open>Statements of the dispatch\<close>

text \<open>
  The no-op upsert of the reservation; \<open>(xmax = 0)\<close> is true of a row that was inserted.
\<close>

definition reserve_stmt :: "timestamp \<Rightarrow> string \<Rightarrow> string \<Rightarrow> uuid \<Rightarrow> (uuid \<times> bool) stmt" where
  "reserve_stmt now tenant_id key event_id d =
    (let row = \<lparr>dk_tenant_id = tenant_id, dk_idempotency_key = key, dk_event_id = event_id,
                dk_created_at = now\<rparr>
     in if \<not> list_all text_ok [tenant_id, key] then Inl (pg_error ''22021'')
        else if \<not> dispatch_keys_check row then Inl (pg_error ''23514'')
        else case find_reservation (tenant_id, key) (dispatch_keys d) of
          Some r \<Rightarrow> Inr ((dk_event_id r, False), d)
        | None \<Rightarrow>
            if event_id \<in> dk_event_id ` set (dispatch_keys d) then Inl (pg_error ''23505'')
            else Inr ((event_id, True), d\<lparr>dispatch_keys := dispatch_keys d @ [row]\<rparr>))"

text \<open>\<open>INSERT INTO outbox.events\<close>; the headers are the result of the cast \<open>$7::jsonb\<close>.\<close>

definition insert_event ::
  "(json \<Rightarrow> string) \<Rightarrow> (json, string) rresult \<Rightarrow> (json \<Rightarrow> event_row) \<Rightarrow> event_row stmt" where
  "insert_event jt headers mk d =
    (case headers of
       Inl code \<Rightarrow> Inl (pg_error code)
     | Inr h \<Rightarrow>
         (let row = mk h
          in if \<not> list_all text_ok ([ev_event_type row, ev_producer_bc row, ev_tenant_id row] @
                 (case ev_aggregate_key row of None \<Rightarrow> [] | Some k \<Rightarrow> [k]))
               then Inl (pg_error ''22021'')
             else if \<not> events_check jt row then Inl (pg_error ''23514'')
             else if ev_id row \<in> ev_id ` set (events d) then Inl (pg_error ''23505'')
             else Inr (row, d\<lparr>events := events d @ [row]\<rparr>)))"

text \<open>\<open>INSERT INTO outbox.handler_deliveries (event_id, handler_id) SELECT \<dots> unnest($8)\<close>, with the defaults.\<close>

definition new_delivery :: "timestamp \<Rightarrow> uuid \<Rightarrow> nat \<Rightarrow> string \<Rightarrow> delivery_row" where
  "new_delivery now event_id n handler_id =
    \<lparr>hd_id = n, hd_event_id = event_id, hd_handler_id = handler_id, hd_status = Queued,
     hd_attempts = 0, hd_last_error = None, hd_lease_token = None, hd_first_attempted_at = None,
     hd_last_attempted_at = None, hd_finished_at = None, hd_created_at = now, hd_updated_at = now\<rparr>"

definition new_deliveries :: "timestamp \<Rightarrow> uuid \<Rightarrow> nat \<Rightarrow> string list \<Rightarrow> delivery_row list" where
  "new_deliveries now event_id n ids = map2 (new_delivery now event_id) [n..<n + length ids] ids"

definition insert_deliveries :: "timestamp \<Rightarrow> uuid \<Rightarrow> string list \<Rightarrow> nat stmt" where
  "insert_deliveries now event_id ids d =
    (let rows = new_deliveries now event_id (next_delivery_id d) ids
     in if \<not> list_all text_ok ids then Inl (pg_error ''22021'')
        else if \<not> list_all deliveries_check rows then Inl (pg_error ''23514'')
        else if \<not> distinct (map delivery_key (deliveries d @ rows)) then Inl (pg_error ''23505'')
        else if rows \<noteq> [] \<and> event_id \<notin> ev_id ` set (events d) then Inl (pg_error ''23503'')
        else Inr (length ids, d\<lparr>deliveries := deliveries d @ rows,
                               next_delivery_id := next_delivery_id d + length ids\<rparr>))"

text \<open>The CTE: both insertions are one statement, which succeeds or fails as a whole.\<close>

definition insert_event_with_deliveries ::
  "(json \<Rightarrow> string) \<Rightarrow> timestamp \<Rightarrow> (json, string) rresult \<Rightarrow> (json \<Rightarrow> event_row) \<Rightarrow> string list \<Rightarrow> nat stmt"
where
  "insert_event_with_deliveries jt now headers mk ids d =
    (case insert_event jt headers mk d of
       Inl e \<Rightarrow> Inl e
     | Inr (row, d1) \<Rightarrow> insert_deliveries now (ev_id row) ids d1)"

section \<open>Outbox::dispatch\<close>

text \<open>
  What the dispatch takes from outside the crate: \<open>Uuid::now_v7()\<close>, the transaction's \<open>now()\<close>, \<open>serde_json::to_string\<close> on
  the headers, the server's \<open>jsonb\<close> conversions (a refused input gives its SQLSTATE), the faults of its two
  statements, and \<open>Pusher::push_batch\<close>, whose error comes with whether it aborted the transaction.
\<close>

record ('p, 'q) dispatch_world =
  dw_event_id :: uuid
  dw_now :: timestamp
  dw_to_string :: "json_map \<Rightarrow> (string, string) rresult"
  dw_jsonb_in :: "string \<Rightarrow> (json, string) rresult"
  dw_jsonb_text :: "json \<Rightarrow> string"
  dw_reserve_fault :: fault
  dw_insert_fault :: fault
  dw_push_batch :: "(HandlerEnvelope \<times> string option) list \<Rightarrow> 'q \<Rightarrow> ('q, 'p \<times> bool) rresult"

definition validate_dispatch ::
  "'e DomainEvent \<Rightarrow> DispatchContext \<Rightarrow> 'e \<Rightarrow> (unit, 'p DispatchError) rresult" where
  "validate_dispatch E ctx event =
    (if EVENT_TYPE E = [] \<or> length (EVENT_TYPE E) > MAX_EVENT_TYPE_BYTES
       then Inl (EventTypeInvalid (length (EVENT_TYPE E)) MAX_EVENT_TYPE_BYTES)
     else if length (dc_tenant_id ctx) > MAX_TENANT_BYTES
       then Inl (TenantIdTooLong (length (dc_tenant_id ctx)) MAX_TENANT_BYTES)
     else if length (dc_producer_bc ctx) > MAX_BC_BYTES
       then Inl (ProducerBcTooLong (length (dc_producer_bc ctx)) MAX_BC_BYTES)
     else case (case dc_idempotency_key ctx of
                  None \<Rightarrow> Inr ()
                | Some k \<Rightarrow>
                    if k = [] \<or> length k > MAX_IDEMPOTENCY_KEY_BYTES
                    then Inl (IdempotencyKeyInvalid (length k) MAX_IDEMPOTENCY_KEY_BYTES) else Inr ()) of
         Inl e \<Rightarrow> Inl e
       | Inr _ \<Rightarrow>
           (case aggregate_key E event of
              None \<Rightarrow> Inr ()
            | Some ak \<Rightarrow>
                if ak = [] \<or> length ak > MAX_AGGREGATE_KEY_BYTES
                then Inl (AggregateKeyInvalid (length ak) MAX_AGGREGATE_KEY_BYTES) else Inr ()))"

definition encode_payload :: "'e DomainEvent \<Rightarrow> 'e \<Rightarrow> (bytes, 'p DispatchError) rresult" where
  "encode_payload E event =
    (case to_vec E event of
       Inl e \<Rightarrow> Inl (Codec e)
     | Inr payload \<Rightarrow>
         if length payload > MAX_PAYLOAD_BYTES
         then Inl (PayloadTooLarge (length payload) MAX_PAYLOAD_BYTES) else Inr payload)"

definition encode_headers ::
  "(json_map \<Rightarrow> (string, string) rresult) \<Rightarrow> DispatchContext \<Rightarrow> (string, 'p DispatchError) rresult" where
  "encode_headers to_string ctx =
    (case to_string (case dc_headers ctx of Some h \<Rightarrow> h | None \<Rightarrow> []) of
       Inl e \<Rightarrow> Inl (Codec e)
     | Inr headers_text \<Rightarrow>
         if length headers_text > MAX_HEADERS_BYTES
         then Inl (HeadersTooLarge (length headers_text) MAX_HEADERS_BYTES) else Inr headers_text)"

definition mk_event_row ::
  "'e DomainEvent \<Rightarrow> DispatchContext \<Rightarrow> 'e \<Rightarrow> uuid \<Rightarrow> timestamp \<Rightarrow> bytes \<Rightarrow> json \<Rightarrow> event_row" where
  "mk_event_row E ctx event event_id now payload headers =
    \<lparr>ev_id = event_id, ev_event_type = EVENT_TYPE E, ev_producer_bc = dc_producer_bc ctx,
     ev_tenant_id = dc_tenant_id ctx, ev_aggregate_key = aggregate_key E event,
     ev_payload = payload, ev_headers = headers, ev_created_at = now\<rparr>"

text \<open>One envelope per handler; the concurrency key is set only for handlers with a limit.\<close>

definition make_envelopes :: "Registry \<Rightarrow> uuid \<Rightarrow> string list \<Rightarrow> (HandlerEnvelope \<times> string option) list" where
  "make_envelopes reg event_id handler_ids =
    map (\<lambda>hid. (\<lparr>env_event_id = event_id, env_handler_id = hid\<rparr>,
        map_option (\<lambda>_. hid) (Option.bind (lookup reg hid) rh_concurrency_limit))) handler_ids"

text \<open>Step 9: push the jobs, and the outcome.\<close>

definition push_jobs ::
  "('p, 'q) dispatch_world \<Rightarrow> Registry \<Rightarrow> string list \<Rightarrow> 'q txn \<Rightarrow>
   (DispatchOutcome, 'p DispatchError) rresult \<times> 'q txn" where
  "push_jobs w reg handler_ids tx =
    (case dw_push_batch w (make_envelopes reg (dw_event_id w) handler_ids) (tx_queue tx) of
       Inl (e, aborted) \<Rightarrow> (Inl (PgwqPush e), tx\<lparr>tx_failed := tx_failed tx \<or> aborted\<rparr>)
     | Inr q \<Rightarrow> (Inr (Dispatched (dw_event_id w) (length handler_ids)), tx\<lparr>tx_queue := q\<rparr>))"

text \<open>Steps 6 to 9, after the reservation.\<close>

definition dispatch_insert ::
  "'b Outbox \<Rightarrow> ('p, 'q) dispatch_world \<Rightarrow> 'e DomainEvent \<Rightarrow> DispatchContext \<Rightarrow> 'e \<Rightarrow> bytes \<Rightarrow>
   string list \<Rightarrow> 'q txn \<Rightarrow> (DispatchOutcome, 'p DispatchError) rresult \<times> 'q txn"
where
  "dispatch_insert ob w E ctx event payload handler_ids tx =
    (case encode_headers (dw_to_string w) ctx of
       Inl e \<Rightarrow> (Inl e, tx)
     | Inr headers_text \<Rightarrow>
         (let headers = dw_jsonb_in w headers_text;
              mk = mk_event_row E ctx event (dw_event_id w) (dw_now w) payload
          in if handler_ids = [] then
               (case run_tx (dw_insert_fault w) (insert_event (dw_jsonb_text w) headers mk) tx of
                  (Inl e, tx') \<Rightarrow> (Inl (dispatch_error_from e), tx')
                | (Inr _, tx') \<Rightarrow> (Inr (NoHandlers (dw_event_id w)), tx'))
             else
               (case run_tx (dw_insert_fault w)
                   (insert_event_with_deliveries (dw_jsonb_text w) (dw_now w) headers mk handler_ids) tx of
                  (Inl e, tx') \<Rightarrow> (Inl (dispatch_error_from e), tx')
                | (Inr _, tx') \<Rightarrow> push_jobs w (ob_registry ob) handler_ids tx')))"

definition dispatch ::
  "'b Outbox \<Rightarrow> ('p, 'q) dispatch_world \<Rightarrow> 'e DomainEvent \<Rightarrow> DispatchContext \<Rightarrow> 'e \<Rightarrow> 'q txn \<Rightarrow>
   (DispatchOutcome, 'p DispatchError) rresult \<times> 'q txn"
where
  "dispatch ob w E ctx event tx =
    (case validate_dispatch E ctx event of
       Inl e \<Rightarrow> (Inl e, tx)
     | Inr _ \<Rightarrow>
     case encode_payload E event of
       Inl e \<Rightarrow> (Inl e, tx)
     | Inr payload \<Rightarrow>
         (let handler_ids = handler_ids_for (ob_registry ob) (EVENT_TYPE E)
          in if handler_ids = [] \<and> \<not> ob_allow_no_handlers ob
               then (Inl (NoHandlersRegistered (EVENT_TYPE E)), tx)
             else case dc_idempotency_key ctx of
               None \<Rightarrow> dispatch_insert ob w E ctx event payload handler_ids tx
             | Some key \<Rightarrow>
                 (case run_tx (dw_reserve_fault w)
                     (reserve_stmt (dw_now w) (dc_tenant_id ctx) key (dw_event_id w)) tx of
                    (Inl e, tx') \<Rightarrow> (Inl (dispatch_error_from e), tx')
                  | (Inr (existing_event_id, inserted), tx') \<Rightarrow>
                      if \<not> inserted then (Inr (Duplicate existing_event_id), tx')
                      else dispatch_insert ob w E ctx event payload handler_ids tx')))"

section \<open>What the statements keep\<close>

lemma length_new_deliveries [simp]: "length (new_deliveries now e n ids) = length ids"
  by (simp add: new_deliveries_def)

lemma new_deliveries_ids: "map hd_id (new_deliveries now e n ids) = [n..<n + length ids]"
  by (rule nth_equalityI) (simp_all add: new_deliveries_def new_delivery_def)

lemma new_deliveries_keys: "map delivery_key (new_deliveries now e n ids) = map (\<lambda>h. (e, h)) ids"
  by (rule nth_equalityI) (simp_all add: new_deliveries_def new_delivery_def delivery_key_def)

lemma new_deliveries_rows:
  "r \<in> set (new_deliveries now e n ids) \<Longrightarrow>
    \<exists>m h. r = new_delivery now e m h \<and> n \<le> m \<and> m < n + length ids \<and> h \<in> set ids"
  by (fastforce simp: new_deliveries_def in_set_zip)

lemma new_delivery_check:
  "deliveries_check (new_delivery now e n h) \<longleftrightarrow> h \<noteq> [] \<and> length h \<le> 128"
  by (cases h) (auto simp: deliveries_check_def new_delivery_def temporal_check_def status_invariants_def)

lemma new_deliveries_check:
  "list_all deliveries_check (new_deliveries now e n ids) \<longleftrightarrow> list_all (\<lambda>h. h \<noteq> [] \<and> length h \<le> 128) ids"
  by (auto simp: list_all_length new_deliveries_def new_delivery_check)

lemma reserve_stmt_immediate_ok:
  assumes "immediate_ok jt d" and "reserve_stmt now t k e d = Inr (v, d')"
  shows "immediate_ok jt d'"
proof (cases "find_reservation (t, k) (dispatch_keys d)")
  case None
  then have "(t, k) \<notin> reservation_key ` set (dispatch_keys d)"
    by (simp add: dk_tab.look_None_iff)
  with None assms show ?thesis
    by (auto simp: reserve_stmt_def Let_def immediate_ok_def reservation_key_def split: if_splits)
next
  case (Some r)
  with assms show ?thesis by (auto simp: reserve_stmt_def Let_def split: if_splits)
qed

lemma insert_event_immediate_ok:
  assumes "immediate_ok jt d" and "insert_event jt h mk d = Inr (v, d')"
  shows "immediate_ok jt d'"
  using assms by (auto simp: insert_event_def Let_def immediate_ok_def split: if_splits sum.splits)

lemma insert_deliveries_immediate_ok:
  assumes "immediate_ok jt d" and "insert_deliveries now e ids d = Inr (v, d')"
  shows "immediate_ok jt d'"
proof -
  let ?rows = "new_deliveries now e (next_delivery_id d) ids"
  from assms(2) have d': "d' = d\<lparr>deliveries := deliveries d @ ?rows,
      next_delivery_id := next_delivery_id d + length ids\<rparr>"
    and chk: "list_all deliveries_check ?rows" and keys: "distinct (map delivery_key (deliveries d @ ?rows))"
    and fk: "?rows = [] \<or> e \<in> ev_id ` set (events d)"
    by (auto simp: insert_deliveries_def Let_def split: if_splits)
  have "distinct (map hd_id (deliveries d @ ?rows))"
    using assms(1) unfolding map_append distinct_append new_deliveries_ids
    by (fastforce simp: immediate_ok_def)
  moreover have "\<forall>r \<in> set ?rows. hd_id r < next_delivery_id d + length ids \<and> hd_event_id r \<in> ev_id ` set (events d)"
    using fk by (fastforce dest: new_deliveries_rows simp: new_delivery_def)
  ultimately show ?thesis
    using assms(1) chk keys unfolding d' immediate_ok_def by (auto simp: list_all_iff)
qed

section \<open>Interface: a statement that keeps the immediate constraints\<close>

lemma run_tx_Inr:
  "run_tx f st tx = (Inr v, tx') \<longleftrightarrow>
    \<not> tx_failed tx \<and> f = NoFault \<and> (\<exists>d. st (tx_db tx) = Inr (v, d) \<and> tx' = tx\<lparr>tx_db := d\<rparr>)"
  by (cases "st (tx_db tx)"; cases f) (auto simp: run_tx_def run_stmt_def)

lemma run_tx_Inl: "run_tx f st tx = (Inl e, tx') \<Longrightarrow> tx_failed tx'"
  by (auto simp: run_tx_def split: if_splits prod.splits sum.splits)

text \<open>
  The transaction relies on every statement of the dispatch to keep what the server checks at once; the
  rest of the schema, the deferred foreign key, is the business of the commit.
\<close>

locale safe_statement =
  fixes jt :: "json \<Rightarrow> string"
    and st :: "'a stmt"
  assumes keeps: "immediate_ok jt d \<Longrightarrow> st d = Inr (v, d') \<Longrightarrow> immediate_ok jt d'"
begin

lemma run_tx_keeps:
  assumes "immediate_ok jt (tx_db tx)" and "run_tx f st tx = (res, tx')"
  shows "immediate_ok jt (tx_db tx')"
proof (cases "tx_failed tx")
  case False
  obtain r d where "run_stmt f st (tx_db tx) = (r, d)" by fastforce
  moreover from run_stmt_db [OF this] have "immediate_ok jt d" using assms(1) keeps by blast
  ultimately show ?thesis using assms(2) False by (auto simp: run_tx_def split: sum.splits)
qed (use assms in \<open>simp add: run_tx_def\<close>)

end

interpretation reserve: safe_statement jt "reserve_stmt now t k e" for jt now t k e
  by unfold_locales (rule reserve_stmt_immediate_ok)

interpretation ins_event: safe_statement jt "insert_event jt h mk" for jt h mk
  by unfold_locales (rule insert_event_immediate_ok)

interpretation ins_deliveries: safe_statement jt "insert_deliveries now e ids" for jt now e ids
  by unfold_locales (rule insert_deliveries_immediate_ok)

interpretation ins_both: safe_statement jt "insert_event_with_deliveries jt now h mk ids" for jt now h mk ids
  by unfold_locales
    (auto simp: insert_event_with_deliveries_def split: sum.splits
      intro: ins_event.keeps ins_deliveries.keeps)

section \<open>What a successful dispatch has done\<close>

lemma insert_event_Inr:
  "insert_event jt h mk d = Inr (row, d') \<Longrightarrow>
    (\<exists>j. h = Inr j \<and> row = mk j) \<and> events_check jt row \<and> ev_id row \<notin> ev_id ` set (events d) \<and>
    d' = d\<lparr>events := events d @ [row]\<rparr>"
  by (auto simp: insert_event_def Let_def split: sum.splits if_splits)

lemma insert_deliveries_Inr:
  "insert_deliveries now e ids d = Inr (n, d') \<Longrightarrow>
    d' = d\<lparr>deliveries := deliveries d @ new_deliveries now e (next_delivery_id d) ids,
      next_delivery_id := next_delivery_id d + length ids\<rparr>"
  by (auto simp: insert_deliveries_def Let_def split: if_splits)

lemma mk_event_row_id [simp]: "ev_id (mk_event_row E ctx event e now p h) = e"
  by (simp add: mk_event_row_def)

definition inserted_rows ::
  "('p, 'q) dispatch_world \<Rightarrow> event_row \<Rightarrow> string list \<Rightarrow> dispatch_key_row list \<Rightarrow> outbox_db \<Rightarrow> outbox_db" where
  "inserted_rows w row ids keys d =
    \<lparr>events = events d @ [row], dispatch_keys = dispatch_keys d @ keys,
     deliveries = deliveries d @ new_deliveries (dw_now w) (dw_event_id w) (next_delivery_id d) ids,
     next_delivery_id = next_delivery_id d + length ids\<rparr>"

definition job_outcome :: "('p, 'q) dispatch_world \<Rightarrow> string list \<Rightarrow> DispatchOutcome" where
  "job_outcome w ids = (if ids = [] then NoHandlers (dw_event_id w) else Dispatched (dw_event_id w) (length ids))"

text \<open>The headers of a dispatch as the server stores them: rendered by \<open>serde_json\<close>, then cast to \<open>jsonb\<close>.\<close>

definition stored_headers :: "('p, 'q) dispatch_world \<Rightarrow> DispatchContext \<Rightarrow> (json, string) rresult" where
  "stored_headers w ctx =
    (case dw_to_string w (case dc_headers ctx of Some m \<Rightarrow> m | None \<Rightarrow> []) of
       Inl e \<Rightarrow> Inl e
     | Inr s \<Rightarrow> dw_jsonb_in w s)"

lemma encode_headers_Inr:
  "encode_headers (dw_to_string w) ctx = Inr s \<Longrightarrow> stored_headers w ctx = dw_jsonb_in w s"
  by (auto simp: encode_headers_def stored_headers_def split: sum.splits if_splits)

lemma dispatch_insert_Inr:
  fixes w :: "('p, 'q) dispatch_world"
  assumes "dispatch_insert ob w E ctx event payload ids tx = (Inr out, tx')"
  obtains h where "\<not> tx_failed tx" "\<not> tx_failed tx'" "out = job_outcome w ids"
    "tx_db tx' = inserted_rows w (mk_event_row E ctx event (dw_event_id w) (dw_now w) payload h) ids [] (tx_db tx)"
    "events_check (dw_jsonb_text w) (mk_event_row E ctx event (dw_event_id w) (dw_now w) payload h)"
    "if ids = [] then tx_queue tx' = tx_queue tx
     else dw_push_batch w (make_envelopes (ob_registry ob) (dw_event_id w) ids) (tx_queue tx) = Inr (tx_queue tx')"
    "stored_headers w ctx = Inr h"
proof -
  from assms obtain s where hd:
    "(encode_headers (dw_to_string w) ctx :: (string, 'p DispatchError) rresult) = Inr s"
    by (auto simp: dispatch_insert_def split: sum.splits)
  let ?mk = "mk_event_row E ctx event (dw_event_id w) (dw_now w) payload"
  let ?h = "dw_jsonb_in w s"
  note sh = encode_headers_Inr [OF hd]
  show ?thesis
  proof (cases "ids = []")
    case True
    with assms hd obtain row d' where ins: "insert_event (dw_jsonb_text w) ?h ?mk (tx_db tx) = Inr (row, d')"
      and tx': "tx' = tx\<lparr>tx_db := d'\<rparr>" "\<not> tx_failed tx" "out = NoHandlers (dw_event_id w)"
      by (auto simp: dispatch_insert_def run_tx_Inr split: prod.splits sum.splits)
    with insert_event_Inr [OF ins] True sh show ?thesis
      by (auto simp: job_outcome_def inserted_rows_def new_deliveries_def intro!: that)
  next
    case False
    with assms hd obtain n d' where
      ins: "insert_event_with_deliveries (dw_jsonb_text w) (dw_now w) ?h ?mk ids (tx_db tx) = Inr (n, d')"
      and nf: "\<not> tx_failed tx" and push: "push_jobs w (ob_registry ob) ids (tx\<lparr>tx_db := d'\<rparr>) = (Inr out, tx')"
      by (auto simp: dispatch_insert_def run_tx_Inr split: prod.splits sum.splits)
    from ins obtain row d1 where i1: "insert_event (dw_jsonb_text w) ?h ?mk (tx_db tx) = Inr (row, d1)"
      and i2: "insert_deliveries (dw_now w) (ev_id row) ids d1 = Inr (n, d')"
      by (auto simp: insert_event_with_deliveries_def split: sum.splits)
    from push False insert_event_Inr [OF i1] insert_deliveries_Inr [OF i2] nf sh show ?thesis
      by (auto simp: push_jobs_def job_outcome_def inserted_rows_def split: sum.splits intro!: that)
  qed
qed

definition reservation_rows :: "('p, 'q) dispatch_world \<Rightarrow> DispatchContext \<Rightarrow> dispatch_key_row list" where
  "reservation_rows w ctx =
    (case dc_idempotency_key ctx of
       None \<Rightarrow> []
     | Some key \<Rightarrow> [\<lparr>dk_tenant_id = dc_tenant_id ctx, dk_idempotency_key = key,
         dk_event_id = dw_event_id w, dk_created_at = dw_now w\<rparr>])"

lemma reserve_stmt_Inr:
  assumes "reserve_stmt now t k e d = Inr ((x, ins), d')"
  shows "if ins then find_reservation (t, k) (dispatch_keys d) = None \<and> x = e \<and>
      d' = d\<lparr>dispatch_keys := dispatch_keys d @ [\<lparr>dk_tenant_id = t, dk_idempotency_key = k,
        dk_event_id = e, dk_created_at = now\<rparr>]\<rparr>
    else d' = d \<and> (\<exists>r. find_reservation (t, k) (dispatch_keys d) = Some r \<and> x = dk_event_id r)"
  using assms by (auto simp: reserve_stmt_def Let_def split: if_splits option.splits)

text \<open>The two ways a dispatch succeeds: it finds the reservation, or it inserts everything.\<close>

lemma dispatch_Inr:
  fixes w :: "('p, 'q) dispatch_world"
  assumes "dispatch ob w E ctx event tx = (Inr out, tx')"
  defines "ids \<equiv> handler_ids_for (ob_registry ob) (EVENT_TYPE E)"
  obtains (duplicate) key r where "dc_idempotency_key ctx = Some key"
      "find_reservation (dc_tenant_id ctx, key) (dispatch_keys (tx_db tx)) = Some r"
      "out = Duplicate (dk_event_id r)" "tx' = tx" "\<not> tx_failed tx"
  | (inserted) h payload where "to_vec E event = Inr payload"
      "\<forall>key. dc_idempotency_key ctx = Some key \<longrightarrow>
        find_reservation (dc_tenant_id ctx, key) (dispatch_keys (tx_db tx)) = None"
      "ids \<noteq> [] \<or> ob_allow_no_handlers ob" "out = job_outcome w ids" "\<not> tx_failed tx" "\<not> tx_failed tx'"
      "tx_db tx' = inserted_rows w (mk_event_row E ctx event (dw_event_id w) (dw_now w) payload h) ids
        (reservation_rows w ctx) (tx_db tx)"
      "if ids = [] then tx_queue tx' = tx_queue tx
       else dw_push_batch w (make_envelopes (ob_registry ob) (dw_event_id w) ids) (tx_queue tx) =
         Inr (tx_queue tx')"
      "stored_headers w ctx = Inr h"
proof -
  from assms(1) obtain payload where pl: "to_vec E event = Inr payload"
    and allow: "ids \<noteq> [] \<or> ob_allow_no_handlers ob"
    and rest: "(case dc_idempotency_key ctx of
       None \<Rightarrow> dispatch_insert ob w E ctx event payload ids tx
     | Some key \<Rightarrow>
         (case run_tx (dw_reserve_fault w)
             (reserve_stmt (dw_now w) (dc_tenant_id ctx) key (dw_event_id w)) tx of
            (Inl e, tx') \<Rightarrow> (Inl (dispatch_error_from e), tx')
          | (Inr (existing_event_id, inserted), tx') \<Rightarrow>
              if \<not> inserted then (Inr (Duplicate existing_event_id), tx')
              else dispatch_insert ob w E ctx event payload ids tx')) = (Inr out, tx')"
    unfolding ids_def
    by (auto simp: dispatch_def encode_payload_def Let_def split: sum.splits if_splits)
  show ?thesis
  proof (cases "dc_idempotency_key ctx")
    case None
    with rest have "dispatch_insert ob w E ctx event payload ids tx = (Inr out, tx')" by simp
    then show ?thesis
      by (rule dispatch_insert_Inr) (rule inserted [OF pl _ allow], auto simp: None reservation_rows_def)
  next
    case (Some key)
    with rest obtain x ins d1 where nf: "\<not> tx_failed tx"
      and res: "reserve_stmt (dw_now w) (dc_tenant_id ctx) key (dw_event_id w) (tx_db tx) = Inr ((x, ins), d1)"
      and cont: "if ins then dispatch_insert ob w E ctx event payload ids (tx\<lparr>tx_db := d1\<rparr>) = (Inr out, tx')
        else out = Duplicate x \<and> tx' = tx\<lparr>tx_db := d1\<rparr>"
      by (auto simp: run_tx_Inr split: prod.splits sum.splits if_splits)
    note r = reserve_stmt_Inr [OF res]
    show ?thesis
    proof (cases ins)
      case True
      with cont have "dispatch_insert ob w E ctx event payload ids (tx\<lparr>tx_db := d1\<rparr>) = (Inr out, tx')" by simp
      then show ?thesis
        by (rule dispatch_insert_Inr) (rule inserted [OF pl _ allow],
            use r True Some nf in \<open>auto simp: reservation_rows_def inserted_rows_def split: if_splits\<close>)
    next
      case False
      with cont r Some nf show ?thesis by (auto intro!: duplicate)
    qed
  qed
qed

lemma dispatch_immediate_ok:
  assumes ok: "immediate_ok (dw_jsonb_text w) (tx_db tx)" and "dispatch ob w E ctx event tx = (res, tx')"
  shows "immediate_ok (dw_jsonb_text w) (tx_db tx')"
proof -
  have push: "immediate_ok (dw_jsonb_text w) (tx_db t) \<Longrightarrow> push_jobs w reg ids t = (a, t') \<Longrightarrow>
      immediate_ok (dw_jsonb_text w) (tx_db t')" for reg ids t a t'
    by (auto simp: push_jobs_def split: sum.splits prod.splits)
  have ins: "immediate_ok (dw_jsonb_text w) (tx_db t) \<Longrightarrow>
      dispatch_insert ob w E ctx event payload ids t = (a, t') \<Longrightarrow>
      immediate_ok (dw_jsonb_text w) (tx_db t')" for payload ids t a t'
    by (auto simp: dispatch_insert_def Let_def split: sum.splits prod.splits if_splits
        dest: ins_event.run_tx_keeps [rotated] ins_both.run_tx_keeps [rotated] intro: push)
  show ?thesis
    using assms
    by (auto simp: dispatch_def Let_def split: sum.splits prod.splits if_splits option.splits
        dest: reserve.run_tx_keeps [rotated] intro: ins)
qed

section \<open>When a dispatch succeeds\<close>

lemma validate_dispatch_Inr:
  assumes "validate_dispatch E ctx event = Inr ()"
  shows "EVENT_TYPE E \<noteq> []" "length (EVENT_TYPE E) \<le> 128" "length (dc_tenant_id ctx) \<le> 64"
    "length (dc_producer_bc ctx) \<le> 64"
    "dc_idempotency_key ctx = Some k \<Longrightarrow> k \<noteq> [] \<and> length k \<le> 128"
    "aggregate_key E event = Some a \<Longrightarrow> a \<noteq> [] \<and> length a \<le> 128"
  using assms
  by (auto simp: validate_dispatch_def limit_defs split: if_splits option.splits)

text \<open>The limits checked in Rust are those of the schema, except for the text of the headers.\<close>

lemma mk_event_row_check:
  assumes "validate_dispatch E ctx event = Inr ()" and "length payload \<le> 1048576"
  shows "events_check jt (mk_event_row E ctx event e now payload h) \<longleftrightarrow>
    is_json_object h \<and> length (jt h) \<le> 16384"
  using validate_dispatch_Inr [OF assms(1)] assms(2)
  by (cases "EVENT_TYPE E"; cases "aggregate_key E event")
    (auto simp: events_check_def mk_event_row_def neq_Nil_conv)

definition dispatch_texts :: "'e DomainEvent \<Rightarrow> DispatchContext \<Rightarrow> 'e \<Rightarrow> string list \<Rightarrow> string list" where
  "dispatch_texts E ctx event ids =
    [EVENT_TYPE E, dc_producer_bc ctx, dc_tenant_id ctx] @
    (case dc_idempotency_key ctx of None \<Rightarrow> [] | Some k \<Rightarrow> [k]) @
    (case aggregate_key E event of None \<Rightarrow> [] | Some k \<Rightarrow> [k]) @ ids"

text \<open>
  Nothing stands in the way of a dispatch: it passes the checks in Rust, the server accepts the headers,
  no text has a NUL, the statements reach the server and the new event id is new.
\<close>

definition dispatch_ready ::
  "'b Outbox \<Rightarrow> ('p, 'q) dispatch_world \<Rightarrow> 'e DomainEvent \<Rightarrow> DispatchContext \<Rightarrow> 'e \<Rightarrow> 'q txn \<Rightarrow> bytes \<Rightarrow> json \<Rightarrow> bool"
where
  "dispatch_ready ob w E ctx event tx payload h \<longleftrightarrow>
    (let ids = handler_ids_for (ob_registry ob) (EVENT_TYPE E)
     in (validate_dispatch E ctx event :: (unit, 'p DispatchError) rresult) = Inr () \<and> to_vec E event = Inr payload \<and>
        length payload \<le> MAX_PAYLOAD_BYTES \<and> (ids \<noteq> [] \<or> ob_allow_no_handlers ob) \<and>
        registry_wf (ob_registry ob) \<and> list_all text_ok (dispatch_texts E ctx event ids) \<and>
        (\<exists>s. dw_to_string w (case dc_headers ctx of Some m \<Rightarrow> m | None \<Rightarrow> []) = Inr s \<and>
          length s \<le> MAX_HEADERS_BYTES \<and> dw_jsonb_in w s = Inr h) \<and> is_json_object h \<and>
        dw_reserve_fault w = NoFault \<and> dw_insert_fault w = NoFault \<and> \<not> tx_failed tx \<and>
        dw_event_id w \<notin> ev_id ` set (events (tx_db tx)) \<and> db_ok (dw_jsonb_text w) (tx_db tx))"

lemma insert_event_ready:
  assumes "dispatch_ready ob w E ctx event tx payload h" and "length (dw_jsonb_text w h) \<le> 16384"
    and "events d = events (tx_db tx)"
  shows "insert_event (dw_jsonb_text w) (Inr h)
      (mk_event_row E ctx event (dw_event_id w) (dw_now w) payload) d =
    Inr (mk_event_row E ctx event (dw_event_id w) (dw_now w) payload h,
         d\<lparr>events := events d @ [mk_event_row E ctx event (dw_event_id w) (dw_now w) payload h]\<rparr>)"
proof -
  note r = assms(1) [unfolded dispatch_ready_def Let_def]
  have "events_check (dw_jsonb_text w) (mk_event_row E ctx event (dw_event_id w) (dw_now w) payload h)"
    using mk_event_row_check [OF conjunct1 [OF r]] r assms(2) by (simp add: MAX_PAYLOAD_BYTES_def)
  then show ?thesis
    using r assms(3)
    by (auto simp: insert_event_def Let_def dispatch_texts_def mk_event_row_def list_all_iff
        split: option.splits)
qed

lemma insert_deliveries_ready:
  assumes wf: "registry_wf reg" and ok: "immediate_ok jt d0" and txts: "list_all text_ok ids"
    and ids: "ids = handler_ids_for reg t" and new: "e \<notin> ev_id ` set (events d0)"
    and d: "deliveries d = deliveries d0" and ev: "e \<in> ev_id ` set (events d)"
  shows "insert_deliveries now e ids d =
    Inr (length ids, d\<lparr>deliveries := deliveries d @ new_deliveries now e (next_delivery_id d) ids,
      next_delivery_id := next_delivery_id d + length ids\<rparr>)"
proof -
  let ?rows = "new_deliveries now e (next_delivery_id d) ids"
  have "list_all deliveries_check ?rows"
    using reg.ids_bytes [OF wf, of _ t] unfolding new_deliveries_check ids
    by (simp add: list_all_iff MAX_HANDLER_ID_BYTES_def)
  moreover have "(e, h) \<notin> delivery_key ` set (deliveries d0)" for h
    using ok new by (auto simp: immediate_ok_def delivery_key_def)
  then have "distinct (map delivery_key (deliveries d @ ?rows))"
    using ok reg.ids_distinct [OF wf, of t]
    unfolding d map_append distinct_append new_deliveries_keys ids
    by (auto simp: immediate_ok_def distinct_map inj_on_def)
  ultimately show ?thesis
    using txts ev by (simp add: insert_deliveries_def Let_def)
qed

lemma reserve_ready:
  assumes "dispatch_ready ob w E ctx event tx payload h" and "dc_idempotency_key ctx = Some key"
  shows "reserve_stmt (dw_now w) (dc_tenant_id ctx) key (dw_event_id w) (tx_db tx) =
    (case find_reservation (dc_tenant_id ctx, key) (dispatch_keys (tx_db tx)) of
       Some r \<Rightarrow> Inr ((dk_event_id r, False), tx_db tx)
     | None \<Rightarrow> Inr ((dw_event_id w, True), (tx_db tx)
         \<lparr>dispatch_keys := dispatch_keys (tx_db tx) @ reservation_rows w ctx\<rparr>))"
proof -
  note r = assms(1) [unfolded dispatch_ready_def Let_def]
  note v = validate_dispatch_Inr [OF conjunct1 [OF r]]
  have "dw_event_id w \<notin> dk_event_id ` set (dispatch_keys (tx_db tx))"
    using r by (auto simp: db_ok_def deferred_ok_def)
  moreover have "text_ok (dc_tenant_id ctx)" "text_ok key"
    using r assms(2) by (simp_all add: dispatch_texts_def)
  moreover have "dispatch_keys_check \<lparr>dk_tenant_id = dc_tenant_id ctx, dk_idempotency_key = key,
      dk_event_id = dw_event_id w, dk_created_at = dw_now w\<rparr>"
    using v(3) v(5) [OF assms(2)] by (cases key) (simp_all add: dispatch_keys_check_def)
  ultimately show ?thesis
    using assms(2) by (simp add: reserve_stmt_def reservation_rows_def split: option.split)
qed

lemma dispatch_ready_head:
  fixes w :: "('p, 'q) dispatch_world"
  assumes "dispatch_ready ob w E ctx event tx payload h"
  defines "ids \<equiv> handler_ids_for (ob_registry ob) (EVENT_TYPE E)"
  shows "dispatch ob w E ctx event tx =
    (case dc_idempotency_key ctx of
       None \<Rightarrow> dispatch_insert ob w E ctx event payload ids tx
     | Some key \<Rightarrow>
         (case find_reservation (dc_tenant_id ctx, key) (dispatch_keys (tx_db tx)) of
            Some r \<Rightarrow> (Inr (Duplicate (dk_event_id r)), tx)
          | None \<Rightarrow> dispatch_insert ob w E ctx event payload ids (tx\<lparr>tx_db := (tx_db tx)
              \<lparr>dispatch_keys := dispatch_keys (tx_db tx) @ reservation_rows w ctx\<rparr>\<rparr>)))"
proof -
  note r = assms(1) [unfolded dispatch_ready_def Let_def]
  have "(encode_payload E event :: (bytes, 'p DispatchError) rresult) = Inr payload"
    using r by (simp add: encode_payload_def)
  moreover have "run_tx (dw_reserve_fault w) st tx = (case st (tx_db tx) of Inl e \<Rightarrow>
      (Inl e, tx\<lparr>tx_failed := True\<rparr>) | Inr (v, d) \<Rightarrow> (Inr v, tx\<lparr>tx_db := d\<rparr>))" for st :: "(uuid \<times> bool) stmt"
    using r by (auto simp: run_tx_def run_stmt_def split: sum.split)
  ultimately show ?thesis
    using r reserve_ready [OF assms(1)]
    by (auto simp: dispatch_def ids_def Let_def split: option.split)
qed

text \<open>Without a reservation, a ready dispatch comes down to its insertions and the push.\<close>

lemma dispatch_insert_ready:
  fixes w :: "('p, 'q) dispatch_world"
  assumes rdy: "dispatch_ready ob w E ctx event tx payload h" and len: "length (dw_jsonb_text w h) \<le> 16384"
    and keys: "tx1 = tx\<lparr>tx_db := (tx_db tx)\<lparr>dispatch_keys := dispatch_keys (tx_db tx) @ ks\<rparr>\<rparr>"
  defines "ids \<equiv> handler_ids_for (ob_registry ob) (EVENT_TYPE E)"
  defines "tx2 \<equiv> tx\<lparr>tx_db := inserted_rows w (mk_event_row E ctx event (dw_event_id w) (dw_now w) payload h)
    ids ks (tx_db tx)\<rparr>"
  shows "dispatch_insert ob w E ctx event payload ids tx1 =
    (if ids = [] then (Inr (NoHandlers (dw_event_id w)), tx2) else push_jobs w (ob_registry ob) ids tx2)"
proof -
  note r = rdy [unfolded dispatch_ready_def Let_def]
  let ?row = "mk_event_row E ctx event (dw_event_id w) (dw_now w) payload h"
  let ?d1 = "(tx_db tx)\<lparr>dispatch_keys := dispatch_keys (tx_db tx) @ ks\<rparr>"
  let ?d2 = "?d1\<lparr>events := events (tx_db tx) @ [?row]\<rparr>"
  from r obtain s where s: "(encode_headers (dw_to_string w) ctx :: (string, 'p DispatchError) rresult) = Inr s"
    "dw_jsonb_in w s = Inr h"
    by (auto simp: encode_headers_def)
  have ev: "insert_event (dw_jsonb_text w) (Inr h)
      (mk_event_row E ctx event (dw_event_id w) (dw_now w) payload) ?d1 = Inr (?row, ?d2)"
    using insert_event_ready [OF rdy len, of ?d1] by simp
  have "insert_deliveries (dw_now w) (dw_event_id w) ids ?d2 =
      Inr (length ids, ?d2\<lparr>deliveries := deliveries ?d2 @ new_deliveries (dw_now w) (dw_event_id w)
        (next_delivery_id ?d2) ids, next_delivery_id := next_delivery_id ?d2 + length ids\<rparr>)"
    using r by (intro insert_deliveries_ready [of "ob_registry ob" "dw_jsonb_text w" "tx_db tx" _ "EVENT_TYPE E"])
      (simp_all add: ids_def dispatch_texts_def db_ok_def)
  with ev have both: "insert_event_with_deliveries (dw_jsonb_text w) (dw_now w) (Inr h)
      (mk_event_row E ctx event (dw_event_id w) (dw_now w) payload) ids ?d1 =
      Inr (length ids, inserted_rows w ?row ids ks (tx_db tx))"
    by (simp add: insert_event_with_deliveries_def inserted_rows_def)
  show ?thesis
    using r s ev both unfolding keys tx2_def
    by (simp add: dispatch_insert_def run_tx_def run_stmt_def inserted_rows_def new_deliveries_def)
qed

section \<open>Properties of dispatch\<close>

text \<open>
  (C16) What a dispatch that returned \<open>Ok\<close> has done, exactly: the whole transaction after it is given. \<open>Duplicate\<close>: the
  tenant had reserved the key, the answer is the event of that reservation, and the transaction is as before.
  Otherwise the key, if any, was free, and three things were appended, with every column as written here: one event
  with the caller's data, the encoded payload and the headers as the server stores them; the reservation of the key for
  that event; one queued, untried delivery per registered handler, numbered from the sequence. Without handlers,
  which must then be allowed, the queue is as before; otherwise it took one envelope per delivery, in the same order,
  with the handler's id as concurrency key exactly for handlers with a limit. Nothing else changed.
\<close>

theorem dispatch_effect:
  assumes "dispatch ob w E ctx event tx = (Inr out, tx')"
    and "ids = handler_ids_for (ob_registry ob) (EVENT_TYPE E)"
  shows "(\<exists>key r. dc_idempotency_key ctx = Some key \<and>
      find_reservation (dc_tenant_id ctx, key) (dispatch_keys (tx_db tx)) = Some r \<and>
      out = Duplicate (dk_event_id r) \<and> tx' = tx) \<or>
    (\<exists>payload headers_text h q. to_vec E event = Inr payload \<and>
      dw_to_string w (case dc_headers ctx of Some m \<Rightarrow> m | None \<Rightarrow> []) = Inr headers_text \<and>
      dw_jsonb_in w headers_text = Inr h \<and>
      (\<forall>key. dc_idempotency_key ctx = Some key \<longrightarrow>
        find_reservation (dc_tenant_id ctx, key) (dispatch_keys (tx_db tx)) = None) \<and>
      tx' = \<lparr>tx_db =
          \<lparr>events = events (tx_db tx) @
             [\<lparr>ev_id = dw_event_id w, ev_event_type = EVENT_TYPE E, ev_producer_bc = dc_producer_bc ctx,
               ev_tenant_id = dc_tenant_id ctx, ev_aggregate_key = aggregate_key E event,
               ev_payload = payload, ev_headers = h, ev_created_at = dw_now w\<rparr>],
           dispatch_keys = dispatch_keys (tx_db tx) @
             (case dc_idempotency_key ctx of
                None \<Rightarrow> []
              | Some key \<Rightarrow> [\<lparr>dk_tenant_id = dc_tenant_id ctx, dk_idempotency_key = key,
                  dk_event_id = dw_event_id w, dk_created_at = dw_now w\<rparr>]),
           deliveries = deliveries (tx_db tx) @
             map (\<lambda>(n, hid). \<lparr>hd_id = n, hd_event_id = dw_event_id w, hd_handler_id = hid, hd_status = Queued,
               hd_attempts = 0, hd_last_error = None, hd_lease_token = None, hd_first_attempted_at = None,
               hd_last_attempted_at = None, hd_finished_at = None, hd_created_at = dw_now w,
               hd_updated_at = dw_now w\<rparr>) (zip [next_delivery_id (tx_db tx)..<next_delivery_id (tx_db tx) + length ids] ids),
           next_delivery_id = next_delivery_id (tx_db tx) + length ids\<rparr>,
         tx_queue = q, tx_failed = False\<rparr> \<and>
      (if ids = [] then ob_allow_no_handlers ob \<and> out = NoHandlers (dw_event_id w) \<and> q = tx_queue tx
       else out = Dispatched (dw_event_id w) (length ids) \<and>
         dw_push_batch w (map (\<lambda>hid. (\<lparr>env_event_id = dw_event_id w, env_handler_id = hid\<rparr>,
             case lookup (ob_registry ob) hid of
               None \<Rightarrow> None
             | Some rh \<Rightarrow> if rh_concurrency_limit rh = None then None else Some hid)) ids)
           (tx_queue tx) = Inr q))"
  using assms(1)
proof (cases rule: dispatch_Inr)
  case (duplicate key r)
  then show ?thesis by (intro disjI1 exI conjI)
next
  case (inserted h payload)
  obtain s where s: "dw_to_string w (case dc_headers ctx of Some m \<Rightarrow> m | None \<Rightarrow> []) = Inr s" "dw_jsonb_in w s = Inr h"
    using inserted(9) by (auto simp: stored_headers_def split: sum.splits)
  have env: "make_envelopes (ob_registry ob) (dw_event_id w) ids =
      map (\<lambda>hid. (\<lparr>env_event_id = dw_event_id w, env_handler_id = hid\<rparr>,
        case lookup (ob_registry ob) hid of None \<Rightarrow> None
        | Some rh \<Rightarrow> if rh_concurrency_limit rh = None then None else Some hid)) ids"
    by (auto simp: make_envelopes_def split: option.split bind_splits)
  have "tx' = \<lparr>tx_db = tx_db tx', tx_queue = tx_queue tx', tx_failed = False\<rparr>" using inserted(6) by simp
  also note inserted(7)
  finally have tx': "tx' = \<lparr>tx_db = inserted_rows w (mk_event_row E ctx event (dw_event_id w) (dw_now w) payload h) ids
      (reservation_rows w ctx) (tx_db tx), tx_queue = tx_queue tx', tx_failed = False\<rparr>"
    unfolding assms(2) .
  show ?thesis
    by (intro disjI2 exI [of _ payload] exI [of _ s] exI [of _ h] exI [of _ "tx_queue tx'"] conjI inserted(1,2) s)
      (use tx' inserted(3,4,8) env assms(2) in \<open>auto simp: inserted_rows_def mk_event_row_def reservation_rows_def
        new_deliveries_def new_delivery_def job_outcome_def\<close>)
qed

text \<open>A concrete world: the queue is the list of its jobs, and the headers are empty.\<close>

type_synonym sample_queue = "(HandlerEnvelope \<times> string option) list"

definition sample_world :: "uuid \<Rightarrow> (string, sample_queue) dispatch_world" where
  "sample_world e = \<lparr>dw_event_id = e, dw_now = 100, dw_to_string = (\<lambda>_. Inr ''{}''),
    dw_jsonb_in = (\<lambda>_. Inr (JObject [])), dw_jsonb_text = (\<lambda>_. ''{}''), dw_reserve_fault = NoFault,
    dw_insert_fault = NoFault, dw_push_batch = (\<lambda>envs q. Inr (q @ envs))\<rparr>"

definition order_event :: "nat DomainEvent" where
  "order_event = sample_event\<lparr>EVENT_TYPE := ''order''\<rparr>"

definition sample_dctx :: DispatchContext where
  "sample_dctx = with_idempotency_key ''k1'' (DispatchContext_new ''acme'')"

definition empty_tx :: "sample_queue txn" where
  "empty_tx = \<lparr>tx_db = empty_db, tx_queue = [], tx_failed = False\<rparr>"

lemma sample_outbox_ids: "handler_ids_for (ob_registry sample_outbox) ''order'' = [''audit'', ''bill'']"
  using outbox_build_ok_routes [OF sample_outbox_built] by (simp add: sample_builder_def sample_pending_def)

lemma sample_ready:
  "dispatch_ready sample_outbox (sample_world e) order_event sample_dctx 1 empty_tx [0] (JObject [])"
proof -
  have "registry_wf (ob_registry sample_outbox)"
    using registry_wf_built [OF sample_outbox_built] .
  moreover have "db_ok (\<lambda>_. ''{}'') empty_db"
    by (simp add: schema_defs empty_db_def)
  ultimately show ?thesis
    by (simp add: dispatch_ready_def Let_def validate_dispatch_def order_event_def sample_event_def
        sample_dctx_def with_idempotency_key_def DispatchContext_new_def limit_defs sample_outbox_ids
        dispatch_texts_def text_ok_def sample_world_def empty_tx_def empty_db_def)
qed

text \<open>
  What the checks in Rust, a server that stores the headers, a fresh id and working statements amount to: all of
  \<open>dispatch_ready\<close> but the texts without NUL, which nothing in Rust looks at.
\<close>

definition dispatch_checked ::
  "'b Outbox \<Rightarrow> ('p, 'q) dispatch_world \<Rightarrow> 'e DomainEvent \<Rightarrow> DispatchContext \<Rightarrow> 'e \<Rightarrow> 'q txn \<Rightarrow> bytes \<Rightarrow> json \<Rightarrow> bool"
where
  "dispatch_checked ob w E ctx event tx payload h \<longleftrightarrow>
    (let ids = handler_ids_for (ob_registry ob) (EVENT_TYPE E)
     in (validate_dispatch E ctx event :: (unit, 'p DispatchError) rresult) = Inr () \<and> to_vec E event = Inr payload \<and>
        length payload \<le> MAX_PAYLOAD_BYTES \<and> (ids \<noteq> [] \<or> ob_allow_no_handlers ob) \<and>
        registry_wf (ob_registry ob) \<and>
        (\<exists>s. dw_to_string w (case dc_headers ctx of Some m \<Rightarrow> m | None \<Rightarrow> []) = Inr s \<and>
          length s \<le> MAX_HEADERS_BYTES \<and> dw_jsonb_in w s = Inr h) \<and> is_json_object h \<and>
        dw_reserve_fault w = NoFault \<and> dw_insert_fault w = NoFault \<and> \<not> tx_failed tx \<and>
        dw_event_id w \<notin> ev_id ` set (events (tx_db tx)) \<and> db_ok (dw_jsonb_text w) (tx_db tx))"

lemma dispatch_ready_iff:
  "dispatch_ready ob w E ctx event tx payload h \<longleftrightarrow> dispatch_checked ob w E ctx event tx payload h \<and>
    list_all text_ok (dispatch_texts E ctx event (handler_ids_for (ob_registry ob) (EVENT_TYPE E)))"
  by (auto simp: dispatch_ready_def dispatch_checked_def Let_def)

text \<open>The two SQLSTATEs with which the server refuses what Rust has let pass.\<close>

definition unforeseen :: "string list" where
  "unforeseen = [''22021'', ''23514'']"

lemma insert_refused:
  assumes "validate_dispatch E ctx event = Inr ()" and "length payload \<le> 1048576" and "is_json_object h"
    and new: "e \<notin> ev_id ` set (events d)"
    and bad: "\<not> (list_all text_ok ([EVENT_TYPE E, dc_producer_bc ctx, dc_tenant_id ctx] @
      (case aggregate_key E event of None \<Rightarrow> [] | Some k \<Rightarrow> [k]) @ ids) \<and> length (jt h) \<le> 16384)"
    and mk_def: "mk = mk_event_row E ctx event e now payload"
  shows "\<exists>code \<in> set unforeseen. (ids = [] \<longrightarrow> insert_event jt (Inr h) mk d = Inl (pg_error code)) \<and>
    insert_event_with_deliveries jt now (Inr h) mk ids d = Inl (pg_error code)"
proof -
  let ?txts = "[EVENT_TYPE E, dc_producer_bc ctx, dc_tenant_id ctx] @ (case aggregate_key E event of None \<Rightarrow> [] | Some k \<Rightarrow> [k])"
  have ins: "insert_event jt (Inr h) mk d = (if \<not> list_all text_ok ?txts then Inl (pg_error ''22021'')
      else if \<not> length (jt h) \<le> 16384 then Inl (pg_error ''23514'')
      else Inr (mk h, d\<lparr>events := events d @ [mk h]\<rparr>))"
    using mk_event_row_check [OF assms(1,2)] assms(3) new
    unfolding insert_event_def Let_def sum.case mk_def by (simp add: mk_event_row_def)
  consider "\<not> list_all text_ok ?txts" | "list_all text_ok ?txts" "\<not> length (jt h) \<le> 16384"
    | "list_all text_ok ?txts" "length (jt h) \<le> 16384" "\<not> list_all text_ok ids"
    using bad by auto
  then show ?thesis
    by cases (auto simp: insert_event_with_deliveries_def ins unforeseen_def insert_deliveries_def Let_def)
qed

lemma dispatch_insert_refused:
  fixes w :: "('p, 'q) dispatch_world"
  assumes chk: "dispatch_checked ob w E ctx event tx payload h"
    and tx1: "\<not> tx_failed tx1" "events (tx_db tx1) = events (tx_db tx)"
    and bad: "\<not> (list_all text_ok ([EVENT_TYPE E, dc_producer_bc ctx, dc_tenant_id ctx] @
      (case aggregate_key E event of None \<Rightarrow> [] | Some k \<Rightarrow> [k]) @ ids) \<and> length (dw_jsonb_text w h) \<le> 16384)"
  shows "\<exists>code \<in> set unforeseen. dispatch_insert ob w E ctx event payload ids tx1 =
    (Inl (dispatch_error_from (pg_error code)), tx1\<lparr>tx_failed := True\<rparr>)"
proof -
  note c = chk [unfolded dispatch_checked_def Let_def]
  from c obtain s where s: "(encode_headers (dw_to_string w) ctx :: (string, 'p DispatchError) rresult) = Inr s"
    "dw_jsonb_in w s = Inr h" by (auto simp: encode_headers_def)
  from insert_refused [OF conjunct1 [OF c], of payload h "dw_event_id w" "tx_db tx1" ids "dw_jsonb_text w" _ "dw_now w"]
    c tx1(2) bad obtain code where "code \<in> set unforeseen"
    and "ids = [] \<longrightarrow> insert_event (dw_jsonb_text w) (Inr h) (mk_event_row E ctx event (dw_event_id w) (dw_now w) payload)
      (tx_db tx1) = Inl (pg_error code)"
    and "insert_event_with_deliveries (dw_jsonb_text w) (dw_now w) (Inr h)
      (mk_event_row E ctx event (dw_event_id w) (dw_now w) payload) ids (tx_db tx1) = Inl (pg_error code)"
    by (auto simp: MAX_PAYLOAD_BYTES_def)
  then show ?thesis
    using c s tx1(1) by (intro bexI [of _ code]) (simp_all add: dispatch_insert_def run_tx_def run_stmt_def Let_def)
qed

lemma dispatch_checked_head:
  fixes w :: "('p, 'q) dispatch_world"
  assumes chk: "dispatch_checked ob w E ctx event tx payload h"
    and ids: "ids = handler_ids_for (ob_registry ob) (EVENT_TYPE E)"
  shows "dispatch ob w E ctx event tx =
    (case dc_idempotency_key ctx of
       None \<Rightarrow> dispatch_insert ob w E ctx event payload ids tx
     | Some key \<Rightarrow>
         if \<not> list_all text_ok [dc_tenant_id ctx, key]
         then (Inl (dispatch_error_from (pg_error ''22021'')), tx\<lparr>tx_failed := True\<rparr>)
         else (case find_reservation (dc_tenant_id ctx, key) (dispatch_keys (tx_db tx)) of
            Some r \<Rightarrow> (Inr (Duplicate (dk_event_id r)), tx)
          | None \<Rightarrow> dispatch_insert ob w E ctx event payload ids (tx\<lparr>tx_db := (tx_db tx)
              \<lparr>dispatch_keys := dispatch_keys (tx_db tx) @ reservation_rows w ctx\<rparr>\<rparr>)))"
proof (cases "dc_idempotency_key ctx")
  case None
  with chk show ?thesis by (auto simp: dispatch_checked_def Let_def dispatch_def encode_payload_def ids)
next
  case (Some key)
  note c = chk [unfolded dispatch_checked_def Let_def]
  note v = validate_dispatch_Inr [OF conjunct1 [OF c]]
  have "dw_event_id w \<notin> dk_event_id ` set (dispatch_keys (tx_db tx))"
    using c by (auto simp: db_ok_def deferred_ok_def)
  moreover have "dispatch_keys_check \<lparr>dk_tenant_id = dc_tenant_id ctx, dk_idempotency_key = key,
      dk_event_id = dw_event_id w, dk_created_at = dw_now w\<rparr>"
    using v(3) v(5) [OF Some] by (cases key) (simp_all add: dispatch_keys_check_def)
  ultimately have "reserve_stmt (dw_now w) (dc_tenant_id ctx) key (dw_event_id w) (tx_db tx) =
    (if \<not> list_all text_ok [dc_tenant_id ctx, key] then Inl (pg_error ''22021'')
     else case find_reservation (dc_tenant_id ctx, key) (dispatch_keys (tx_db tx)) of
       Some r \<Rightarrow> Inr ((dk_event_id r, False), tx_db tx)
     | None \<Rightarrow> Inr ((dw_event_id w, True), (tx_db tx)
         \<lparr>dispatch_keys := dispatch_keys (tx_db tx) @ reservation_rows w ctx\<rparr>))"
    using Some by (simp add: reserve_stmt_def Let_def reservation_rows_def split: option.split)
  moreover have allow: "(ids = [] \<and> \<not> ob_allow_no_handlers ob) = False" using c ids by auto
  ultimately show ?thesis
    using c Some unfolding dispatch_def Let_def ids [symmetric] allow if_False
    by (simp add: encode_payload_def run_tx_def run_stmt_def split: option.split)
qed

lemma dispatch_fits:
  assumes rdy: "dispatch_ready ob w E ctx event tx payload h" and len: "length (dw_jsonb_text w h) \<le> 16384"
    and ids: "ids = handler_ids_for (ob_registry ob) (EVENT_TYPE E)"
    and none: "\<forall>key. dc_idempotency_key ctx = Some key \<longrightarrow>
      find_reservation (dc_tenant_id ctx, key) (dispatch_keys (tx_db tx)) = None"
  shows "if ids = [] then fst (dispatch ob w E ctx event tx) = Inr (NoHandlers (dw_event_id w))
    else (case dw_push_batch w (make_envelopes (ob_registry ob) (dw_event_id w) ids) (tx_queue tx) of
        Inl (e, aborted) \<Rightarrow> fst (dispatch ob w E ctx event tx) = Inl (PgwqPush e)
      | Inr q \<Rightarrow> fst (dispatch ob w E ctx event tx) = Inr (Dispatched (dw_event_id w) (length ids)))"
proof -
  have ins: "dispatch_insert ob w E ctx event payload ids
      (tx\<lparr>tx_db := (tx_db tx)\<lparr>dispatch_keys := dispatch_keys (tx_db tx) @ ks\<rparr>\<rparr>) =
    (let tx2 = tx\<lparr>tx_db := inserted_rows w (mk_event_row E ctx event (dw_event_id w) (dw_now w) payload h)
        ids ks (tx_db tx)\<rparr>
     in if ids = [] then (Inr (NoHandlers (dw_event_id w)), tx2) else push_jobs w (ob_registry ob) ids tx2)" for ks
    using dispatch_insert_ready [OF rdy len refl] by (simp add: ids Let_def)
  from ins [of "[]"] ins [of "reservation_rows w ctx"] none show ?thesis
    unfolding dispatch_ready_head [OF rdy] ids [symmetric]
    by (auto simp: push_jobs_def Let_def split: option.splits sum.split)
qed

lemma dispatch_refused:
  assumes chk: "dispatch_checked ob w E ctx event tx payload h"
    and ids: "ids = handler_ids_for (ob_registry ob) (EVENT_TYPE E)"
    and none: "\<forall>key. dc_idempotency_key ctx = Some key \<longrightarrow>
      find_reservation (dc_tenant_id ctx, key) (dispatch_keys (tx_db tx)) = None"
    and bad: "\<not> (list_all text_ok (dispatch_texts E ctx event ids) \<and> length (dw_jsonb_text w h) \<le> 16384)"
  shows "\<exists>code \<in> set unforeseen. fst (dispatch ob w E ctx event tx) = Inl (dispatch_error_from (pg_error code)) \<and>
    tx_failed (snd (dispatch ob w E ctx event tx))"
proof -
  have ok: "\<not> tx_failed tx" using chk by (simp add: dispatch_checked_def Let_def)
  have ref: "\<exists>code \<in> set unforeseen. dispatch_insert ob w E ctx event payload ids tx1 =
      (Inl (dispatch_error_from (pg_error code)), tx1\<lparr>tx_failed := True\<rparr>)"
    if "\<not> tx_failed tx1" "events (tx_db tx1) = events (tx_db tx)"
      "\<forall>key. dc_idempotency_key ctx = Some key \<longrightarrow> text_ok key" for tx1
    by (rule dispatch_insert_refused [OF chk that(1,2)])
      (use that(3) bad in \<open>auto simp: dispatch_texts_def split: option.splits\<close>)
  show ?thesis
  proof (cases "dc_idempotency_key ctx")
    case None
    with ref [of tx] ok show ?thesis by (auto simp: dispatch_checked_head [OF chk ids])
  next
    case (Some key)
    let ?tx = "tx\<lparr>tx_db := (tx_db tx)\<lparr>dispatch_keys := dispatch_keys (tx_db tx) @ reservation_rows w ctx\<rparr>\<rparr>"
    show ?thesis
    proof (cases "text_ok (dc_tenant_id ctx) \<and> text_ok key")
      case True
      with ref [of ?tx] ok Some none show ?thesis by (auto simp: dispatch_checked_head [OF chk ids])
    next
      case False
      with Some show ?thesis by (auto simp: dispatch_checked_head [OF chk ids] unforeseen_def)
    qed
  qed
qed

text \<open>
  (C17) When the schema refuses a dispatch that Rust let pass. Take one that passes the checks in Rust, with headers the
  server can store, a fresh event id, and working statements on tables that satisfy the schema. If its key is
  reserved, it reports the duplicate. Otherwise the server refuses it exactly when one of its texts holds a NUL or the
  stored text of its headers has more than 16384 bytes, with one of the two SQLSTATEs for that, and the
  transaction has failed; no other constraint can be met. If neither is the case, the result is \<open>NoHandlers\<close>
  without handlers, and is decided by the queue alone with them.
\<close>

theorem dispatch_succeeds:
  assumes "dispatch_checked ob w E ctx event tx payload h"
    and "ids = handler_ids_for (ob_registry ob) (EVENT_TYPE E)"
    and "reserved = (case dc_idempotency_key ctx of None \<Rightarrow> None
      | Some key \<Rightarrow> find_reservation (dc_tenant_id ctx, key) (dispatch_keys (tx_db tx)))"
  shows "(\<forall>r key. reserved = Some r \<and> dc_idempotency_key ctx = Some key \<and> text_ok (dc_tenant_id ctx) \<and> text_ok key \<longrightarrow>
      dispatch ob w E ctx event tx = (Inr (Duplicate (dk_event_id r)), tx)) \<and>
    (reserved = None \<longrightarrow>
      (if list_all text_ok (dispatch_texts E ctx event ids) \<and> length (dw_jsonb_text w h) \<le> 16384 then
         if ids = [] then fst (dispatch ob w E ctx event tx) = Inr (NoHandlers (dw_event_id w))
         else (case dw_push_batch w (make_envelopes (ob_registry ob) (dw_event_id w) ids) (tx_queue tx) of
             Inl (e, aborted) \<Rightarrow> fst (dispatch ob w E ctx event tx) = Inl (PgwqPush e)
           | Inr q \<Rightarrow> fst (dispatch ob w E ctx event tx) = Inr (Dispatched (dw_event_id w) (length ids)))
       else (\<exists>code \<in> {''22021'', ''23514''}.
         fst (dispatch ob w E ctx event tx) = Inl (dispatch_error_from (pg_error code)) \<and>
         tx_failed (snd (dispatch ob w E ctx event tx)))))"
proof (intro conjI impI)
  show "\<forall>r key. reserved = Some r \<and> dc_idempotency_key ctx = Some key \<and> text_ok (dc_tenant_id ctx) \<and> text_ok key \<longrightarrow>
      dispatch ob w E ctx event tx = (Inr (Duplicate (dk_event_id r)), tx)"
    by (auto simp: dispatch_checked_head [OF assms(1,2)] assms(3))
next
  assume "reserved = None"
  then have none: "\<forall>key. dc_idempotency_key ctx = Some key \<longrightarrow>
      find_reservation (dc_tenant_id ctx, key) (dispatch_keys (tx_db tx)) = None"
    by (auto simp: assms(3))
  show "if list_all text_ok (dispatch_texts E ctx event ids) \<and> length (dw_jsonb_text w h) \<le> 16384 then
      if ids = [] then fst (dispatch ob w E ctx event tx) = Inr (NoHandlers (dw_event_id w))
      else (case dw_push_batch w (make_envelopes (ob_registry ob) (dw_event_id w) ids) (tx_queue tx) of
          Inl (e, aborted) \<Rightarrow> fst (dispatch ob w E ctx event tx) = Inl (PgwqPush e)
        | Inr q \<Rightarrow> fst (dispatch ob w E ctx event tx) = Inr (Dispatched (dw_event_id w) (length ids)))
    else (\<exists>code \<in> {''22021'', ''23514''}.
      fst (dispatch ob w E ctx event tx) = Inl (dispatch_error_from (pg_error code)) \<and>
      tx_failed (snd (dispatch ob w E ctx event tx)))"
  proof (cases "list_all text_ok (dispatch_texts E ctx event ids) \<and> length (dw_jsonb_text w h) \<le> 16384")
    case True
    then have "dispatch_ready ob w E ctx event tx payload h" using assms(1,2) by (simp add: dispatch_ready_iff)
    from dispatch_fits [OF this _ assms(2) none] True show ?thesis by simp
  next
    case False
    from dispatch_refused [OF assms(1,2) none this] show ?thesis unfolding if_not_P [OF False] by (simp add: unforeseen_def)
  qed
qed

theorem dispatch_succeeds_witness:
  "fst (dispatch sample_outbox (sample_world 7) order_event sample_dctx 1 empty_tx) = Inr (Dispatched 7 2) \<and>
   (\<exists>code \<in> {''22021'', ''23514''}.
     fst (dispatch sample_outbox (sample_world 7) order_event (sample_dctx\<lparr>dc_producer_bc := [CHR 0x00]\<rparr>) 1 empty_tx) =
       Inl (dispatch_error_from (pg_error code)))"
proof -
  let ?bad = "sample_dctx\<lparr>dc_producer_bc := [CHR 0x00]\<rparr>"
  have dc: "dc_idempotency_key sample_dctx = Some ''k1''" "dc_producer_bc sample_dctx = []"
    by (simp_all add: sample_dctx_def with_idempotency_key_def DispatchContext_new_def)
  have "validate_dispatch order_event ?bad 1 = Inr ()"
    by (simp add: validate_dispatch_def order_event_def sample_event_def sample_dctx_def with_idempotency_key_def
        DispatchContext_new_def limit_defs)
  then have bad: "dispatch_checked sample_outbox (sample_world 7) order_event ?bad 1 empty_tx [0] (JObject [])"
    using sample_ready [of 7] by (simp add: dispatch_ready_def dispatch_checked_def Let_def)
  have chk: "dispatch_checked sample_outbox (sample_world 7) order_event sample_dctx 1 empty_tx [0] (JObject [])"
    "list_all text_ok (dispatch_texts order_event sample_dctx 1 [''audit'', ''bill''])"
    using sample_ready [of 7] by (simp_all add: dispatch_ready_iff order_event_def sample_event_def sample_outbox_ids)
  have ids: "[''audit'', ''bill''] = handler_ids_for (ob_registry sample_outbox) (EVENT_TYPE order_event)"
    by (simp add: order_event_def sample_event_def sample_outbox_ids)
  have free: "None = (case dc_idempotency_key ctx of None \<Rightarrow> None
      | Some key \<Rightarrow> find_reservation (dc_tenant_id ctx, key) (dispatch_keys (tx_db empty_tx)))" for ctx
    by (simp add: empty_tx_def empty_db_def find_reservation_def split: option.split)
  have nul: "\<not> list_all text_ok (dispatch_texts order_event ?bad 1 [''audit'', ''bill''])"
    by (simp add: dispatch_texts_def text_ok_def)
  from dispatch_succeeds [OF chk(1) ids free] chk(2) dispatch_succeeds [OF bad ids free] nul show ?thesis
    by (simp add: sample_world_def)
qed

lemma sample_dispatched:
  obtains tx' where "dispatch sample_outbox (sample_world 7) order_event sample_dctx 1 empty_tx =
    (Inr (Dispatched 7 2), tx')"
proof -
  have "fst (dispatch sample_outbox (sample_world 7) order_event sample_dctx 1 empty_tx) = Inr (Dispatched 7 2)"
    unfolding dispatch_ready_head [OF sample_ready]
    using dispatch_insert_ready [OF sample_ready [of 7] _ refl, of "reservation_rows (sample_world 7) sample_dctx"]
    by (simp add: sample_world_def order_event_def sample_event_def sample_outbox_ids sample_dctx_def
        with_idempotency_key_def DispatchContext_new_def empty_tx_def empty_db_def find_reservation_def
        push_jobs_def)
  then show ?thesis using that by (metis prod.collapse)
qed

theorem dispatch_effect_witness:
  "\<exists>tx'. dispatch sample_outbox (sample_world 7) order_event sample_dctx 1 empty_tx = (Inr (Dispatched 7 2), tx') \<and>
     map ev_id (events (tx_db tx')) = [7] \<and>
     map delivery_key (deliveries (tx_db tx')) = [(7, ''audit''), (7, ''bill'')]"
proof -
  obtain tx' where d: "dispatch sample_outbox (sample_world 7) order_event sample_dctx 1 empty_tx =
    (Inr (Dispatched 7 2), tx')" by (rule sample_dispatched)
  from dispatch_effect [OF d refl] d show ?thesis
    by (auto simp: sample_world_def order_event_def sample_event_def sample_outbox_ids empty_tx_def
        empty_db_def delivery_key_def upt_rec)
qed

fun outcome_event_id :: "DispatchOutcome \<Rightarrow> uuid" where
  "outcome_event_id (Dispatched e n) = e"
| "outcome_event_id (Duplicate e) = e"
| "outcome_event_id (NoHandlers e) = e"

lemma dispatch_reserves:
  assumes "dispatch ob w E ctx event tx = (Inr out, tx')" and "dc_idempotency_key ctx = Some key"
  shows "\<exists>r \<in> set (dispatch_keys (tx_db tx')). reservation_key r = (dc_tenant_id ctx, key) \<and>
    dk_event_id r = outcome_event_id out"
  using assms(1)
proof (cases rule: dispatch_Inr)
  case (duplicate key' r)
  then show ?thesis using assms(2) by (auto dest: dk_tab.look_SomeD)
next
  case (inserted h payload)
  then show ?thesis
    using assms(2) by (auto simp: inserted_rows_def reservation_rows_def reservation_key_def job_outcome_def)
qed

text \<open>
  (C2) Idempotency: once a dispatch with a key has succeeded, every later successful dispatch with the same tenant
  and key, of whatever event, from whatever process and after any number of other transactions that
  did not purge the reservation, answers \<open>Duplicate\<close> with the event of the first one and writes nothing.
\<close>

theorem dispatch_idempotent:
  assumes "dispatch ob w E ctx event tx = (Inr out, tx')"
    and "dispatch ob2 w2 E2 ctx2 event2 tx2 = (Inr out2, tx2')"
    and "dc_idempotency_key ctx = Some key" and "dc_idempotency_key ctx2 = Some key"
    and "dc_tenant_id ctx2 = dc_tenant_id ctx"
    and "set (dispatch_keys (tx_db tx')) \<subseteq> set (dispatch_keys (tx_db tx2))"
    and "immediate_ok jt (tx_db tx2)"
  shows "out2 = Duplicate (outcome_event_id out) \<and> tx2' = tx2"
proof -
  from dispatch_reserves [OF assms(1,3)] assms(6) obtain r where
    "r \<in> set (dispatch_keys (tx_db tx2))" and k: "reservation_key r = (dc_tenant_id ctx, key)"
    and e: "dk_event_id r = outcome_event_id out" by blast
  then have "find_reservation (dc_tenant_id ctx2, key) (dispatch_keys (tx_db tx2)) = Some r"
    using assms(5,7) dk_tab.look_in by (metis immediate_ok_def)
  with assms(2) show ?thesis
    by (cases rule: dispatch_Inr) (use assms(4) e in auto)
qed

theorem dispatch_idempotent_witness:
  "\<exists>tx' out2 tx2'. dispatch sample_outbox (sample_world 7) order_event sample_dctx 1 empty_tx =
      (Inr (Dispatched 7 2), tx') \<and>
    dispatch sample_outbox (sample_world 8) order_event sample_dctx 1 tx' = (Inr out2, tx2') \<and>
    out2 = Duplicate 7 \<and> tx2' = tx'"
proof -
  obtain tx' where d: "dispatch sample_outbox (sample_world 7) order_event sample_dctx 1 empty_tx =
    (Inr (Dispatched 7 2), tx')" by (rule sample_dispatched)
  have k: "dc_idempotency_key sample_dctx = Some ''k1''"
    by (simp add: sample_dctx_def with_idempotency_key_def)
  have ok: "immediate_ok (\<lambda>_. ''{}'') (tx_db tx')"
    using dispatch_immediate_ok [OF _ d] sample_ready [of 7]
    by (simp add: dispatch_ready_def Let_def db_ok_def sample_world_def)
  obtain r where r: "find_reservation (dc_tenant_id sample_dctx, ''k1'') (dispatch_keys (tx_db tx')) = Some r"
    using dispatch_reserves [OF d k] ok dk_tab.look_in by (metis immediate_ok_def)
  have nf: "\<not> tx_failed tx'" using d by (cases rule: dispatch_Inr) auto
  have "reserve_stmt 100 ''acme'' ''k1'' 8 (tx_db tx') = Inr ((dk_event_id r, False), tx_db tx')"
    using r by (simp add: reserve_stmt_def Let_def sample_dctx_def with_idempotency_key_def
        DispatchContext_new_def dispatch_keys_check_def text_ok_def)
  then have d2: "dispatch sample_outbox (sample_world 8) order_event sample_dctx 1 tx' =
      (Inr (Duplicate (dk_event_id r)), tx')"
    using nf by (simp add: dispatch_def validate_dispatch_def encode_payload_def order_event_def
        sample_event_def sample_dctx_def with_idempotency_key_def DispatchContext_new_def limit_defs
        sample_outbox_ids run_tx_def run_stmt_def sample_world_def)
  show ?thesis
    using dispatch_idempotent [OF d d2 k k refl subset_refl ok] d d2 by auto
qed

lemma dispatch_insert_Inl:
  assumes "dispatch_insert ob w E ctx event payload ids tx = (Inl e, tx')" and "\<And>p. e \<noteq> PgwqPush p"
  shows "tx' = tx \<or> tx_failed tx'"
  using assms
  by (auto simp: dispatch_insert_def push_jobs_def Let_def split: sum.splits prod.splits if_splits
      dest: run_tx_Inl)

lemma dispatch_Inl:
  assumes "dispatch ob w E ctx event tx = (Inl e, tx')" and "\<And>p. e \<noteq> PgwqPush p"
    and "dw_event_id w \<notin> ev_id ` set (events (tx_db tx))"
  shows "tx' = tx \<or> tx_failed tx' \<or> \<not> deferred_ok (tx_db tx')"
proof (cases "dc_idempotency_key ctx")
  case None
  then show ?thesis
    using assms(1)
    by (auto simp: dispatch_def Let_def split: sum.splits if_splits dest!: dispatch_insert_Inl [OF _ assms(2)])
next
  case (Some key)
  have step: "tx_failed tx' \<or> \<not> deferred_ok (tx_db tx')"
    if res: "run_tx (dw_reserve_fault w) (reserve_stmt (dw_now w) (dc_tenant_id ctx) key (dw_event_id w)) tx =
        (Inr (x, True), tx1)"
      and ins: "dispatch_insert ob w E ctx event payload ids tx1 = (Inl e, tx')" for x tx1 payload ids
  proof -
    from res obtain d where d: "reserve_stmt (dw_now w) (dc_tenant_id ctx) key (dw_event_id w) (tx_db tx) =
        Inr ((x, True), d)" "tx1 = tx\<lparr>tx_db := d\<rparr>"
      by (auto simp: run_tx_Inr)
    have "\<not> deferred_ok (tx_db tx1)"
      using reserve_stmt_Inr [OF d(1)] d(2) assms(3) by (auto simp: deferred_ok_def)
    with dispatch_insert_Inl [OF ins assms(2)] show ?thesis by blast
  qed
  with Some show ?thesis
    using assms(1)
    by (auto simp: dispatch_def Let_def split: sum.splits if_splits prod.splits dest: run_tx_Inl)
qed

text \<open>
  (C18) An error never leaves anything behind, the failure of the job queue aside: if a dispatch fails with
  any error but \<open>PgwqPush\<close>, the transaction is as it was, or the server will not commit it (a statement
  failed, or a reservation was written whose event was not, which the deferred foreign key refuses).
\<close>

theorem dispatch_error_leaves_nothing:
  assumes "dispatch ob w E ctx event tx = (Inl e, tx')" and "\<forall>p. e \<noteq> PgwqPush p"
    and "dw_event_id w \<notin> ev_id ` set (events (tx_db tx))"
  shows "tx' = tx \<or> tx_commit before tx' = before"
  using dispatch_Inl [OF assms(1) _ assms(3)] assms(2) by (auto simp: tx_commit_def)

theorem dispatch_error_leaves_nothing_witness:
  "\<exists>tx'. dispatch sample_outbox
      (sample_world 7 \<lparr>dw_to_string := \<lambda>_. Inr (replicate 20000 CHR ''x'')\<rparr>) order_event sample_dctx 1 empty_tx =
      (Inl (HeadersTooLarge 20000 MAX_HEADERS_BYTES), tx') \<and> tx' \<noteq> empty_tx \<and>
    tx_commit (empty_db, []) tx' = (empty_db, [])"
proof -
  let ?w = "sample_world 7 \<lparr>dw_to_string := \<lambda>_. Inr (replicate 20000 CHR ''x'')\<rparr>"
  let ?tx = "empty_tx\<lparr>tx_db := empty_db\<lparr>dispatch_keys := [\<lparr>dk_tenant_id = ''acme'',
    dk_idempotency_key = ''k1'', dk_event_id = 7, dk_created_at = 100\<rparr>]\<rparr>\<rparr>"
  have "reserve_stmt 100 ''acme'' ''k1'' 7 empty_db = Inr ((7, True), tx_db ?tx)"
    by (simp add: reserve_stmt_def Let_def dispatch_keys_check_def text_ok_def find_reservation_def empty_db_def)
  then have d: "dispatch sample_outbox ?w order_event sample_dctx 1 empty_tx =
      (Inl (HeadersTooLarge 20000 MAX_HEADERS_BYTES), ?tx)"
    by (simp add: dispatch_def validate_dispatch_def encode_payload_def order_event_def
        sample_event_def sample_dctx_def with_idempotency_key_def DispatchContext_new_def limit_defs
        sample_outbox_ids run_tx_def run_stmt_def sample_world_def empty_tx_def dispatch_insert_def
        encode_headers_def)
  moreover have "?tx \<noteq> empty_tx" by (simp add: empty_tx_def empty_db_def)
  moreover have "dw_event_id ?w \<notin> ev_id ` set (events (tx_db empty_tx))" by (simp add: empty_tx_def empty_db_def)
  ultimately show ?thesis
    using dispatch_error_leaves_nothing [OF d, of "(empty_db, [])"] by blast
qed

lemma dispatch_db_ok:
  assumes "db_ok (dw_jsonb_text w) (tx_db tx)" and "dispatch ob w E ctx event tx = (Inr out, tx')"
  shows "db_ok (dw_jsonb_text w) (tx_db tx')" "\<not> tx_failed tx'"
proof -
  have "immediate_ok (dw_jsonb_text w) (tx_db tx')"
    using dispatch_immediate_ok [OF _ assms(2)] assms(1) by (simp add: db_ok_def)
  moreover from assms(2) have "deferred_ok (tx_db tx') \<and> \<not> tx_failed tx'"
  proof (cases rule: dispatch_Inr)
    case duplicate
    then show ?thesis using assms(1) by (simp add: db_ok_def)
  next
    case inserted
    then show ?thesis
      using assms(1) by (auto simp: db_ok_def deferred_ok_def inserted_rows_def reservation_rows_def
          split: option.splits)
  qed
  ultimately show "db_ok (dw_jsonb_text w) (tx_db tx')" "\<not> tx_failed tx'" by (simp_all add: db_ok_def)
qed

lemma dispatch_ready_fresh:
  fixes w :: "('p, 'q) dispatch_world"
  assumes rdy: "dispatch_ready ob w E ctx event tx payload h" and len: "length (dw_jsonb_text w h) \<le> 16384"
    and fresh: "\<forall>key. dc_idempotency_key ctx = Some key \<longrightarrow>
      find_reservation (dc_tenant_id ctx, key) (dispatch_keys (tx_db tx)) = None"
    and ids: "ids = handler_ids_for (ob_registry ob) (EVENT_TYPE E)" "ids \<noteq> []"
  shows "dispatch ob w E ctx event tx = push_jobs w (ob_registry ob) ids
    (tx\<lparr>tx_db := inserted_rows w (mk_event_row E ctx event (dw_event_id w) (dw_now w) payload h) ids
      (reservation_rows w ctx) (tx_db tx)\<rparr>)"
proof (cases "dc_idempotency_key ctx")
  case None
  then show ?thesis
    using dispatch_insert_ready [OF rdy len, of tx "[]"] ids
    by (simp add: dispatch_ready_head [OF rdy] reservation_rows_def)
next
  case (Some key)
  then show ?thesis
    using dispatch_insert_ready [OF rdy len refl, of "reservation_rows w ctx"] ids fresh
    by (simp add: dispatch_ready_head [OF rdy])
qed

text \<open>
  (C38) The one leak, as documented: when the queue refuses the batch without aborting the transaction, the
  dispatch fails with \<open>PgwqPush\<close> but its event and its queued deliveries are written; a caller that commits
  all the same keeps deliveries that no job will ever serve.
\<close>

theorem push_failure_leaks:
  assumes "dispatch_ready ob w E ctx event tx payload h" and "length (dw_jsonb_text w h) \<le> 16384"
    and "dc_idempotency_key ctx = None"
    and "ids = handler_ids_for (ob_registry ob) (EVENT_TYPE E)" and "ids \<noteq> []"
    and "dw_push_batch w (make_envelopes (ob_registry ob) (dw_event_id w) ids) (tx_queue tx) = Inl (p, False)"
  shows "\<exists>tx'. dispatch ob w E ctx event tx = (Inl (PgwqPush p), tx') \<and>
    tx_commit before tx' = (tx_db tx', tx_queue tx) \<and>
    (\<forall>h \<in> set ids. \<exists>r. find_delivery (dw_event_id w, h) (deliveries (tx_db tx')) = Some r \<and> hd_status r = Queued)"
proof -
  let ?row = "mk_event_row E ctx event (dw_event_id w) (dw_now w) payload h"
  let ?d = "inserted_rows w ?row ids (reservation_rows w ctx) (tx_db tx)"
  have nf: "\<not> tx_failed tx" and ok: "db_ok (dw_jsonb_text w) (tx_db tx)"
    and new: "dw_event_id w \<notin> ev_id ` set (events (tx_db tx))"
    using assms(1) by (auto simp: dispatch_ready_def Let_def)
  have d: "dispatch ob w E ctx event tx = (Inl (PgwqPush p), tx\<lparr>tx_db := ?d\<rparr>)"
    using dispatch_ready_fresh [OF assms(1,2) _ assms(4,5)] assms(3,6) nf by (simp add: push_jobs_def)
  have def: "deferred_ok ?d"
    using ok assms(3) by (auto simp: db_ok_def deferred_ok_def inserted_rows_def reservation_rows_def)
  have imm: "immediate_ok (dw_jsonb_text w) ?d"
    using dispatch_immediate_ok [OF _ d] ok by (simp add: db_ok_def)
  have "\<exists>r. find_delivery (dw_event_id w, h) (deliveries ?d) = Some r \<and> hd_status r = Queued"
    if "h \<in> set ids" for h
  proof -
    let ?rows = "new_deliveries (dw_now w) (dw_event_id w) (next_delivery_id (tx_db tx)) ids"
    have "(dw_event_id w, h) \<in> delivery_key ` set ?rows"
      using that new_deliveries_keys [of "dw_now w" "dw_event_id w" "next_delivery_id (tx_db tx)" ids]
      by (metis (no_types, lifting) imageI list.set_map)
    then obtain r where r: "r \<in> set ?rows" "delivery_key r = (dw_event_id w, h)" by force
    then have "find_delivery (dw_event_id w, h) (deliveries ?d) = Some r"
      using find_in_deliveries [of "dw_jsonb_text w" ?d r] imm def by (simp add: db_ok_def inserted_rows_def)
    with r(1) show ?thesis by (auto dest!: new_deliveries_rows simp: new_delivery_def)
  qed
  then show ?thesis using d def nf by (auto simp: tx_commit_def)
qed

theorem push_failure_leaks_witness:
  "\<exists>tx'. dispatch sample_outbox (sample_world 7 \<lparr>dw_push_batch := \<lambda>_ _. Inl (''too many jobs'', False)\<rparr>)
      order_event (DispatchContext_new ''acme'') 1 empty_tx = (Inl (PgwqPush ''too many jobs''), tx') \<and>
    tx_commit (empty_db, []) tx' = (tx_db tx', []) \<and>
    (\<exists>r. find_delivery (7, ''bill'') (deliveries (tx_db tx')) = Some r \<and> hd_status r = Queued)"
proof -
  let ?w = "sample_world 7 \<lparr>dw_push_batch := \<lambda>_ _. Inl (''too many jobs'', False)\<rparr>"
  have rdy: "dispatch_ready sample_outbox ?w order_event (DispatchContext_new ''acme'') 1 empty_tx [0] (JObject [])"
    using sample_ready [of 7]
    by (simp add: dispatch_ready_def Let_def validate_dispatch_def sample_dctx_def with_idempotency_key_def
        DispatchContext_new_def dispatch_texts_def sample_world_def limit_defs order_event_def
        sample_event_def)
  show ?thesis
    using push_failure_leaks [OF rdy, of "[''audit'', ''bill'']" "''too many jobs''" "(empty_db, [])"]
    by (simp add: DispatchContext_new_def order_event_def sample_event_def sample_outbox_ids
        sample_world_def empty_tx_def) blast
qed

lemma dispatch_error_from_check:
  "dispatch_error_from (pg_error ''23514'') = Constraint (pg_error ''23514'')"
  by (simp add: dispatch_error_from_def pg_error_def starts_with_def)

text \<open>
  (C39) The limit on headers is not the schema's: Rust measures its own compact rendering, the CHECK measures
  the text of the stored \<open>jsonb\<close>, which has a space after each colon and comma. Headers that pass in Rust
  and exceed 16384 bytes as \<open>jsonb\<close> text are refused by the server, and the caller gets the opaque
  \<open>Constraint\<close> error instead of \<open>HeadersTooLarge\<close>.
\<close>

theorem headers_limit_gap:
  assumes "dispatch_ready ob w E ctx event tx payload h" and "length (dw_jsonb_text w h) > 16384"
    and "dc_idempotency_key ctx = None"
  shows "\<exists>tx'. dispatch ob w E ctx event tx = (Inl (Constraint (pg_error ''23514'')), tx') \<and> tx_failed tx'"
proof -
  note r = assms(1) [unfolded dispatch_ready_def Let_def]
  let ?ids = "handler_ids_for (ob_registry ob) (EVENT_TYPE E)"
  have "\<not> events_check (dw_jsonb_text w) (mk_event_row E ctx event (dw_event_id w) (dw_now w) payload h)"
    using mk_event_row_check [OF conjunct1 [OF r]] r assms(2) by (simp add: MAX_PAYLOAD_BYTES_def)
  then have "insert_event (dw_jsonb_text w) (Inr h)
      (mk_event_row E ctx event (dw_event_id w) (dw_now w) payload) (tx_db tx) = Inl (pg_error ''23514'')"
    using r by (auto simp: insert_event_def Let_def dispatch_texts_def mk_event_row_def list_all_iff
        split: option.splits)
  then have "\<exists>tx'. dispatch_insert ob w E ctx event payload ?ids tx =
      (Inl (Constraint (pg_error ''23514'')), tx') \<and> tx_failed tx'"
    using r by (auto simp: dispatch_insert_def encode_headers_def run_tx_def run_stmt_def
        insert_event_with_deliveries_def dispatch_error_from_check Let_def)
  then show ?thesis
    using dispatch_ready_head [OF assms(1)] assms(3) by simp
qed

theorem headers_limit_gap_witness:
  "\<exists>tx'. dispatch sample_outbox (sample_world 7 \<lparr>dw_to_string := \<lambda>_. Inr (replicate 16384 CHR ''x''),
      dw_jsonb_text := \<lambda>_. replicate 16390 CHR ''x''\<rparr>) order_event (DispatchContext_new ''acme'') 1 empty_tx =
    (Inl (Constraint (pg_error ''23514'')), tx') \<and> tx_failed tx'"
proof -
  let ?w = "sample_world 7 \<lparr>dw_to_string := \<lambda>_. Inr (replicate 16384 CHR ''x''),
      dw_jsonb_text := \<lambda>_. replicate 16390 CHR ''x''\<rparr>"
  have "dispatch_ready sample_outbox ?w order_event (DispatchContext_new ''acme'') 1 empty_tx [0] (JObject [])"
    using sample_ready [of 7]
    by (simp add: dispatch_ready_def Let_def validate_dispatch_def sample_dctx_def with_idempotency_key_def
        DispatchContext_new_def dispatch_texts_def sample_world_def limit_defs empty_tx_def empty_db_def
        schema_defs order_event_def sample_event_def)
  from headers_limit_gap [OF this] show ?thesis by (simp add: DispatchContext_new_def)
qed

end
