(* ===== verification/Outbox_Runtime.thy ===== *)
theory Outbox_Runtime
  imports Outbox_Schema
begin

text \<open>
  The worker side, \<^verbatim>\<open>src/src/runtime.rs\<close>: the four fenced audit transitions, the claiming statement,
  and \<open>handle_envelope\<close>, which \<open>pg_work_queue\<close> calls for every claimed job. Each statement takes the fault of
  its connection and the server's clock; between the claim and the final transition other sessions
  may commit (the argument \<open>others\<close>). The \<open>tokio\<close> timer is the parameter \<open>elapsed\<close>. The tracing events that the
  crate documents as its contract are returned as a list.
\<close>

section \<open>Tracing\<close>

datatype trace_event =
    FencedOut string uuid string
  | MarkPoolStarved string uuid string string
  | AuditMissing uuid string
  | WorkerSkip string
  | AuditInconsistent string
  | HandlerNotRegistered string
  | WorkerPanic uuid string string PanicPolicy
  | WorkerHandlerTimeout uuid string u32 u32 duration
  | WorkerSkipped string

definition log_fenced_out :: "string \<Rightarrow> uuid \<Rightarrow> string \<Rightarrow> nat \<Rightarrow> trace_event list" where
  "log_fenced_out new_status event_id handler_id rows_affected =
    (if rows_affected = 0 then [FencedOut new_status event_id handler_id] else [])"

section \<open>Mapping database errors\<close>

definition map_sql :: "sqlx_error \<Rightarrow> string \<Rightarrow> JobError" where
  "map_sql e ctx =
    (if is_sqlx_deterministic e
     then JobAbort (ctx @ '': deterministic db error: '' @ redact_db_error e)
     else JobRetry (ctx @ '': '' @ redact_db_error e) None)"

fun is_pool_or_io :: "sqlx_error \<Rightarrow> bool" where
  "is_pool_or_io PoolTimedOut = True"
| "is_pool_or_io PoolClosed = True"
| "is_pool_or_io (Io t) = True"
| "is_pool_or_io e = False"

definition map_mark_err ::
  "sqlx_error \<Rightarrow> string \<Rightarrow> uuid \<Rightarrow> string \<Rightarrow> JobError \<times> trace_event list" where
  "map_mark_err e kind event_id handler_id =
    (map_sql e kind,
     if is_pool_or_io e then [MarkPoolStarved kind event_id handler_id (redact_db_error e)] else [])"

section \<open>The fenced transitions\<close>

type_synonym worker_result = "(unit, JobError) rresult \<times> outbox_db \<times> trace_event list"

definition fenced_where :: "uuid \<Rightarrow> string \<Rightarrow> uuid \<Rightarrow> delivery_row \<Rightarrow> bool" where
  "fenced_where event_id handler_id lease_token r \<longleftrightarrow>
    hd_event_id r = event_id \<and> hd_handler_id r = handler_id \<and>
    hd_status r = Running \<and> hd_lease_token r = Some lease_token"

definition clean_reason :: "string \<Rightarrow> string" where
  "clean_reason reason = truncate_utf8 (sanitize_reason reason) MAX_LAST_ERROR_BYTES"

definition sent_set :: "timestamp \<Rightarrow> delivery_row \<Rightarrow> delivery_row" where
  "sent_set now r = r\<lparr>hd_status := Sent, hd_finished_at := Some now, hd_lease_token := None,
    hd_last_error := None\<rparr>"

definition awaiting_retry_set :: "string \<Rightarrow> timestamp \<Rightarrow> delivery_row \<Rightarrow> delivery_row" where
  "awaiting_retry_set last_error now r = r\<lparr>hd_status := AwaitingRetry, hd_lease_token := None,
    hd_last_error := Some last_error\<rparr>"

definition dead_set :: "string \<Rightarrow> timestamp \<Rightarrow> delivery_row \<Rightarrow> delivery_row" where
  "dead_set last_error now r = r\<lparr>hd_status := Dead, hd_finished_at := Some now,
    hd_lease_token := None, hd_last_error := Some last_error\<rparr>"

definition skipped_set :: "string \<Rightarrow> timestamp \<Rightarrow> delivery_row \<Rightarrow> delivery_row" where
  "skipped_set last_error now r = r\<lparr>hd_status := Skipped, hd_finished_at := Some now,
    hd_lease_token := None, hd_last_error := Some last_error\<rparr>"

lemmas [row_update_defs] = sent_set_def awaiting_retry_set_def dead_set_def skipped_set_def

text \<open>The \<open>UPDATE \<dots> WHERE event_id=$1 AND handler_id=$2 AND status='running' AND lease_token=$3\<close>.\<close>

definition fenced_update ::
  "timestamp \<Rightarrow> uuid \<Rightarrow> string \<Rightarrow> uuid \<Rightarrow> string list \<Rightarrow> (delivery_row \<Rightarrow> delivery_row) \<Rightarrow> nat stmt" where
  "fenced_update now event_id handler_id lease_token texts f d =
    (if list_all text_ok (handler_id # texts)
     then update_deliveries now (fenced_where event_id handler_id lease_token) f d
     else Inl (pg_error ''22021''))"

text \<open>\<open>.execute(&self.pool).await.map_err(\<dots>)?\<close>, then \<open>log_fenced_out\<close>, then \<open>Ok(())\<close>.\<close>

definition execute_mark ::
  "fault \<Rightarrow> string \<Rightarrow> string \<Rightarrow> uuid \<Rightarrow> string \<Rightarrow> nat stmt \<Rightarrow> outbox_db \<Rightarrow> worker_result" where
  "execute_mark f kind new_status event_id handler_id st d =
    (case run_stmt f st d of
       (Inl e, d') \<Rightarrow> (let (je, tr) = map_mark_err e kind event_id handler_id in (Inl je, d', tr))
     | (Inr rows, d') \<Rightarrow> (Inr (), d', log_fenced_out new_status event_id handler_id rows))"

definition mark_sent_fenced ::
  "fault \<Rightarrow> timestamp \<Rightarrow> uuid \<Rightarrow> string \<Rightarrow> uuid \<Rightarrow> outbox_db \<Rightarrow> worker_result" where
  "mark_sent_fenced f now event_id handler_id lease_token d =
    execute_mark f ''mark_sent'' ''sent'' event_id handler_id
      (fenced_update now event_id handler_id lease_token [] (sent_set now)) d"

definition mark_awaiting_retry_fenced ::
  "fault \<Rightarrow> timestamp \<Rightarrow> uuid \<Rightarrow> string \<Rightarrow> string \<Rightarrow> uuid \<Rightarrow> outbox_db \<Rightarrow> worker_result" where
  "mark_awaiting_retry_fenced f now event_id handler_id reason lease_token d =
    (let cleaned = sanitize_reason reason; trimmed = truncate_utf8 cleaned MAX_LAST_ERROR_BYTES
     in execute_mark f ''mark_retry'' ''awaiting_retry'' event_id handler_id
          (fenced_update now event_id handler_id lease_token [trimmed]
            (awaiting_retry_set trimmed now)) d)"

definition mark_dead_fenced ::
  "fault \<Rightarrow> timestamp \<Rightarrow> uuid \<Rightarrow> string \<Rightarrow> string \<Rightarrow> uuid \<Rightarrow> outbox_db \<Rightarrow> worker_result" where
  "mark_dead_fenced f now event_id handler_id reason lease_token d =
    (let cleaned = sanitize_reason reason; trimmed = truncate_utf8 cleaned MAX_LAST_ERROR_BYTES
     in execute_mark f ''mark_dead'' ''dead'' event_id handler_id
          (fenced_update now event_id handler_id lease_token [trimmed] (dead_set trimmed now)) d)"

definition mark_skipped_fenced ::
  "fault \<Rightarrow> timestamp \<Rightarrow> uuid \<Rightarrow> string \<Rightarrow> string \<Rightarrow> uuid \<Rightarrow> outbox_db \<Rightarrow> worker_result" where
  "mark_skipped_fenced f now event_id handler_id reason lease_token d =
    (let cleaned = sanitize_reason reason; trimmed = truncate_utf8 cleaned MAX_LAST_ERROR_BYTES
     in execute_mark f ''mark_skipped'' ''skipped'' event_id handler_id
          (fenced_update now event_id handler_id lease_token [trimmed] (skipped_set trimmed now)) d)"

section \<open>The claim\<close>

text \<open>\<open>i32::try_from(ctx.attempt).unwrap_or(i32::MAX)\<close>.\<close>

definition attempt_param :: "u32 \<Rightarrow> int" where
  "attempt_param a = (if int (unat a) \<le> i32_max then int (unat a) else i32_max)"

definition claim_set :: "timestamp \<Rightarrow> int \<Rightarrow> uuid \<Rightarrow> delivery_row \<Rightarrow> delivery_row" where
  "claim_set now attempt lease_token r =
    r\<lparr>hd_status := Running, hd_lease_token := Some lease_token,
      hd_attempts := max (hd_attempts r) (max attempt 1),
      hd_last_attempted_at := Some now,
      hd_first_attempted_at := Some (coalesce (hd_first_attempted_at r) now),
      hd_last_error := None\<rparr>"

declare claim_set_def [row_update_defs]

definition claimable :: "uuid \<Rightarrow> string \<Rightarrow> delivery_row \<Rightarrow> bool" where
  "claimable event_id handler_id r \<longleftrightarrow>
    delivery_key r = (event_id, handler_id) \<and> \<not> terminal_status (hd_status r)"

record claim_row =
  cr_payload :: bytes
  cr_tenant_id :: string
  cr_producer_bc :: string
  cr_headers :: json
  cr_dispatch_idempotency_key :: "string option"
  cr_prev_status :: "string option"
  cr_did_update :: bool

text \<open>
  The CTE: \<open>locked\<close> reads the row under a lock, \<open>updated\<close> claims it unless it is terminal (a data-modifying
  CTE runs whether or not the main query returns a row), and the main query joins the event with its
  reservation.
\<close>

definition claim_stmt :: "timestamp \<Rightarrow> uuid \<Rightarrow> string \<Rightarrow> int \<Rightarrow> uuid \<Rightarrow> claim_row option stmt" where
  "claim_stmt now event_id handler_id attempt lease_token d =
    (if \<not> text_ok handler_id then Inl (pg_error ''22021'')
     else case update_deliveries now (claimable event_id handler_id)
            (claim_set now attempt lease_token) d of
       Inl e \<Rightarrow> Inl e
     | Inr (n, d') \<Rightarrow>
         Inr (case find_event event_id (events d) of
                None \<Rightarrow> None
              | Some e \<Rightarrow> Some
                  \<lparr>cr_payload = ev_payload e, cr_tenant_id = ev_tenant_id e,
                   cr_producer_bc = ev_producer_bc e, cr_headers = ev_headers e,
                   cr_dispatch_idempotency_key =
                     map_option dk_idempotency_key
                       (find (\<lambda>k. dk_event_id k = ev_id e) (dispatch_keys d)),
                   cr_prev_status = map_option (\<lambda>r. as_str (hd_status r))
                     (find_delivery (event_id, handler_id) (deliveries d)),
                   cr_did_update = (n \<noteq> 0)\<rparr>, d'))"

section \<open>Running the handler\<close>

record 'b OutboxRuntime =
  rt_config :: "'b OutboxConfig"
  rt_registry :: Registry

definition effective_timeout :: "'b OutboxRuntime \<Rightarrow> RegisteredHandler \<Rightarrow> duration" where
  "effective_timeout rt rh =
    (case rh_handler_timeout rh of Some d \<Rightarrow> d | None \<Rightarrow> cfg_handler_timeout (rt_config rt))"

definition our_timeout :: "'b OutboxRuntime \<Rightarrow> RegisteredHandler \<Rightarrow> duration" where
  "our_timeout rt rh = max (effective_timeout rt rh - HANDLER_CLEANUP_BUDGET) (from_millis 100)"

text \<open>
  \<open>elapsed d t\<close>: whether \<open>tokio::time::timeout(d, fut)\<close> reports \<open>Elapsed\<close> for a future that completes after
  \<open>t\<close>. Documented: it does not when the future completes before the duration has passed, it does when
  the future is still pending after it.
\<close>

type_synonym timer = "duration \<Rightarrow> duration option \<Rightarrow> bool"

definition timer_ok :: "timer \<Rightarrow> bool" where
  "timer_ok elapsed \<longleftrightarrow> (\<forall>d. elapsed d None) \<and>
    (\<forall>d t. t < d \<longrightarrow> \<not> elapsed d (Some t)) \<and> (\<forall>d t. d < t \<longrightarrow> elapsed d (Some t))"

definition invoke_handler ::
  "'b OutboxRuntime \<Rightarrow> timer \<Rightarrow> HandlerEnvelope \<Rightarrow> JobContext \<Rightarrow> RegisteredHandler \<Rightarrow> bytes \<Rightarrow>
   HandlerContext \<Rightarrow> HandlerOutcome \<times> trace_event list"
where
  "invoke_handler rt elapsed env ctx rh payload hctx =
    (let user_fut = rh_handler rh payload hctx
     in if elapsed (our_timeout rt rh) (completes_after user_fut)
        then (OutcomeHandler (handler_retry ''handler_timeout''),
              [WorkerHandlerTimeout (env_event_id env) (env_handler_id env) (jc_attempt ctx)
                 (jc_max_attempts ctx) (effective_timeout rt rh)])
        else case ending user_fut of
          Returned o1 \<Rightarrow> (o1, [])
        | Panicked p \<Rightarrow>
            (let msg = sanitize_reason (panic_payload_message p);
                 tr = [WorkerPanic (env_event_id env) (env_handler_id env) msg
                         (cfg_panic_policy (rt_config rt))]
             in case cfg_panic_policy (rt_config rt) of
                  PanicPolicy_Retry \<Rightarrow> (OutcomeHandler (handler_retry (''panic: '' @ msg)), tr)
                | PanicPolicy_Dead \<Rightarrow> (OutcomeHandler (handler_abort (''panic: '' @ msg)), tr)))"

fun translate_outcome :: "HandlerOutcome \<Rightarrow> DecodeStrategy \<Rightarrow> (unit, HandlerError) rresult" where
  "translate_outcome OutcomeOk s = Inr ()"
| "translate_outcome (OutcomeHandler err) s = Inl err"
| "translate_outcome (DecodeFailed reason) DecodeStrategy_Retry = Inl (Retry reason None)"
| "translate_outcome (DecodeFailed reason) DecodeStrategy_Abort = Inl (Abort reason)"

text \<open>Step 7: the terminal transition, and the verdict for \<open>pg_work_queue\<close>.\<close>

text \<open>A failed mark is returned at once (the \<open>?\<close> operator); otherwise the verdict follows.\<close>

fun and_return :: "worker_result \<Rightarrow> (unit, JobError) rresult \<Rightarrow> worker_result" where
  "and_return (Inl e, d, tr) res = (Inl e, d, tr)"
| "and_return (Inr u, d, tr) res = (res, d, tr)"

fun settle ::
  "fault \<Rightarrow> timestamp \<Rightarrow> HandlerEnvelope \<Rightarrow> JobContext \<Rightarrow> (unit, HandlerError) rresult \<Rightarrow>
   outbox_db \<Rightarrow> worker_result"
where
  "settle f now env ctx (Inr _) d =
    and_return (mark_sent_fenced f now (env_event_id env) (env_handler_id env) (jc_lease_token ctx) d)
      (Inr ())"
| "settle f now env ctx (Inl (Retry reason retry_in)) d =
    and_return
      (if jc_attempt ctx \<ge> jc_max_attempts ctx
       then mark_dead_fenced f now (env_event_id env) (env_handler_id env) reason (jc_lease_token ctx) d
       else mark_awaiting_retry_fenced f now (env_event_id env) (env_handler_id env) reason
              (jc_lease_token ctx) d)
      (Inl (JobRetry (clean_reason reason) retry_in))"
| "settle f now env ctx (Inl (Skip reason)) d =
    (case and_return
        (mark_skipped_fenced f now (env_event_id env) (env_handler_id env) reason (jc_lease_token ctx) d)
        (Inl (JobAbort (''skipped: '' @ clean_reason reason))) of
      (res, d', tr) \<Rightarrow> (res, d', WorkerSkipped (sanitize_reason reason) # tr))"
| "settle f now env ctx (Inl (Abort reason)) d =
    and_return
      (mark_dead_fenced f now (env_event_id env) (env_handler_id env) reason (jc_lease_token ctx) d)
      (Inl (JobAbort (clean_reason reason)))"

section \<open>handle\_envelope\<close>

record worker_io =
  io_claim_fault :: fault
  io_claim_now :: timestamp
  io_mark_fault :: fault
  io_mark_now :: timestamp

text \<open>From the registry check on: the row is claimed by this worker.\<close>

definition process_claimed ::
  "'b OutboxRuntime \<Rightarrow> timer \<Rightarrow> worker_io \<Rightarrow> (outbox_db \<Rightarrow> outbox_db) \<Rightarrow> HandlerEnvelope \<Rightarrow> JobContext \<Rightarrow>
   claim_row \<Rightarrow> outbox_db \<Rightarrow> worker_result"
where
  "process_claimed rt elapsed io others env ctx row d =
    (case lookup (rt_registry rt) (env_handler_id env) of
       None \<Rightarrow>
         (case and_return
             (mark_dead_fenced (io_mark_fault io) (io_mark_now io) (env_event_id env)
               (env_handler_id env) ''handler not registered'' (jc_lease_token ctx) (others d))
             (Inl (JobAbort ''handler not registered'')) of
           (res, d', tr) \<Rightarrow> (res, d', HandlerNotRegistered (env_handler_id env) # tr))
     | Some rh \<Rightarrow>
         (let hctx = \<lparr>hc_event_id = env_event_id env, hc_tenant_id = cr_tenant_id row,
                      hc_producer_bc = cr_producer_bc row, hc_attempt = jc_attempt ctx,
                      hc_max_attempts = jc_max_attempts ctx,
                      hc_delivery_key = jc_idempotency_key ctx,
                      hc_dispatch_idempotency_key = cr_dispatch_idempotency_key row,
                      hc_headers = parse_headers (cr_headers row)\<rparr>;
              (outcome, tr1) = invoke_handler rt elapsed env ctx rh (cr_payload row) hctx
          in case settle (io_mark_fault io) (io_mark_now io) env ctx
                (translate_outcome outcome (cfg_decode_error_strategy (rt_config rt))) (others d) of
               (res, d', tr2) \<Rightarrow> (res, d', tr1 @ tr2)))"

definition handle_envelope ::
  "'b OutboxRuntime \<Rightarrow> timer \<Rightarrow> worker_io \<Rightarrow> (outbox_db \<Rightarrow> outbox_db) \<Rightarrow> HandlerEnvelope \<Rightarrow> JobContext \<Rightarrow>
   outbox_db \<Rightarrow> worker_result"
where
  "handle_envelope rt elapsed io others env ctx d =
    (case run_stmt (io_claim_fault io)
        (claim_stmt (io_claim_now io) (env_event_id env) (env_handler_id env)
          (attempt_param (jc_attempt ctx)) (jc_lease_token ctx)) d of
       (Inl e, d1) \<Rightarrow> (Inl (map_sql e ''fetch delivery''), d1, [])
     | (Inr None, d1) \<Rightarrow> (Inl (JobAbort ''event row missing''), d1, [])
     | (Inr (Some row), d1) \<Rightarrow>
         (case cr_prev_status row of
            None \<Rightarrow> (Inl (JobAbort ''handler_delivery row not found''), d1,
                     [AuditMissing (env_event_id env) (env_handler_id env)])
          | Some prev \<Rightarrow>
              if \<not> cr_did_update row then
                if prev \<in> {''sent'', ''dead'', ''skipped''} then (Inr (), d1, [WorkerSkip prev])
                else (Inl (JobRetry ''audit row UPDATE collision'' None), d1, [AuditInconsistent prev])
              else process_claimed rt elapsed io others env ctx row d1))"

section \<open>The clock\<close>

text \<open>
  The server's clock has reached a row when it is not before the row's last attempt (or its creation).
  Under the temporal constraint it is then not before any other time of the row either.
\<close>

definition clock_reached :: "timestamp \<Rightarrow> delivery_row \<Rightarrow> bool" where
  "clock_reached now r \<longleftrightarrow> coalesce (hd_last_attempted_at r) (hd_created_at r) \<le> now"

lemma clock_reached_all:
  assumes "temporal_check r" and "clock_reached now r"
  shows "hd_created_at r \<le> now"
    "hd_first_attempted_at r = Some t \<Longrightarrow> hd_last_attempted_at r \<noteq> None \<Longrightarrow> t \<le> now"
  using assms by (auto simp: temporal_check_def clock_reached_def coalesce_def split: option.splits)

lemma claim_set_check:
  assumes chk: "deliveries_check r" and act: "\<not> terminal_status (hd_status r)"
    and clk: "clock_reached now r"
  shows "deliveries_check (set_updated_at now (claim_set now a t r))"
proof -
  have t: "temporal_check r" and s: "status_invariants r" using chk by (auto simp: deliveries_check_def)
  have fin: "hd_finished_at r = None" using s act by (auto simp: status_invariants_def)
  have first: "hd_first_attempted_at r = Some u \<Longrightarrow> hd_created_at r \<le> u \<and> u \<le> now" for u
    using t s clock_reached_all [OF t clk] by (auto simp: status_invariants_def temporal_check_def)
  have "temporal_check (set_updated_at now (claim_set now a t r))"
    using fin first clock_reached_all(1) [OF t clk]
    by (auto simp: temporal_check_def set_updated_at_def claim_set_def coalesce_def split: option.split)
  moreover have "status_invariants (set_updated_at now (claim_set now a t r))"
    using fin by (simp add: status_invariants_def set_updated_at_def claim_set_def)
  ultimately show ?thesis
    using chk by (simp add: deliveries_check_def set_updated_at_def claim_set_def)
qed

section \<open>Interface: a fenced transition\<close>

text \<open>
  The four \<open>mark_*_fenced\<close> operations share one contract. A mark either leaves the tables alone or is the
  \<open>UPDATE\<close> of the rows that are running under the caller's lease; without a fault it is that update and
  reports success; the new row keeps its identity, drops the lease and has the target status.
\<close>

locale fenced_mark =
  fixes mark :: "fault \<Rightarrow> timestamp \<Rightarrow> uuid \<Rightarrow> string \<Rightarrow> uuid \<Rightarrow> outbox_db \<Rightarrow> worker_result"
    and set_row :: "timestamp \<Rightarrow> delivery_row \<Rightarrow> delivery_row"
    and target :: DeliveryStatus
    and kind :: string
  assumes mark_db: "mark f now e h t d = (res, d', tr) \<Longrightarrow>
      d' = d \<or> (\<exists>n. update_deliveries now (fenced_where e h t) (set_row now) d = Inr (n, d'))"
    and mark_update: "text_ok h \<Longrightarrow>
      update_deliveries now (fenced_where e h t) (set_row now) d = Inr (n, d') \<Longrightarrow>
      mark NoFault now e h t d = (Inr (), d', log_fenced_out (as_str target) e h n)"
    and mark_lost: "mark (FailBefore x) now e h t d =
      (Inl (map_sql x kind), d, snd (map_mark_err x kind e h))"
    and mark_answer_lost: "text_ok h \<Longrightarrow>
      update_deliveries now (fenced_where e h t) (set_row now) d = Inr (n, d') \<Longrightarrow>
      mark (FailAfter x) now e h t d = (Inl (map_sql x kind), d', snd (map_mark_err x kind e h))"
    and keeps: "hd_id (set_row now r) = hd_id r" "delivery_key (set_row now r) = delivery_key r"
      "hd_attempts (set_row now r) = hd_attempts r" "hd_created_at (set_row now r) = hd_created_at r"
    and sets: "hd_status (set_row now r) = target" "hd_lease_token (set_row now r) = None"
    and check: "deliveries_check r \<Longrightarrow> hd_status r = Running \<Longrightarrow> clock_reached now r \<Longrightarrow>
      deliveries_check (set_updated_at now (set_row now r))"
begin

lemma mark_db_ok: "db_ok jt d \<Longrightarrow> mark f now e h t d = (res, d', tr) \<Longrightarrow> db_ok jt d'"
  using mark_db update_deliveries_db_ok keeps by blast

text \<open>A worker whose lease is not the row's changes nothing, whatever the connection does.\<close>

lemma mark_stale:
  assumes "\<And>r. r \<in> set (deliveries d) \<Longrightarrow> \<not> fenced_where e h t r"
    and "mark f now e h t d = (res, d', tr)"
  shows "d' = d"
  using mark_db [OF assms(2)] update_deliveries_no_match [of d "fenced_where e h t"] assms(1) by auto

lemma mark_stale_ok:
  assumes "\<And>r. r \<in> set (deliveries d) \<Longrightarrow> \<not> fenced_where e h t r" and "text_ok h"
  shows "mark NoFault now e h t d = (Inr (), d, [FencedOut (as_str target) e h])"
  using mark_update [OF assms(2) update_deliveries_no_match [OF assms(1)]]
  by (simp add: log_fenced_out_def)

text \<open>The holder of the lease moves exactly its row to the target status.\<close>

lemma holder_update:
  assumes ok: "db_ok jt d" and fnd: "find_delivery (e, h) (deliveries d) = Some r"
    and run: "hd_status r = Running" "hd_lease_token r = Some t"
    and clk: "clock_reached now r"
  obtains d' where "update_deliveries now (fenced_where e h t) (set_row now) d = Inr (1, d')"
    "find_delivery (e, h) (deliveries d') = Some (set_updated_at now (set_row now r))"
    "\<And>k. k \<noteq> (e, h) \<Longrightarrow> find_delivery k (deliveries d') = find_delivery k (deliveries d)"
    "events d' = events d" "dispatch_keys d' = dispatch_keys d" "db_ok jt d'"
proof -
  have key: "delivery_key r = (e, h)" and mem: "r \<in> set (deliveries d)"
    using hd_tab.look_SomeD [OF fnd] by auto
  have p: "fenced_where e h t r"
    using key run by (simp add: fenced_where_def delivery_key_def)
  have chk: "deliveries_check (set_updated_at now (set_row now r))"
    using ok mem run clk by (intro check) (auto simp: schema_defs)
  obtain d' where d':
    "update_deliveries now (fenced_where e h t) (set_row now) d = Inr (1, d')"
    "find_delivery (e, h) (deliveries d') = Some (set_updated_at now (set_row now r))"
    "\<And>k. k \<noteq> (e, h) \<Longrightarrow> find_delivery k (deliveries d') = find_delivery k (deliveries d)"
    "events d' = events d" "dispatch_keys d' = dispatch_keys d"
    by (rule update_one_delivery [where p = "fenced_where e h t" and f = "set_row now", OF ok fnd p])
      (auto simp: fenced_where_def delivery_key_def chk keeps(2) [unfolded delivery_key_def])
  moreover have "db_ok jt d'"
    using update_deliveries_db_ok [OF ok d'(1)] keeps by blast
  ultimately show ?thesis by (intro that)
qed

lemma mark_holder:
  assumes "db_ok jt d" and "find_delivery (e, h) (deliveries d) = Some r"
    and "hd_status r = Running" "hd_lease_token r = Some t"
    and "clock_reached now r" and "text_ok h"
  obtains d' where "mark NoFault now e h t d = (Inr (), d', [])"
    "mark (FailAfter x) now e h t d = (Inl (map_sql x kind), d', snd (map_mark_err x kind e h))"
    "find_delivery (e, h) (deliveries d') = Some (set_updated_at now (set_row now r))"
    "\<And>k. k \<noteq> (e, h) \<Longrightarrow> find_delivery k (deliveries d') = find_delivery k (deliveries d)"
    "events d' = events d" "dispatch_keys d' = dispatch_keys d" "db_ok jt d'"
proof (rule holder_update [OF assms(1-5)])
  fix d'
  assume "update_deliveries now (fenced_where e h t) (set_row now) d = Inr (1, d')"
    "find_delivery (e, h) (deliveries d') = Some (set_updated_at now (set_row now r))"
    "\<And>k. k \<noteq> (e, h) \<Longrightarrow> find_delivery k (deliveries d') = find_delivery k (deliveries d)"
    "events d' = events d" "dispatch_keys d' = dispatch_keys d" "db_ok jt d'"
  moreover note mark_update [OF assms(6) this(1)] mark_answer_lost [OF assms(6) this(1), of x]
  ultimately show ?thesis by (intro that) (simp_all add: log_fenced_out_def)
qed

text \<open>A mark that reaches the server never breaks a constraint.\<close>

lemma mark_never_fails:
  assumes "db_ok jt d" and "\<forall>r \<in> set (deliveries d). clock_reached now r" and "text_ok h"
  shows "\<exists>d' tr. mark NoFault now e h t d = (Inr (), d', tr) \<and> db_ok jt d'"
proof -
  have "list_all (\<lambda>r. deliveries_check (set_updated_at now (set_row now r)))
      (filter (fenced_where e h t) (deliveries d))"
    using assms(1,2) check by (auto simp: list_all_iff fenced_where_def schema_defs)
  then obtain n d' where "update_deliveries now (fenced_where e h t) (set_row now) d = Inr (n, d')"
    by (simp add: update_deliveries_def)
  from mark_update [OF assms(3) this] show ?thesis
    using mark_db_ok [OF assms(1)] by blast
qed

text \<open>Rows that are not running keep their value under every mark.\<close>

lemma mark_keeps_row:
  assumes "db_ok jt d" and "mark f now e h t d = (res, d', tr)"
    and "find_delivery k (deliveries d) = Some r"
    and "hd_status r \<noteq> Running \<or> hd_lease_token r \<noteq> Some t \<or> k \<noteq> (e, h)"
  shows "find_delivery k (deliveries d') = Some r"
proof (rule disjE [OF mark_db [OF assms(2)]])
  assume "d' = d" then show ?thesis using assms(3) by simp
next
  assume "\<exists>n. update_deliveries now (fenced_where e h t) (set_row now) d = Inr (n, d')"
  then obtain n where upd: "update_deliveries now (fenced_where e h t) (set_row now) d = Inr (n, d')" ..
  have "\<not> fenced_where e h t r"
    using hd_tab.look_SomeD [OF assms(3)] assms(4) by (auto simp: fenced_where_def delivery_key_def)
  moreover have "delivery_key (set_updated_at now (set_row now s)) = delivery_key s" for s
    using keeps(2) [of now s] by (simp add: set_updated_at_def delivery_key_def)
  ultimately show ?thesis
    using assms(3) by (simp add: update_deliveries_frame(4) [OF upd] hd_tab.look_update_where)
qed

end

text \<open>The transitions of the crate implement the contract.\<close>

lemma execute_mark_db:
  assumes "execute_mark f kind new_status e h (fenced_update now e h t texts g) d = (res, d', tr)"
  shows "d' = d \<or> (\<exists>n. update_deliveries now (fenced_where e h t) g d = Inr (n, d'))"
  using assms run_stmt_db [of f "fenced_update now e h t texts g" d]
  by (auto simp: execute_mark_def fenced_update_def split: prod.splits sum.splits if_splits)

lemma execute_mark_update:
  assumes "list_all text_ok (h # texts)"
    and "update_deliveries now (fenced_where e h t) g d = Inr (n, d')"
  shows "execute_mark NoFault kind new_status e h (fenced_update now e h t texts g) d =
    (Inr (), d', log_fenced_out new_status e h n)"
  using assms by (simp add: execute_mark_def fenced_update_def run_stmt_def)

lemma execute_mark_lost:
  "execute_mark (FailBefore x) kind new_status e h st d =
    (Inl (map_sql x kind), d, snd (map_mark_err x kind e h))"
  by (simp add: execute_mark_def run_stmt_def map_mark_err_def)

lemma execute_mark_answer_lost:
  assumes "list_all text_ok (h # texts)"
    and "update_deliveries now (fenced_where e h t) g d = Inr (n, d')"
  shows "execute_mark (FailAfter x) kind new_status e h (fenced_update now e h t texts g) d =
    (Inl (map_sql x kind), d', snd (map_mark_err x kind e h))"
  using assms by (simp add: execute_mark_def fenced_update_def run_stmt_def map_mark_err_def)

lemmas execute_mark_facts = execute_mark_update execute_mark_lost execute_mark_answer_lost

lemma text_ok_clean_reason [simp]: "text_ok (clean_reason s)"
  using set_truncate_utf8 [of "sanitize_reason s"] nul_sanitize_reason [of s]
  by (auto simp: text_ok_def clean_reason_def)

lemma length_clean_reason: "length (clean_reason s) \<le> 8192"
  using length_truncate_utf8 [of "sanitize_reason s" MAX_LAST_ERROR_BYTES]
  by (simp add: clean_reason_def MAX_LAST_ERROR_BYTES_def)

lemma marked_check:
  assumes "deliveries_check r" and "hd_status r = Running" and "clock_reached now r"
  shows "deliveries_check (set_updated_at now (sent_set now r))"
    "deliveries_check (set_updated_at now (awaiting_retry_set (clean_reason s) now r))"
    "deliveries_check (set_updated_at now (dead_set (clean_reason s) now r))"
    "deliveries_check (set_updated_at now (skipped_set (clean_reason s) now r))"
proof -
  have t: "temporal_check r" and s: "status_invariants r" using assms(1) by (auto simp: deliveries_check_def)
  note clk = clock_reached_all(1) [OF t assms(3)] assms(3) [unfolded clock_reached_def]
  show "deliveries_check (set_updated_at now (sent_set now r))"
    "deliveries_check (set_updated_at now (awaiting_retry_set (clean_reason s) now r))"
    "deliveries_check (set_updated_at now (dead_set (clean_reason s) now r))"
    "deliveries_check (set_updated_at now (skipped_set (clean_reason s) now r))"
    using assms(1,2) t s clk length_clean_reason [of s]
    by (auto simp: deliveries_check_def temporal_check_def status_invariants_def set_updated_at_def
        row_update_defs)
qed

lemma set_row_keeps:
  "hd_id (sent_set now r) = hd_id r" "delivery_key (sent_set now r) = delivery_key r"
  "hd_id (awaiting_retry_set s now r) = hd_id r" "delivery_key (awaiting_retry_set s now r) = delivery_key r"
  "hd_id (dead_set s now r) = hd_id r" "delivery_key (dead_set s now r) = delivery_key r"
  "hd_id (skipped_set s now r) = hd_id r" "delivery_key (skipped_set s now r) = delivery_key r"
  "hd_id (claim_set now a t r) = hd_id r" "delivery_key (claim_set now a t r) = delivery_key r"
  by (simp_all add: row_update_defs delivery_key_def)

lemma mark_fenced_eqs:
  "mark_awaiting_retry_fenced f now e h reason t d =
    execute_mark f ''mark_retry'' ''awaiting_retry'' e h
      (fenced_update now e h t [clean_reason reason] (awaiting_retry_set (clean_reason reason) now)) d"
  "mark_dead_fenced f now e h reason t d =
    execute_mark f ''mark_dead'' ''dead'' e h
      (fenced_update now e h t [clean_reason reason] (dead_set (clean_reason reason) now)) d"
  "mark_skipped_fenced f now e h reason t d =
    execute_mark f ''mark_skipped'' ''skipped'' e h
      (fenced_update now e h t [clean_reason reason] (skipped_set (clean_reason reason) now)) d"
  by (simp_all add: mark_awaiting_retry_fenced_def mark_dead_fenced_def mark_skipped_fenced_def
      clean_reason_def Let_def)

interpretation sent: fenced_mark mark_sent_fenced sent_set Sent "''mark_sent''"
  by unfold_locales
    (auto simp: mark_sent_fenced_def execute_mark_facts set_row_keeps marked_check
      dest: execute_mark_db, simp_all add: row_update_defs)

interpretation await: fenced_mark "\<lambda>f now e h t d. mark_awaiting_retry_fenced f now e h reason t d"
  "awaiting_retry_set (clean_reason reason)" AwaitingRetry "''mark_retry''" for reason
  by unfold_locales
    (auto simp: mark_fenced_eqs execute_mark_facts set_row_keeps marked_check
      dest: execute_mark_db, simp_all add: row_update_defs)

interpretation dead: fenced_mark "\<lambda>f now e h t d. mark_dead_fenced f now e h reason t d"
  "dead_set (clean_reason reason)" Dead "''mark_dead''" for reason
  by unfold_locales
    (auto simp: mark_fenced_eqs execute_mark_facts set_row_keeps marked_check
      dest: execute_mark_db, simp_all add: row_update_defs)

interpretation skipped: fenced_mark "\<lambda>f now e h t d. mark_skipped_fenced f now e h reason t d"
  "skipped_set (clean_reason reason)" Skipped "''mark_skipped''" for reason
  by unfold_locales
    (auto simp: mark_fenced_eqs execute_mark_facts set_row_keeps marked_check
      dest: execute_mark_db, simp_all add: row_update_defs)

section \<open>The verdict of a delivery, as a specification\<close>

text \<open>
  What a delivery should come to, stated from the handler's result alone: the status of the row, its
  error text and the answer to \<open>pg_work_queue\<close>; \<open>exhausted\<close> says that this was the last attempt.
\<close>

fun final_status :: "bool \<Rightarrow> (unit, HandlerError) rresult \<Rightarrow> DeliveryStatus" where
  "final_status exhausted (Inr u) = Sent"
| "final_status exhausted (Inl (Retry reason retry_in)) = (if exhausted then Dead else AwaitingRetry)"
| "final_status exhausted (Inl (Skip reason)) = Skipped"
| "final_status exhausted (Inl (Abort reason)) = Dead"

fun final_error :: "(unit, HandlerError) rresult \<Rightarrow> string option" where
  "final_error (Inr u) = None"
| "final_error (Inl (Retry reason retry_in)) = Some (clean_reason reason)"
| "final_error (Inl (Skip reason)) = Some (clean_reason reason)"
| "final_error (Inl (Abort reason)) = Some (clean_reason reason)"

fun job_verdict :: "(unit, HandlerError) rresult \<Rightarrow> (unit, JobError) rresult" where
  "job_verdict (Inr u) = Inr ()"
| "job_verdict (Inl (Retry reason retry_in)) = Inl (JobRetry (clean_reason reason) retry_in)"
| "job_verdict (Inl (Skip reason)) = Inl (JobAbort (''skipped: '' @ clean_reason reason))"
| "job_verdict (Inl (Abort reason)) = Inl (JobAbort (clean_reason reason))"

text \<open>The mark that \<open>settle\<close> chooses, with its row update and its name; it is a fenced transition.\<close>

fun settle_mark ::
  "bool \<Rightarrow> (unit, HandlerError) rresult \<Rightarrow> fault \<Rightarrow> timestamp \<Rightarrow> uuid \<Rightarrow> string \<Rightarrow> uuid \<Rightarrow> outbox_db \<Rightarrow>
   worker_result"
where
  "settle_mark exhausted (Inr u) f now e h t d = mark_sent_fenced f now e h t d"
| "settle_mark exhausted (Inl (Retry reason retry_in)) f now e h t d =
    (if exhausted then mark_dead_fenced f now e h reason t d
     else mark_awaiting_retry_fenced f now e h reason t d)"
| "settle_mark exhausted (Inl (Skip reason)) f now e h t d = mark_skipped_fenced f now e h reason t d"
| "settle_mark exhausted (Inl (Abort reason)) f now e h t d = mark_dead_fenced f now e h reason t d"

fun settle_set :: "bool \<Rightarrow> (unit, HandlerError) rresult \<Rightarrow> timestamp \<Rightarrow> delivery_row \<Rightarrow> delivery_row" where
  "settle_set exhausted (Inr u) = sent_set"
| "settle_set exhausted (Inl (Retry reason retry_in)) =
    (if exhausted then dead_set (clean_reason reason) else awaiting_retry_set (clean_reason reason))"
| "settle_set exhausted (Inl (Skip reason)) = skipped_set (clean_reason reason)"
| "settle_set exhausted (Inl (Abort reason)) = dead_set (clean_reason reason)"

fun settle_kind :: "bool \<Rightarrow> (unit, HandlerError) rresult \<Rightarrow> string" where
  "settle_kind exhausted (Inr u) = ''mark_sent''"
| "settle_kind exhausted (Inl (Retry reason retry_in)) = (if exhausted then ''mark_dead'' else ''mark_retry'')"
| "settle_kind exhausted (Inl (Skip reason)) = ''mark_skipped''"
| "settle_kind exhausted (Inl (Abort reason)) = ''mark_dead''"

fun settle_trace :: "(unit, HandlerError) rresult \<Rightarrow> trace_event list" where
  "settle_trace (Inl (Skip reason)) = [WorkerSkipped (sanitize_reason reason)]"
| "settle_trace res = []"

lemma result_cases:
  fixes res :: "(unit, HandlerError) rresult"
  obtains (Ok) "res = Inr ()" | (Retry) reason retry_in where "res = Inl (Retry reason retry_in)"
  | (Skip) reason where "res = Inl (Skip reason)" | (Abort) reason where "res = Inl (Abort reason)"
  by (cases res; (cases "projl res")?) auto

lemma settle_fenced_mark:
  "fenced_mark (settle_mark exhausted res) (settle_set exhausted res) (final_status exhausted res)
     (settle_kind exhausted res)"
proof (cases res rule: result_cases)
  case Ok
  show ?thesis unfolding Ok settle_mark.simps settle_set.simps final_status.simps settle_kind.simps
    by (rule sent.fenced_mark_axioms)
next
  case (Retry reason retry_in)
  show ?thesis
    using dead.fenced_mark_axioms [of reason] await.fenced_mark_axioms [of reason]
    unfolding Retry by (cases exhausted) (simp_all add: settle_mark.simps [abs_def])
next
  case (Skip reason)
  show ?thesis
    using skipped.fenced_mark_axioms [of reason] unfolding Skip by (simp add: settle_mark.simps [abs_def])
next
  case (Abort reason)
  show ?thesis
    using dead.fenced_mark_axioms [of reason] unfolding Abort by (simp add: settle_mark.simps [abs_def])
qed

interpretation settled: fenced_mark "settle_mark exhausted res" "settle_set exhausted res"
  "final_status exhausted res" "settle_kind exhausted res" for exhausted res
  by (rule settle_fenced_mark)

section \<open>handle\_envelope against the specification\<close>

text \<open>What the handler must be given for an event, and the result of the delivery that follows from it.\<close>

definition delivery_context ::
  "event_row \<Rightarrow> dispatch_key_row list \<Rightarrow> HandlerEnvelope \<Rightarrow> JobContext \<Rightarrow> HandlerContext" where
  "delivery_context ev keys env ctx =
    \<lparr>hc_event_id = env_event_id env, hc_tenant_id = ev_tenant_id ev, hc_producer_bc = ev_producer_bc ev,
     hc_attempt = jc_attempt ctx, hc_max_attempts = jc_max_attempts ctx,
     hc_delivery_key = jc_idempotency_key ctx,
     hc_dispatch_idempotency_key =
       map_option dk_idempotency_key (find (\<lambda>k. dk_event_id k = ev_id ev) keys),
     hc_headers = parse_headers (ev_headers ev)\<rparr>"

definition delivery_result ::
  "'b OutboxRuntime \<Rightarrow> timer \<Rightarrow> HandlerEnvelope \<Rightarrow> JobContext \<Rightarrow> event_row \<Rightarrow> dispatch_key_row list \<Rightarrow>
   (unit, HandlerError) rresult" where
  "delivery_result rt elapsed env ctx ev keys =
    (case lookup (rt_registry rt) (env_handler_id env) of
       None \<Rightarrow> Inl (Abort ''handler not registered'')
     | Some rh \<Rightarrow> translate_outcome
         (fst (invoke_handler rt elapsed env ctx rh (ev_payload ev) (delivery_context ev keys env ctx)))
         (cfg_decode_error_strategy (rt_config rt)))"

definition claim_view :: "event_row \<Rightarrow> dispatch_key_row list \<Rightarrow> delivery_row option \<Rightarrow> bool \<Rightarrow> claim_row" where
  "claim_view ev keys prev upd =
    \<lparr>cr_payload = ev_payload ev, cr_tenant_id = ev_tenant_id ev, cr_producer_bc = ev_producer_bc ev,
     cr_headers = ev_headers ev,
     cr_dispatch_idempotency_key =
       map_option dk_idempotency_key (find (\<lambda>k. dk_event_id k = ev_id ev) keys),
     cr_prev_status = map_option (\<lambda>r. as_str (hd_status r)) prev, cr_did_update = upd\<rparr>"

abbreviation attempts_exhausted :: "JobContext \<Rightarrow> bool" where
  "attempts_exhausted ctx \<equiv> jc_attempt ctx \<ge> jc_max_attempts ctx"

fun with_trace :: "trace_event list \<Rightarrow> worker_result \<Rightarrow> worker_result" where
  "with_trace pre (res, d, tr) = (res, d, pre @ tr)"

lemma with_trace_Nil [simp]: "with_trace [] x = x"
  by (cases x) simp

lemma with_trace_append: "with_trace (a @ b) x = with_trace a (with_trace b x)"
  by (cases x) simp

lemma with_trace_db [simp]: "fst (snd (with_trace pre x)) = fst (snd x)" "fst (with_trace pre x) = fst x"
  by (cases x; simp)+

lemma settle_eq:
  "settle f now env ctx res d =
    with_trace (settle_trace res)
      (and_return (settle_mark (attempts_exhausted ctx) res f now (env_event_id env) (env_handler_id env)
         (jc_lease_token ctx) d) (job_verdict res))"
  by (cases res rule: result_cases) (auto split: prod.split)

lemma clean_reason_printable:
  assumes "list_all (\<lambda>x. (32::nat) \<le> of_char x \<and> of_char x < (127::nat)) s" and "length s \<le> 8192"
  shows "clean_reason s = s"
  using assms by (simp add: clean_reason_def sanitize_reason_printable truncate_utf8_def
      MAX_LAST_ERROR_BYTES_def)

lemma clean_not_registered: "clean_reason ''handler not registered'' = ''handler not registered''"
  by (rule clean_reason_printable) simp_all

lemma process_claimed_eq:
  assumes "res = delivery_result rt elapsed env ctx ev keys"
  shows "\<exists>pre. process_claimed rt elapsed io others env ctx (claim_view ev keys prev upd) d =
    with_trace pre
      (and_return (settle_mark (attempts_exhausted ctx) res (io_mark_fault io) (io_mark_now io)
         (env_event_id env) (env_handler_id env) (jc_lease_token ctx) (others d)) (job_verdict res))"
proof (cases "lookup (rt_registry rt) (env_handler_id env)")
  case None
  show ?thesis
    by (intro exI [of _ "[HandlerNotRegistered (env_handler_id env)]"])
      (simp add: process_claimed_def assms delivery_result_def None clean_not_registered split: prod.split)
next
  case (Some rh)
  obtain out tr1 where inv: "invoke_handler rt elapsed env ctx rh (ev_payload ev)
      (delivery_context ev keys env ctx) = (out, tr1)" by fastforce
  then have "process_claimed rt elapsed io others env ctx (claim_view ev keys prev upd) d =
      with_trace tr1 (settle (io_mark_fault io) (io_mark_now io) env ctx res (others d))"
    by (simp add: process_claimed_def assms delivery_result_def Some claim_view_def
        delivery_context_def split: prod.split)
  then show ?thesis
    by (metis settle_eq with_trace_append)
qed

lemma claim_stmt_eq:
  "claim_stmt now e h a t d =
    (if \<not> text_ok h then Inl (pg_error ''22021'')
     else case update_deliveries now (claimable e h) (claim_set now a t) d of
       Inl x \<Rightarrow> Inl x
     | Inr (n, d') \<Rightarrow> Inr (map_option (\<lambda>ev. claim_view ev (dispatch_keys d)
           (find_delivery (e, h) (deliveries d)) (n \<noteq> 0)) (find_event e (events d)), d'))"
  by (auto simp: claim_stmt_def claim_view_def split: sum.split option.split)

lemma claim_stmt_db:
  assumes "claim_stmt now e h a t d = Inr (v, d')"
  obtains n where "update_deliveries now (claimable e h) (claim_set now a t) d = Inr (n, d')"
  using assms by (auto simp: claim_stmt_eq split: if_splits sum.splits)

lemma claim_db_ok [schema_intro]:
  "db_ok jt d \<Longrightarrow> claim_stmt now e h a t d = Inr (v, d') \<Longrightarrow> db_ok jt d'"
  by (erule claim_stmt_db) (rule update_deliveries_db_ok, assumption, assumption, simp_all add: set_row_keeps)

lemma claim_active:
  assumes ok: "db_ok jt d" and fnd: "find_delivery (e, h) (deliveries d) = Some r"
    and act: "\<not> terminal_status (hd_status r)" and clk: "clock_reached now r" and tok: "text_ok h"
    and ev: "find_event e (events d) = Some ev"
  obtains d' where
    "claim_stmt now e h a t d = Inr (Some (claim_view ev (dispatch_keys d) (Some r) True), d')"
    "find_delivery (e, h) (deliveries d') = Some (set_updated_at now (claim_set now a t r))"
    "\<And>k. k \<noteq> (e, h) \<Longrightarrow> find_delivery k (deliveries d') = find_delivery k (deliveries d)"
    "events d' = events d" "dispatch_keys d' = dispatch_keys d" "db_ok jt d'"
proof -
  have key: "delivery_key r = (e, h)" and mem: "r \<in> set (deliveries d)"
    using hd_tab.look_SomeD [OF fnd] by auto
  have p: "claimable e h r" using key act by (simp add: claimable_def)
  have chk: "deliveries_check (set_updated_at now (claim_set now a t r))"
    using ok mem act clk by (intro claim_set_check) (auto simp: schema_defs)
  obtain d' where d': "update_deliveries now (claimable e h) (claim_set now a t) d = Inr (1, d')"
    "find_delivery (e, h) (deliveries d') = Some (set_updated_at now (claim_set now a t r))"
    "\<And>k. k \<noteq> (e, h) \<Longrightarrow> find_delivery k (deliveries d') = find_delivery k (deliveries d)"
    "events d' = events d" "dispatch_keys d' = dispatch_keys d"
    by (rule update_one_delivery [where p = "claimable e h" and f = "claim_set now a t", OF ok fnd p])
      (auto simp: claimable_def set_row_keeps chk)
  moreover have "claim_stmt now e h a t d = Inr (Some (claim_view ev (dispatch_keys d) (Some r) True), d')"
    using d'(1) tok ev fnd by (simp add: claim_stmt_eq)
  moreover have "db_ok jt d'" using claim_db_ok [OF ok] calculation by blast
  ultimately show ?thesis by (intro that)
qed

lemma claim_inactive:
  assumes "\<And>r. r \<in> set (deliveries d) \<Longrightarrow> \<not> claimable e h r" and "text_ok h"
  shows "claim_stmt now e h a t d = Inr (map_option (\<lambda>ev. claim_view ev (dispatch_keys d)
      (find_delivery (e, h) (deliveries d)) False) (find_event e (events d)), d)"
  using assms(2) update_deliveries_no_match [OF assms(1)] by (simp add: claim_stmt_eq)

lemma not_claimable_terminal:
  assumes ok: "db_ok jt d" and fnd: "find_delivery (e, h) (deliveries d) = Some r"
    and fin: "terminal_status (hd_status r)" and s: "s \<in> set (deliveries d)"
  shows "\<not> claimable e h s"
  using find_in_deliveries [OF ok s] fnd fin by (auto simp: claimable_def)

lemma event_of_delivery:
  assumes ok: "db_ok jt d" and fnd: "find_delivery (e, h) (deliveries d) = Some r"
  obtains ev where "find_event e (events d) = Some ev"
proof -
  have "hd_event_id r = e" "r \<in> set (deliveries d)"
    using hd_tab.look_SomeD [OF fnd] by (auto simp: delivery_key_def)
  then have "e \<in> ev_id ` set (events d)" using ok by (auto simp: schema_defs)
  then show ?thesis using that ev_tab.look_None_iff [of e "events d"] by fastforce
qed

lemma handle_envelope_active:
  assumes ok: "db_ok jt d" and tok: "text_ok (env_handler_id env)"
    and fnd: "find_delivery (env_event_id env, env_handler_id env) (deliveries d) = Some r"
    and act: "\<not> terminal_status (hd_status r)"
    and ev: "find_event (env_event_id env) (events d) = Some ev"
    and clk: "clock_reached (io_claim_now io) r" and nf: "io_claim_fault io = NoFault"
    and res: "res = delivery_result rt elapsed env ctx ev (dispatch_keys d)"
  obtains d1 pre where
    "handle_envelope rt elapsed io others env ctx d =
      with_trace pre (and_return (settle_mark (attempts_exhausted ctx) res (io_mark_fault io)
         (io_mark_now io) (env_event_id env) (env_handler_id env) (jc_lease_token ctx) (others d1))
         (job_verdict res))"
    "find_delivery (env_event_id env, env_handler_id env) (deliveries d1) =
      Some (set_updated_at (io_claim_now io)
        (claim_set (io_claim_now io) (attempt_param (jc_attempt ctx)) (jc_lease_token ctx) r))"
    "\<And>k. k \<noteq> (env_event_id env, env_handler_id env) \<Longrightarrow>
      find_delivery k (deliveries d1) = find_delivery k (deliveries d)"
    "events d1 = events d" "dispatch_keys d1 = dispatch_keys d" "db_ok jt d1"
proof -
  obtain d1 where d1: "claim_stmt (io_claim_now io) (env_event_id env) (env_handler_id env)
      (attempt_param (jc_attempt ctx)) (jc_lease_token ctx) d =
      Inr (Some (claim_view ev (dispatch_keys d) (Some r) True), d1)"
    "find_delivery (env_event_id env, env_handler_id env) (deliveries d1) =
      Some (set_updated_at (io_claim_now io)
        (claim_set (io_claim_now io) (attempt_param (jc_attempt ctx)) (jc_lease_token ctx) r))"
    "\<And>k. k \<noteq> (env_event_id env, env_handler_id env) \<Longrightarrow>
      find_delivery k (deliveries d1) = find_delivery k (deliveries d)"
    "events d1 = events d" "dispatch_keys d1 = dispatch_keys d" "db_ok jt d1"
    by (rule claim_active [OF ok fnd act clk tok ev,
        where a = "attempt_param (jc_attempt ctx)" and t = "jc_lease_token ctx"]) blast
  have prev: "cr_prev_status (claim_view ev (dispatch_keys d) (Some r) True) = Some (as_str (hd_status r))"
    "cr_did_update (claim_view ev (dispatch_keys d) (Some r) True)"
    by (simp_all add: claim_view_def)
  have "handle_envelope rt elapsed io others env ctx d =
      process_claimed rt elapsed io others env ctx (claim_view ev (dispatch_keys d) (Some r) True) d1"
    using prev by (simp add: handle_envelope_def nf run_stmt_def d1(1))
  moreover obtain pre where "process_claimed rt elapsed io others env ctx
      (claim_view ev (dispatch_keys d) (Some r) True) d1 =
      with_trace pre (and_return (settle_mark (attempts_exhausted ctx) res (io_mark_fault io)
         (io_mark_now io) (env_event_id env) (env_handler_id env) (jc_lease_token ctx) (others d1))
         (job_verdict res))"
    using process_claimed_eq [OF res] by blast
  ultimately show ?thesis using d1 that by metis
qed

lemma settle_set_error: "hd_last_error (settle_set x res now r) = final_error res"
  by (cases res rule: result_cases) (simp_all add: row_update_defs)

lemma claimed_row_facts:
  "hd_status (set_updated_at now (claim_set now a t r)) = Running"
  "hd_lease_token (set_updated_at now (claim_set now a t r)) = Some t"
  "hd_attempts (set_updated_at now (claim_set now a t r)) = max (hd_attempts r) (max a 1)"
  "now \<le> now' \<Longrightarrow> clock_reached now' (set_updated_at now (claim_set now a t r))"
  by (simp_all add: set_updated_at_def claim_set_def clock_reached_def coalesce_def)

lemma set_updated_at_facts [simp]:
  "hd_status (set_updated_at now r) = hd_status r" "hd_attempts (set_updated_at now r) = hd_attempts r"
  "hd_lease_token (set_updated_at now r) = hd_lease_token r"
  "hd_last_error (set_updated_at now r) = hd_last_error r"
  "hd_id (set_updated_at now r) = hd_id r" "delivery_key (set_updated_at now r) = delivery_key r"
  by (simp_all add: set_updated_at_def delivery_key_def)

section \<open>A whole delivery without faults\<close>

lemma handle_envelope_done:
  assumes "db_ok jt d" and "text_ok (env_handler_id env)"
    and "find_delivery (env_event_id env, env_handler_id env) (deliveries d) = Some r"
    and "\<not> terminal_status (hd_status r)"
    and "find_event (env_event_id env) (events d) = Some ev"
    and "clock_reached (io_claim_now io) r" and "io_claim_now io \<le> io_mark_now io"
    and "io_claim_fault io = NoFault" and "io_mark_fault io = NoFault"
    and "res = delivery_result rt elapsed env ctx ev (dispatch_keys d)"
  obtains d' tr where "handle_envelope rt elapsed io id env ctx d = (job_verdict res, d', tr)"
    "find_delivery (env_event_id env, env_handler_id env) (deliveries d') =
      Some (set_updated_at (io_mark_now io) (settle_set (attempts_exhausted ctx) res (io_mark_now io)
        (set_updated_at (io_claim_now io) (claim_set (io_claim_now io)
          (attempt_param (jc_attempt ctx)) (jc_lease_token ctx) r))))"
    "\<And>k. k \<noteq> (env_event_id env, env_handler_id env) \<Longrightarrow>
      find_delivery k (deliveries d') = find_delivery k (deliveries d)"
    "events d' = events d" "dispatch_keys d' = dispatch_keys d" "db_ok jt d'"
proof -
  note asm = assms
  obtain d1 pre where d1: "handle_envelope rt elapsed io id env ctx d =
      with_trace pre (and_return (settle_mark (attempts_exhausted ctx) res (io_mark_fault io)
         (io_mark_now io) (env_event_id env) (env_handler_id env) (jc_lease_token ctx) (id d1))
         (job_verdict res))"
    and row: "find_delivery (env_event_id env, env_handler_id env) (deliveries d1) =
      Some (set_updated_at (io_claim_now io)
        (claim_set (io_claim_now io) (attempt_param (jc_attempt ctx)) (jc_lease_token ctx) r))"
    and others: "\<And>k. k \<noteq> (env_event_id env, env_handler_id env) \<Longrightarrow>
      find_delivery k (deliveries d1) = find_delivery k (deliveries d)"
    and frame: "events d1 = events d" "dispatch_keys d1 = dispatch_keys d" and ok1: "db_ok jt d1"
    by (rule handle_envelope_active [OF asm(1-6,8,10), where others = id]) blast
  show ?thesis
    by (rule settled.mark_holder [OF ok1 row claimed_row_facts(1,2)
        claimed_row_facts(4) [OF asm(7)] asm(2), of "attempts_exhausted ctx" res])
      (rule that, use d1 others frame asm(9) in simp_all)
qed

section \<open>Properties of the worker\<close>

text \<open>
  (C6) The whole of \<open>handle_envelope\<close> when the database answers: a delivery that is not finished is claimed,
  its handler (or the verdict for a missing one) is run on the event's payload and context, and the
  row ends in the status, with the error text and the attempt count the result calls for; it is never
  left running. \<open>pg_work_queue\<close> gets the matching verdict. No other delivery, no event and no
  reservation changes, and every constraint of the schema holds afterwards.
\<close>

theorem handle_envelope_settles:
  assumes "db_ok jt d" and "text_ok (env_handler_id env)"
    and "find_delivery (env_event_id env, env_handler_id env) (deliveries d) = Some r"
    and "\<not> terminal_status (hd_status r)"
    and "find_event (env_event_id env) (events d) = Some ev"
    and "clock_reached (io_claim_now io) r" and "io_claim_now io \<le> io_mark_now io"
    and "io_claim_fault io = NoFault" and "io_mark_fault io = NoFault"
    and "res = delivery_result rt elapsed env ctx ev (dispatch_keys d)"
  shows "\<exists>d' r' tr. handle_envelope rt elapsed io id env ctx d = (job_verdict res, d', tr) \<and>
    find_delivery (env_event_id env, env_handler_id env) (deliveries d') = Some r' \<and>
    hd_status r' = final_status (jc_attempt ctx \<ge> jc_max_attempts ctx) res \<and>
    hd_last_error r' = final_error res \<and> hd_lease_token r' = None \<and>
    hd_attempts r' = max (hd_attempts r) (max (attempt_param (jc_attempt ctx)) 1) \<and>
    (\<forall>k. k \<noteq> (env_event_id env, env_handler_id env) \<longrightarrow>
       find_delivery k (deliveries d') = find_delivery k (deliveries d)) \<and>
    events d' = events d \<and> dispatch_keys d' = dispatch_keys d \<and> db_ok jt d'"
proof (rule handle_envelope_done [OF assms])
  fix d' tr
  assume "handle_envelope rt elapsed io id env ctx d = (job_verdict res, d', tr)"
    "find_delivery (env_event_id env, env_handler_id env) (deliveries d') =
      Some (set_updated_at (io_mark_now io) (settle_set (attempts_exhausted ctx) res (io_mark_now io)
        (set_updated_at (io_claim_now io) (claim_set (io_claim_now io)
          (attempt_param (jc_attempt ctx)) (jc_lease_token ctx) r))))"
    "\<And>k. k \<noteq> (env_event_id env, env_handler_id env) \<Longrightarrow>
      find_delivery k (deliveries d') = find_delivery k (deliveries d)"
    "events d' = events d" "dispatch_keys d' = dispatch_keys d" "db_ok jt d'"
  then show ?thesis by (simp add: settled.sets settled.keeps settle_set_error claim_set_def)
qed

definition sample_rt :: "unit OutboxRuntime" where
  "sample_rt = \<lparr>rt_config = OutboxConfig_default () PanicPolicy_Retry,
    rt_registry = \<lparr>handlers = [(''audit'', \<lparr>rh_handler = (\<lambda>_ _. \<lparr>completes_after = Some 5,
        ending = Returned (OutcomeHandler (Retry ''busy'' (Some 7)))\<rparr>),
        rh_handler_timeout = None, rh_concurrency_limit = None\<rparr>)],
      by_type = [(''order'', [''audit''])]\<rparr>\<rparr>"

definition sample_timer :: timer where
  "sample_timer dur t = (case t of None \<Rightarrow> True | Some x \<Rightarrow> dur < x)"

definition sample_event_row :: event_row where
  "sample_event_row = \<lparr>ev_id = 7, ev_event_type = ''order'', ev_producer_bc = '''', ev_tenant_id = ''acme'',
    ev_aggregate_key = None, ev_payload = [1], ev_headers = JObject [], ev_created_at = 100\<rparr>"

definition sample_db :: outbox_db where
  "sample_db = \<lparr>events = [sample_event_row], dispatch_keys = [], deliveries = [sample_delivery],
    next_delivery_id = 2\<rparr>"

definition sample_env :: HandlerEnvelope where
  "sample_env = \<lparr>env_event_id = 7, env_handler_id = ''audit''\<rparr>"

definition sample_ctx :: JobContext where
  "sample_ctx = \<lparr>jc_attempt = 1, jc_max_attempts = 5, jc_lease_token = 42, jc_idempotency_key = 9\<rparr>"

definition sample_io :: worker_io where
  "sample_io = \<lparr>io_claim_fault = NoFault, io_claim_now = 110, io_mark_fault = NoFault, io_mark_now = 120\<rparr>"

lemma sample_db_ok: "db_ok (\<lambda>_. ''{}'') sample_db"
  by (simp add: schema_defs check_defs sample_db_def sample_event_row_def sample_delivery_def
      delivery_key_def temporal_check_def status_invariants_def)

lemmas sample_worker_defs = sample_db_def sample_event_row_def sample_delivery_def sample_env_def
  sample_ctx_def sample_io_def

lemma sample_lookups:
  "find_delivery (env_event_id sample_env, env_handler_id sample_env) (deliveries sample_db) = Some sample_delivery"
  "find_event (env_event_id sample_env) (events sample_db) = Some sample_event_row"
  "text_ok (env_handler_id sample_env)" "\<not> terminal_status (hd_status sample_delivery)"
  "clock_reached (io_claim_now sample_io) sample_delivery"
  "io_claim_now sample_io \<le> io_mark_now sample_io"
  "io_claim_fault sample_io = NoFault" "io_mark_fault sample_io = NoFault"
  by (simp_all add: sample_worker_defs find_delivery_def find_event_def delivery_key_def text_ok_def
      clock_reached_def coalesce_def)

theorem handle_envelope_settles_witness:
  "\<exists>d' r' tr. handle_envelope sample_rt sample_timer sample_io id sample_env sample_ctx sample_db =
      (Inl (JobRetry (clean_reason ''busy'') (Some 7)), d', tr) \<and>
    find_delivery (7, ''audit'') (deliveries d') = Some r' \<and> hd_status r' = AwaitingRetry \<and>
    hd_attempts r' = 1"
proof -
  have res: "Inl (Retry ''busy'' (Some 7)) =
      delivery_result sample_rt sample_timer sample_env sample_ctx sample_event_row (dispatch_keys sample_db)"
    by (simp add: delivery_result_def sample_rt_def sample_env_def lookup_def invoke_handler_def
        sample_timer_def our_timeout_def effective_timeout_def OutboxConfig_default_def from_secs_def
        HANDLER_CLEANUP_BUDGET_def from_millis_def)
  show ?thesis
    using handle_envelope_settles [OF sample_db_ok sample_lookups(3,1,4,2,5,6,7,8) res]
    by (auto simp: sample_env_def sample_ctx_def attempt_param_def i32_max_def sample_delivery_def
        word_le_nat_alt)
qed

lemma and_return_db [simp]: "fst (snd (and_return x v)) = fst (snd x)"
  by (cases "(x, v)" rule: and_return.cases) simp_all

lemma process_claimed_db:
  assumes "process_claimed rt elapsed io others env ctx (claim_view ev keys prev upd) d = (res, d', tr)"
  shows "\<exists>x r r' tr'. settle_mark x r (io_mark_fault io) (io_mark_now io) (env_event_id env) (env_handler_id env)
    (jc_lease_token ctx) (others d) = (r', d', tr')"
proof -
  let ?m = "settle_mark (attempts_exhausted ctx) (delivery_result rt elapsed env ctx ev keys) (io_mark_fault io)
    (io_mark_now io) (env_event_id env) (env_handler_id env) (jc_lease_token ctx) (others d)"
  obtain pre where "process_claimed rt elapsed io others env ctx (claim_view ev keys prev upd) d =
      with_trace pre (and_return ?m (job_verdict (delivery_result rt elapsed env ctx ev keys)))"
    using process_claimed_eq [OF refl] by blast
  with assms have "d' = fst (snd ?m)" by (metis and_return_db with_trace_db(1) fst_conv snd_conv)
  then show ?thesis by (metis prod.collapse)
qed

text \<open>
  However \<open>handle_envelope\<close> ends, it executed at most the claim and, on the tables the other sessions left,
  at most one mark.
\<close>

lemma handle_envelope_db:
  assumes "handle_envelope rt elapsed io others env ctx d = (res, d', tr)"
  obtains (not_claimed) "d' = d"
  | (claimed) v where "claim_stmt (io_claim_now io) (env_event_id env) (env_handler_id env)
        (attempt_param (jc_attempt ctx)) (jc_lease_token ctx) d = Inr (v, d')"
  | (marked) v d1 x r r' tr' where "claim_stmt (io_claim_now io) (env_event_id env) (env_handler_id env)
        (attempt_param (jc_attempt ctx)) (jc_lease_token ctx) d = Inr (v, d1)"
      "settle_mark x r (io_mark_fault io) (io_mark_now io) (env_event_id env) (env_handler_id env)
        (jc_lease_token ctx) (others d1) = (r', d', tr')"
proof (cases "run_stmt (io_claim_fault io) (claim_stmt (io_claim_now io) (env_event_id env)
    (env_handler_id env) (attempt_param (jc_attempt ctx)) (jc_lease_token ctx)) d")
  case (Pair c d1)
  note cl = run_stmt_db [OF Pair]
  show ?thesis
  proof (cases c)
    case (Inl e)
    with assms Pair have "d' = d1" by (simp add: handle_envelope_def)
    with cl show ?thesis using not_claimed claimed by blast
  next
    case (Inr v)
    with Pair have st: "claim_stmt (io_claim_now io) (env_event_id env) (env_handler_id env)
        (attempt_param (jc_attempt ctx)) (jc_lease_token ctx) d = Inr (v, d1)"
      by (simp add: run_stmt_Inr)
    show ?thesis
    proof (cases v)
      case None
      with assms Pair Inr have "d' = d1" by (simp add: handle_envelope_def)
      with st show ?thesis using claimed by blast
    next
      case (Some row)
      from st Some obtain ev prev upd where row: "row = claim_view ev (dispatch_keys d) prev upd"
        by (auto simp: claim_stmt_eq split: if_splits sum.splits)
      from assms Pair Inr Some consider "d' = d1"
        | "process_claimed rt elapsed io others env ctx row d1 = (res, d', tr)"
        by (auto simp: handle_envelope_def split: option.splits if_splits)
      then show ?thesis
      proof cases
        case 1 with st show ?thesis using claimed by blast
      next
        case 2 with st show ?thesis using marked process_claimed_db [OF 2 [unfolded row]] by blast
      qed
    qed
  qed
qed

text \<open>
  (C1) Fencing: if, when the worker writes its verdict, the row is not running under this worker's lease
  any more (another worker claimed it, or it is finished), the worker changes nothing, whatever its
  handler returned, whatever faults its connection has and whatever other sessions did: the tables are
  as the claim, or the other sessions after it, left them.
\<close>

theorem handle_envelope_fenced:
  assumes "handle_envelope rt elapsed io others env ctx d = (res, d', tr)"
    and "\<And>v d1 r. claim_stmt (io_claim_now io) (env_event_id env) (env_handler_id env)
        (attempt_param (jc_attempt ctx)) (jc_lease_token ctx) d = Inr (v, d1) \<Longrightarrow>
      find_delivery (env_event_id env, env_handler_id env) (deliveries (others d1)) = Some r \<Longrightarrow>
      hd_status r \<noteq> Running \<or> hd_lease_token r \<noteq> Some (jc_lease_token ctx)"
    and "\<And>x. db_ok jt x \<Longrightarrow> db_ok jt (others x)" and "db_ok jt d"
  shows "d' = d \<or> (\<exists>v d1. claim_stmt (io_claim_now io) (env_event_id env) (env_handler_id env)
        (attempt_param (jc_attempt ctx)) (jc_lease_token ctx) d = Inr (v, d1) \<and>
      (d' = d1 \<or> d' = others d1))"
  using assms(1)
proof (cases rule: handle_envelope_db)
  case (marked v d1 x r r' tr')
  have ok: "db_ok jt (others d1)" using assms(3,4) marked(1) claim_db_ok by blast
  have "\<not> fenced_where (env_event_id env) (env_handler_id env) (jc_lease_token ctx) s"
    if "s \<in> set (deliveries (others d1))" for s
    using find_in_deliveries [OF ok that] assms(2) [OF marked(1)]
    by (auto simp: fenced_where_def delivery_key_def)
  from settled.mark_stale [OF this marked(2)] marked(1) show ?thesis by blast
qed blast+

text \<open>Another worker that claims the sample delivery, under the lease 99, while the first one runs.\<close>

definition sample_takeover :: "outbox_db \<Rightarrow> outbox_db" where
  "sample_takeover d = (case claim_stmt 115 7 ''audit'' 2 99 d of Inl _ \<Rightarrow> d | Inr (_, d') \<Rightarrow> d')"

lemma sample_takeover_ok: "db_ok jt d \<Longrightarrow> db_ok jt (sample_takeover d)"
  by (auto simp: sample_takeover_def split: sum.split dest: claim_db_ok)

lemma sample_taken_over:
  assumes "claim_stmt 110 7 ''audit'' 1 42 sample_db = Inr (v, d1)"
    and "find_delivery (7, ''audit'') (deliveries (sample_takeover d1)) = Some r"
  shows "hd_lease_token r = Some 99"
proof -
  have d1: "d1 = sample_db\<lparr>deliveries := [set_updated_at 110 (claim_set 110 1 42 sample_delivery)]\<rparr>"
    using assms(1) by (auto simp: claim_stmt_eq update_deliveries_def claimable_def delivery_key_def
        sample_db_def sample_delivery_def split: if_splits)
  show ?thesis
    using assms(2) unfolding d1
    by (simp add: sample_takeover_def claim_stmt_eq update_deliveries_def claimable_def text_ok_def
        delivery_key_def sample_db_def sample_delivery_def claim_set_def set_updated_at_def
        deliveries_check_def temporal_check_def status_invariants_def coalesce_def find_delivery_def)
      (auto split: if_splits)
qed

theorem handle_envelope_fenced_witness:
  "\<exists>res d' tr. handle_envelope sample_rt sample_timer sample_io sample_takeover sample_env sample_ctx
       sample_db = (res, d', tr) \<and>
     (d' = sample_db \<or> (\<exists>v d1. claim_stmt 110 7 ''audit'' 1 42 sample_db = Inr (v, d1) \<and>
        (d' = d1 \<or> d' = sample_takeover d1)))"
proof -
  obtain res d' tr where h: "handle_envelope sample_rt sample_timer sample_io sample_takeover sample_env
      sample_ctx sample_db = (res, d', tr)" by (metis prod.exhaust)
  have p: "attempt_param (jc_attempt sample_ctx) = 1"
    by (simp add: attempt_param_def sample_ctx_def i32_max_def)
  show ?thesis
    using handle_envelope_fenced [OF h _ sample_takeover_ok sample_db_ok] sample_taken_over h
    unfolding p by (simp add: sample_io_def sample_env_def sample_ctx_def)
qed

text \<open>
  A job delivered again after its delivery is finished does nothing: the claim finds the terminal row,
  the handler is not run (the result is the same for every registry), the job succeeds and the tables
  are as before.
\<close>

lemma handle_envelope_terminal:
  assumes "db_ok jt d" and "text_ok (env_handler_id env)"
    and "find_delivery (env_event_id env, env_handler_id env) (deliveries d) = Some r"
    and "terminal_status (hd_status r)" and "io_claim_fault io = NoFault"
  shows "handle_envelope rt elapsed io others env ctx d =
    (Inr (), d, [WorkerSkip (as_str (hd_status r))])"
proof -
  obtain ev where ev: "find_event (env_event_id env) (events d) = Some ev"
    using event_of_delivery [OF assms(1,3)] .
  have "as_str (hd_status r) \<in> {''sent'', ''dead'', ''skipped''}"
    using assms(4) by (cases "hd_status r") simp_all
  moreover have "cr_prev_status (claim_view ev ks (Some r) False) = Some (as_str (hd_status r))"
    "\<not> cr_did_update (claim_view ev ks (Some r) False)" for ks
    by (simp_all add: claim_view_def)
  ultimately show ?thesis
    using claim_inactive [OF not_claimable_terminal [OF assms(1,3,4)] assms(2)] ev assms(3,5)
    by (simp add: handle_envelope_def run_stmt_def)
qed

definition sample_sent_db :: outbox_db where
  "sample_sent_db = sample_db\<lparr>deliveries := [sample_delivery\<lparr>hd_status := Sent, hd_attempts := 1,
    hd_first_attempted_at := Some 101, hd_last_attempted_at := Some 101,
    hd_finished_at := Some 102, hd_updated_at := 102\<rparr>]\<rparr>"

text \<open>
  (C20) The worker never trips over the schema: on tables that satisfy their constraints, with a server clock
  that has not gone back behind a row, the claim and each of the four transitions succeed, for every
  attempt number, lease and reason text.
\<close>

theorem worker_statements_succeed:
  assumes "db_ok jt d" and "\<forall>r \<in> set (deliveries d). clock_reached now r" and "text_ok h"
  shows "(\<exists>v d'. claim_stmt now e h a t d = Inr (v, d') \<and> db_ok jt d') \<and>
    (\<exists>d' tr. mark_sent_fenced NoFault now e h t d = (Inr (), d', tr) \<and> db_ok jt d') \<and>
    (\<exists>d' tr. mark_awaiting_retry_fenced NoFault now e h reason t d = (Inr (), d', tr) \<and> db_ok jt d') \<and>
    (\<exists>d' tr. mark_dead_fenced NoFault now e h reason t d = (Inr (), d', tr) \<and> db_ok jt d') \<and>
    (\<exists>d' tr. mark_skipped_fenced NoFault now e h reason t d = (Inr (), d', tr) \<and> db_ok jt d')"
proof -
  have "list_all (\<lambda>r. deliveries_check (set_updated_at now (claim_set now a t r)))
      (filter (claimable e h) (deliveries d))"
    using assms(1,2) claim_set_check by (auto simp: list_all_iff claimable_def schema_defs)
  then obtain v d' where c: "claim_stmt now e h a t d = Inr (v, d')"
    using assms(3) by (auto simp: claim_stmt_eq update_deliveries_def)
  show ?thesis
    by (intro conjI exI [of _ v] exI [of _ d'] c claim_db_ok [OF assms(1) c] sent.mark_never_fails [OF assms]
        await.mark_never_fails [OF assms] dead.mark_never_fails [OF assms] skipped.mark_never_fails [OF assms])
qed

theorem worker_statements_succeed_witness:
  "\<exists>d' tr. mark_dead_fenced NoFault 120 7 ''audit'' (CHR 0x00 # ''boom'') 42 sample_db = (Inr (), d', tr) \<and>
     db_ok (\<lambda>_. ''{}'') d'"
proof -
  have "\<forall>r \<in> set (deliveries sample_db). clock_reached 120 r" "text_ok ''audit''"
    by (simp_all add: sample_db_def sample_delivery_def clock_reached_def coalesce_def text_ok_def)
  with worker_statements_succeed [OF sample_db_ok this] show ?thesis by blast
qed

text \<open>
  (C31) A transition that does not reach the server (a pool without connections, a broken socket) leaves the
  delivery running under the worker's lease, however the handler ended. A deterministic error is
  reported as an abort, so that the job is over while the row still says running; any other error
  is reported as a retry, and the next claim can take the row over.
\<close>

theorem lost_mark_strands_row:
  assumes "db_ok jt d" and "text_ok (env_handler_id env)"
    and "find_delivery (env_event_id env, env_handler_id env) (deliveries d) = Some r"
    and "\<not> terminal_status (hd_status r)"
    and "find_event (env_event_id env) (events d) = Some ev"
    and "clock_reached (io_claim_now io) r"
    and "io_claim_fault io = NoFault" and "io_mark_fault io = FailBefore x"
  shows "\<exists>kind d' r' tr. handle_envelope rt elapsed io id env ctx d = (Inl (map_sql x kind), d', tr) \<and>
    ((\<exists>m. map_sql x kind = JobAbort m) \<longleftrightarrow> is_sqlx_deterministic x) \<and>
    find_delivery (env_event_id env, env_handler_id env) (deliveries d') = Some r' \<and>
    hd_status r' = Running \<and> hd_lease_token r' = Some (jc_lease_token ctx)"
proof -
  let ?res = "delivery_result rt elapsed env ctx ev (dispatch_keys d)"
  show ?thesis
  proof (rule handle_envelope_active [OF assms(1-7) refl, where others = id])
    fix d1 pre
    assume h: "handle_envelope rt elapsed io id env ctx d =
        with_trace pre (and_return (settle_mark (attempts_exhausted ctx) ?res (io_mark_fault io)
          (io_mark_now io) (env_event_id env) (env_handler_id env) (jc_lease_token ctx) (id d1))
          (job_verdict ?res))"
      and row: "find_delivery (env_event_id env, env_handler_id env) (deliveries d1) =
        Some (set_updated_at (io_claim_now io)
          (claim_set (io_claim_now io) (attempt_param (jc_attempt ctx)) (jc_lease_token ctx) r))"
    show ?thesis
      using row unfolding h assms(8) id_apply settled.mark_lost
      by (auto simp: map_sql_def claim_set_def)
  qed
qed

theorem lost_mark_strands_row_witness:
  "\<exists>d' r' tr m. handle_envelope sample_rt sample_timer (sample_io\<lparr>io_mark_fault := FailBefore PoolTimedOut\<rparr>)
      id sample_env sample_ctx sample_db = (Inl (JobRetry m None), d', tr) \<and>
    find_delivery (7, ''audit'') (deliveries d') = Some r' \<and> hd_status r' = Running"
proof -
  have "\<exists>kind d' r' tr. handle_envelope sample_rt sample_timer
      (sample_io\<lparr>io_mark_fault := FailBefore PoolTimedOut\<rparr>) id sample_env sample_ctx sample_db =
        (Inl (map_sql PoolTimedOut kind), d', tr) \<and>
    ((\<exists>m. map_sql PoolTimedOut kind = JobAbort m) \<longleftrightarrow> is_sqlx_deterministic PoolTimedOut) \<and>
    find_delivery (env_event_id sample_env, env_handler_id sample_env) (deliveries d') = Some r' \<and>
    hd_status r' = Running \<and> hd_lease_token r' = Some (jc_lease_token sample_ctx)"
    by (rule lost_mark_strands_row [OF sample_db_ok sample_lookups(3,1,4,2)])
      (simp_all add: sample_lookups(5) [unfolded sample_io_def] sample_io_def
        clock_reached_def coalesce_def sample_delivery_def)
  then show ?thesis by (auto simp: map_sql_def sample_env_def)
qed

text \<open>
  (C34) Every error text that reaches a \<open>last_error\<close> column, here and in the job queue, is safe to store: it is
  valid UTF-8 of at most 8192 bytes without NUL or any other control character, and it is the longest prefix of
  the sanitised reason that is: no valid prefix within the limit is longer, and a reason that fits is kept whole.
\<close>

theorem stored_reason_safe:
  assumes "is_str reason"
  shows "is_str (clean_reason reason) \<and> length (clean_reason reason) \<le> MAX_LAST_ERROR_BYTES \<and>
    text_ok (clean_reason reason) \<and> list_all (\<lambda>c. \<not> is_control c) (chars (clean_reason reason)) \<and>
    (\<exists>rest. sanitize_reason reason = clean_reason reason @ rest) \<and>
    (\<forall>p q. sanitize_reason reason = p @ q \<and> is_str p \<and> length p \<le> MAX_LAST_ERROR_BYTES \<longrightarrow>
      length p \<le> length (clean_reason reason)) \<and>
    (length (sanitize_reason reason) \<le> MAX_LAST_ERROR_BYTES \<longrightarrow>
      clean_reason reason = sanitize_reason reason)"
proof -
  have scalars: "list_all is_scalar (map sanitize_char (chars reason))"
    using assms by (simp add: is_str_def list_all_iff)
  then have "chars (clean_reason reason) =
      take_fitting MAX_LAST_ERROR_BYTES (map sanitize_char (chars reason))"
    by (simp add: clean_reason_def sanitize_reason_def truncate_utf8_encode chars_encode_utf8
        list_all_take_fitting)
  then have "list_all (\<lambda>c. \<not> is_control c) (chars (clean_reason reason))"
    using set_take_fitting [of MAX_LAST_ERROR_BYTES "map sanitize_char (chars reason)"]
    by (auto simp: list_all_iff)
  moreover have "is_str (clean_reason reason)"
    using assms unfolding clean_reason_def by blast
  moreover have "\<exists>rest. sanitize_reason reason = clean_reason reason @ rest"
    unfolding clean_reason_def by (rule truncate_utf8_prefix)
  moreover have "length p \<le> length (clean_reason reason)"
    if "sanitize_reason reason = p @ q" "is_str p" "length p \<le> MAX_LAST_ERROR_BYTES" for p q
    using truncate_utf8_maximal [of p q MAX_LAST_ERROR_BYTES] is_str_sanitize_reason [OF assms] that
    by (simp add: clean_reason_def)
  moreover have "length (sanitize_reason reason) \<le> MAX_LAST_ERROR_BYTES \<Longrightarrow>
      clean_reason reason = sanitize_reason reason"
    by (simp add: clean_reason_def truncate_utf8_def)
  ultimately show ?thesis
    using length_clean_reason [of reason] by (simp add: MAX_LAST_ERROR_BYTES_def)
qed

theorem stored_reason_safe_witness:
  "is_str (CHR 0x00 # ''boom'') \<and> text_ok (clean_reason (CHR 0x00 # ''boom'')) \<and>
   clean_reason (CHR 0x00 # ''boom'') = ''?boom'' \<and> length (clean_reason (replicate 9000 CHR ''x'')) = 8192"
proof -
  let ?p = "replicate 8192 CHR ''x''"
  have x: "is_str (replicate n CHR ''x'')" for n by (rule ascii_is_str) (simp add: list_all_iff)
  have "sanitize_reason (replicate 9000 CHR ''x'') = replicate 9000 CHR ''x''"
    by (rule sanitize_reason_printable) (simp add: list_all_iff)
  also have "\<dots> = ?p @ replicate 808 CHR ''x''" by (simp only: replicate_add [symmetric]) simp
  finally have cut: "length (clean_reason (replicate 9000 CHR ''x'')) = 8192"
    using stored_reason_safe [OF x [of 9000]] x [of 8192] unfolding MAX_LAST_ERROR_BYTES_def
    by (metis le_antisym length_replicate order_refl)
  have s: "is_str (CHR 0x00 # ''boom'')" by (rule ascii_is_str) simp
  have "sanitize_reason (CHR 0x00 # ''boom'') = ''?boom''"
    by (simp add: sanitize_reason_def sanitize_char_def is_control_def encode_char_def Let_def) code_simp
  with stored_reason_safe [OF s] s cut show ?thesis
    by (simp add: MAX_LAST_ERROR_BYTES_def text_ok_def)
qed

text \<open>
  The answer to a skip is the one text that may pass the limit of 8192 bytes: the prefix \<open>skipped: \<close> is
  put in front of a reason that was already cut to the limit, so a reason that fills it gives an
  answer of 8201 bytes.
\<close>

lemma skip_verdict_over_limit:
  assumes "db_ok jt d" and "\<forall>r \<in> set (deliveries d). clock_reached now r"
    and "text_ok (env_handler_id env)"
  shows "\<exists>m d' tr. settle NoFault now env ctx (Inl (Skip (replicate MAX_LAST_ERROR_BYTES CHR ''x''))) d =
    (Inl (JobAbort m), d', tr) \<and> length m = MAX_LAST_ERROR_BYTES + 9"
proof -
  have "clean_reason (replicate MAX_LAST_ERROR_BYTES CHR ''x'') = replicate MAX_LAST_ERROR_BYTES CHR ''x''"
    by (rule clean_reason_printable) (simp_all add: list_all_iff MAX_LAST_ERROR_BYTES_def)
  moreover obtain d' tr where "settle_mark (attempts_exhausted ctx)
      (Inl (Skip (replicate MAX_LAST_ERROR_BYTES CHR ''x''))) NoFault now (env_event_id env)
      (env_handler_id env) (jc_lease_token ctx) d = (Inr (), d', tr)"
    using settled.mark_never_fails [OF assms] by blast
  ultimately show ?thesis unfolding settle_eq by simp
qed

text \<open>
  (C32) The worker's own timeout leaves room for its last write: for every handler of an outbox built from
  validated configuration, it ends exactly 200 ms, the cleanup budget, before the timeout that holds for the
  handler, which is its own if it has one and the worker-wide one otherwise; it is itself more than 200 ms, so the
  floor of 100 ms is never used. Hence it ends exactly 200 ms before the worker-wide timer of the queue for a
  handler without a timeout of its own, and no later than that for every other; and that timer ends before the lease.
\<close>

theorem handler_timeout_headroom:
  assumes "OutboxBuilder_build bd pd b = Inr ob"
    and "\<forall>c. bld_config b = Some c \<longrightarrow> (\<exists>c0. OutboxConfig_build c0 = Inr c)"
    and "lookup (ob_registry ob) h = Some rh" and "rt_config rt = ob_config ob"
  shows "our_timeout rt rh + from_millis 200 =
      (case rh_handler_timeout rh of Some t \<Rightarrow> t | None \<Rightarrow> cfg_handler_timeout (ob_config ob)) \<and>
    from_millis 200 < our_timeout rt rh \<and>
    our_timeout rt rh + from_millis 200 \<le> cfg_handler_timeout (ob_config ob) \<and>
    cfg_handler_timeout (ob_config ob) < cfg_lease_timeout (ob_config ob)"
proof -
  have "ob_config ob = (case bld_config b of Some c \<Rightarrow> c | None \<Rightarrow> OutboxConfig_default bd pd)"
    using assms(1) by (simp add: OutboxBuilder_build_ok_iff Let_def Outbox_new_def)
  then have cfg: "config_valid (ob_config ob)"
    using assms(2) config_valid_default by (auto simp: config_build_iff split: option.splits)
  note routes = outbox_build_ok_routes [OF assms(1)]
  then obtain e where e: "e \<in> set (bld_pending b)" "h = pend_handler_id e"
    using assms(3) by blast
  with routes assms(3) have "rh = registered e" "entry_valid (ob_config ob) e"
    by (auto simp: list_all_iff)
  then show ?thesis
    using cfg assms(4)
    by (cases "pend_handler_timeout e")
      (auto simp: our_timeout_def effective_timeout_def registered_def entry_valid_def config_valid_def
        HANDLER_CLEANUP_BUDGET_def from_millis_def)
qed

theorem handler_timeout_headroom_witness:
  "\<exists>rh. lookup (ob_registry sample_outbox) ''mail'' = Some rh \<and>
     our_timeout \<lparr>rt_config = ob_config sample_outbox, rt_registry = ob_registry sample_outbox\<rparr> rh =
       from_millis 239800"
proof -
  let ?rt = "\<lparr>rt_config = ob_config sample_outbox, rt_registry = ob_registry sample_outbox\<rparr>"
  have l: "lookup (ob_registry sample_outbox) ''mail'' = Some (registered (sample_pending ''user'' ''mail''))"
    by (simp add: sample_outbox_def sample_builder_def Outbox_new_def lookup_def handlers_fold_add_entry
        Registry_new_def sample_pending_def)
  have "\<forall>c. bld_config sample_builder = Some c \<longrightarrow> (\<exists>c0. OutboxConfig_build c0 = Inr c)"
    by (simp add: sample_builder_def)
  from handler_timeout_headroom [OF sample_outbox_built this l, of ?rt] l show ?thesis
    by (simp add: effective_timeout_def registered_def sample_pending_def sample_outbox_def
        Outbox_new_def OutboxConfig_default_def from_millis_def from_secs_def)
qed

section \<open>Redaction\<close>

text \<open>The faults of a connection without the free text of their errors.\<close>

fun fault_shape :: "fault \<Rightarrow> fault" where
  "fault_shape NoFault = NoFault"
| "fault_shape (FailBefore x) = FailBefore (error_shape x)"
| "fault_shape (FailAfter x) = FailAfter (error_shape x)"

definition io_shape :: "worker_io \<Rightarrow> worker_io" where
  "io_shape io = io\<lparr>io_claim_fault := fault_shape (io_claim_fault io), io_mark_fault := fault_shape (io_mark_fault io)\<rparr>"

lemma map_sql_shape [simp]: "map_sql (error_shape x) kind = map_sql x kind"
  by (simp add: map_sql_def redact_shape deterministic_shape)

lemma map_mark_err_shape [simp]: "map_mark_err (error_shape x) kind e h = map_mark_err x kind e h"
proof -
  have "is_pool_or_io (error_shape x) = is_pool_or_io x" by (cases x) simp_all
  then show ?thesis by (simp add: map_mark_err_def redact_shape)
qed

lemma execute_mark_shape [simp]:
  "execute_mark (fault_shape f) kind s e h st d = execute_mark f kind s e h st d"
  by (cases f; cases "st d") (auto simp: execute_mark_def run_stmt_def split: prod.split)

lemma settle_mark_shape [simp]:
  "settle_mark x res (fault_shape f) now e h t d = settle_mark x res f now e h t d"
  by (cases res rule: result_cases) (simp_all add: mark_fenced_eqs mark_sent_fenced_def)

lemma process_claimed_shape [simp]:
  "process_claimed rt elapsed (io_shape io) others env ctx row d = process_claimed rt elapsed io others env ctx row d"
  by (simp add: process_claimed_def io_shape_def settle_eq mark_fenced_eqs split: option.split)

lemma handle_envelope_shape:
  "handle_envelope rt elapsed (io_shape io) others env ctx d = handle_envelope rt elapsed io others env ctx d"
proof -
  let ?st = "claim_stmt (io_claim_now io) (env_event_id env) (env_handler_id env)
    (attempt_param (jc_attempt ctx)) (jc_lease_token ctx)"
  have c: "io_claim_fault (io_shape io) = fault_shape (io_claim_fault io)" "io_claim_now (io_shape io) = io_claim_now io"
    by (simp_all add: io_shape_def)
  show ?thesis
    unfolding handle_envelope_def c
    by (cases "io_claim_fault io"; cases "?st d") (auto simp: run_stmt_def split: option.split)
qed

text \<open>
  (C28) Nothing that the database says in words leaves the worker: two runs of \<open>handle_envelope\<close> whose connections
  fail in the same way, with errors of the same variant and SQLSTATE but different messages (which may echo
  a tenant or an idempotency key), return the same verdict, write the same tables and emit the same events.
\<close>

theorem worker_redacts:
  assumes "io_shape io1 = io_shape io2"
  shows "handle_envelope rt elapsed io1 others env ctx d = handle_envelope rt elapsed io2 others env ctx d"
  by (metis assms handle_envelope_shape)

theorem worker_redacts_witness:
  "handle_envelope sample_rt sample_timer (sample_io\<lparr>io_mark_fault := FailBefore (Io ''10.0.0.7 reset'')\<rparr>) id
      sample_env sample_ctx sample_db =
    handle_envelope sample_rt sample_timer (sample_io\<lparr>io_mark_fault := FailBefore (Io ''timed out'')\<rparr>) id
      sample_env sample_ctx sample_db"
  by (rule worker_redacts) (simp add: io_shape_def)

end
