(* ===== verification/Outbox_Purge.thy ===== *)
theory Outbox_Purge
  imports Outbox_Runtime
begin

text \<open>
  The manual purges of \<^verbatim>\<open>src/src/purge.rs\<close>. Each is a loop of one \<open>DELETE\<close> of at most \<open>PURGE_CHUNK_SIZE\<close> rows that stops
  after the first chunk that is not full; the loop is a partial function into \<open>option\<close>, and that it returns is
  proved. \<open>chrono\<close> is a parameter: the conversion of a duration, its largest value, and the subtraction,
  which panics when the result cannot be represented.
\<close>

section \<open>The cutoff\<close>

record chrono =
  ch_from_std :: "duration \<Rightarrow> int option"
  ch_max :: int
  ch_sub :: "timestamp \<Rightarrow> int \<Rightarrow> (timestamp, panic_payload) rresult"

definition cutoff_from :: "chrono \<Rightarrow> timestamp \<Rightarrow> duration \<Rightarrow> (timestamp, panic_payload) rresult" where
  "cutoff_from ch now older_than =
    (let d = (case ch_from_std ch older_than of Some x \<Rightarrow> x | None \<Rightarrow> ch_max ch)
     in ch_sub ch now d)"

section \<open>One chunk\<close>

definition expired_delivery :: "timestamp \<Rightarrow> delivery_row \<Rightarrow> bool" where
  "expired_delivery cutoff r \<longleftrightarrow> terminal_status (hd_status r) \<and>
    (case hd_finished_at r of None \<Rightarrow> False | Some t \<Rightarrow> t < cutoff)"

definition purge_deliveries_chunk :: "timestamp \<Rightarrow> nat stmt" where
  "purge_deliveries_chunk cutoff d =
    (let victims = take PURGE_CHUNK_SIZE
           (sort_key (\<lambda>r. case hd_finished_at r of None \<Rightarrow> 0 | Some t \<Rightarrow> t) (filter (expired_delivery cutoff) (deliveries d)));
         gone = (\<lambda>r. hd_id r \<in> hd_id ` set victims)
     in Inr (rows_matching gone (deliveries d),
             d\<lparr>deliveries := filter (\<lambda>r. \<not> gone r) (deliveries d)\<rparr>))"

definition expired_key :: "timestamp \<Rightarrow> dispatch_key_row \<Rightarrow> bool" where
  "expired_key cutoff r \<longleftrightarrow> dk_created_at r < cutoff"

definition purge_keys_chunk :: "timestamp \<Rightarrow> nat stmt" where
  "purge_keys_chunk cutoff d =
    (let victims = take PURGE_CHUNK_SIZE
           (sort_key dk_created_at (filter (expired_key cutoff) (dispatch_keys d)));
         gone = (\<lambda>r. reservation_key r \<in> reservation_key ` set victims)
     in Inr (rows_matching gone (dispatch_keys d),
             d\<lparr>dispatch_keys := filter (\<lambda>r. \<not> gone r) (dispatch_keys d)\<rparr>))"

text \<open>\<open>NOT EXISTS (\<dots> hd.status IN ('queued','running','awaiting_retry'))\<close>.\<close>

definition expired_event :: "timestamp \<Rightarrow> outbox_db \<Rightarrow> event_row \<Rightarrow> bool" where
  "expired_event cutoff d e \<longleftrightarrow> ev_created_at e < cutoff \<and>
    \<not> list_ex (\<lambda>r. hd_event_id r = ev_id e \<and> active_status (hd_status r)) (deliveries d)"

text \<open>Both foreign keys to the events are \<open>ON DELETE CASCADE\<close>; the count is that of the events.\<close>

definition delete_events :: "uuid set \<Rightarrow> outbox_db \<Rightarrow> outbox_db" where
  "delete_events ids d = d\<lparr>events := filter (\<lambda>e. ev_id e \<notin> ids) (events d),
    dispatch_keys := filter (\<lambda>k. dk_event_id k \<notin> ids) (dispatch_keys d),
    deliveries := filter (\<lambda>r. hd_event_id r \<notin> ids) (deliveries d)\<rparr>"

definition purge_events_chunk :: "timestamp \<Rightarrow> nat stmt" where
  "purge_events_chunk cutoff d =
    (let victims = take PURGE_CHUNK_SIZE
           (sort_key ev_created_at (filter (expired_event cutoff d) (events d)));
         ids = ev_id ` set victims
     in Inr (rows_matching (\<lambda>e. ev_id e \<in> ids) (events d), delete_events ids d))"

section \<open>The loop and the three purges\<close>

partial_function (option) purge_loop ::
  "nat stmt \<Rightarrow> (nat \<Rightarrow> fault) \<Rightarrow> nat \<Rightarrow> nat \<Rightarrow> outbox_db \<Rightarrow> ((nat, PurgeError) rresult \<times> outbox_db) option"
where
  "purge_loop chunk faults i acc d =
    (case run_stmt (faults i) chunk d of
       (Inl e, d') \<Rightarrow> Some (Inl (PurgeSqlx e), d')
     | (Inr n, d') \<Rightarrow>
         if n < PURGE_CHUNK_SIZE then Some (Inr (acc + n), d')
         else purge_loop chunk faults (Suc i) (acc + n) d')"

type_synonym purge_result = "((nat, PurgeError) rresult ending \<times> outbox_db) option"

definition purge_with ::
  "(timestamp \<Rightarrow> nat stmt) \<Rightarrow> chrono \<Rightarrow> timestamp \<Rightarrow> (nat \<Rightarrow> fault) \<Rightarrow> duration \<Rightarrow> outbox_db \<Rightarrow> purge_result"
where
  "purge_with chunk ch now faults older_than d =
    (case cutoff_from ch now older_than of
       Inl p \<Rightarrow> Some (Panicked p, d)
     | Inr cutoff \<Rightarrow> map_option (map_prod Returned id) (purge_loop (chunk cutoff) faults 0 0 d))"

definition purge_terminal_deliveries ::
  "chrono \<Rightarrow> timestamp \<Rightarrow> (nat \<Rightarrow> fault) \<Rightarrow> duration \<Rightarrow> outbox_db \<Rightarrow> purge_result" where
  "purge_terminal_deliveries = purge_with purge_deliveries_chunk"

definition purge_dispatch_keys ::
  "chrono \<Rightarrow> timestamp \<Rightarrow> (nat \<Rightarrow> fault) \<Rightarrow> duration \<Rightarrow> outbox_db \<Rightarrow> purge_result" where
  "purge_dispatch_keys = purge_with purge_keys_chunk"

definition purge_events ::
  "chrono \<Rightarrow> timestamp \<Rightarrow> (nat \<Rightarrow> fault) \<Rightarrow> duration \<Rightarrow> outbox_db \<Rightarrow> purge_result" where
  "purge_events = purge_with purge_events_chunk"

section \<open>A chunk of victims\<close>

text \<open>
  The victims of one statement are the first rows of the sorted matches, addressed by key: they are rows
  that match, as many as the limit allows, and no other row shares a key with them.
\<close>

definition victim_keys :: "('r \<Rightarrow> 'k) \<Rightarrow> ('r \<Rightarrow> 'o :: linorder) \<Rightarrow> ('r \<Rightarrow> bool) \<Rightarrow> 'r list \<Rightarrow> 'k set" where
  "victim_keys key f p xs = key ` set (take PURGE_CHUNK_SIZE (sort_key f (filter p xs)))"

lemma victim_keys_iff:
  assumes "distinct (map key xs)" and "x \<in> set xs"
  shows "key x \<in> victim_keys key f p xs \<longleftrightarrow> x \<in> set (take PURGE_CHUNK_SIZE (sort_key f (filter p xs)))"
proof -
  have sub: "set (take PURGE_CHUNK_SIZE (sort_key f (filter p xs))) \<subseteq> set xs"
    using set_take_subset [of PURGE_CHUNK_SIZE "sort_key f (filter p xs)"] by auto
  have "inj_on key (set xs)" using assms(1) by (simp add: distinct_map)
  with sub assms(2) show ?thesis
    unfolding victim_keys_def by (meson inj_on_image_mem_iff)
qed

lemma victims_match:
  assumes "distinct (map key xs)" and "x \<in> set xs" and "key x \<in> victim_keys key f p xs"
  shows "p x"
  using assms set_take_subset [of PURGE_CHUNK_SIZE "sort_key f (filter p xs)"]
  by (auto simp: victim_keys_iff [OF assms(1,2)])

lemma victims_count:
  assumes d: "distinct (map key xs)"
  shows "rows_matching (\<lambda>r. key r \<in> victim_keys key f p xs) xs = min PURGE_CHUNK_SIZE (rows_matching p xs)"
proof -
  let ?vs = "take PURGE_CHUNK_SIZE (sort_key f (filter p xs))"
  have "distinct xs" using d by (simp add: distinct_map)
  then have "distinct ?vs" "distinct (filter (\<lambda>r. key r \<in> victim_keys key f p xs) xs)" by simp_all
  moreover have "set ?vs = set (filter (\<lambda>r. key r \<in> victim_keys key f p xs) xs)"
    using set_take_subset [of PURGE_CHUNK_SIZE "sort_key f (filter p xs)"]
    by (auto simp: victim_keys_iff [OF d])
  ultimately have "length (filter (\<lambda>r. key r \<in> victim_keys key f p xs) xs) = length ?vs"
    by (metis distinct_card)
  then show ?thesis by (simp add: rows_matching_def min.commute)
qed

lemma victims_left:
  assumes "distinct (map key xs)"
  shows "rows_matching p (filter (\<lambda>r. key r \<notin> victim_keys key f p xs) xs) =
    rows_matching p xs - min PURGE_CHUNK_SIZE (rows_matching p xs)"
proof -
  let ?g = "\<lambda>r. key r \<in> victim_keys key f p xs"
  have "filter ?g (filter p xs) = filter ?g xs"
    using victims_match [OF assms] by (auto simp: filter_filter intro: filter_cong)
  then have "length (filter p xs) = length (filter ?g xs) + length (filter (\<lambda>r. \<not> ?g r) (filter p xs))"
    using sum_length_filter_compl [of ?g "filter p xs"] by simp
  moreover have "filter p (filter (\<lambda>r. \<not> ?g r) xs) = filter (\<lambda>r. \<not> ?g r) (filter p xs)"
    by (simp add: conj_commute)
  ultimately show ?thesis
    using victims_count [OF assms, of f p] by (simp add: rows_matching_def)
qed

lemma victims_spare:
  assumes "distinct (map key xs)"
  shows "filter (\<lambda>r. \<not> p r) (filter (\<lambda>r. key r \<notin> victim_keys key f p xs) xs) = filter (\<lambda>r. \<not> p r) xs"
  using victims_match [OF assms] by (auto simp: filter_filter intro: filter_cong)

section \<open>Interface: a chunked purge\<close>

text \<open>
  The contract of one chunk: it deletes as many matching rows as there are, up to the chunk size, spares every
  other row, and keeps the invariant and the part of the database it does not own. The client is the loop.
\<close>

locale chunked_purge =
  fixes invar :: "outbox_db \<Rightarrow> bool"
    and rows :: "outbox_db \<Rightarrow> 'r list"
    and victim :: "outbox_db \<Rightarrow> 'r \<Rightarrow> bool"
    and frame :: "outbox_db \<Rightarrow> 'f"
    and chunk :: "nat stmt"
  assumes chunk_runs: "\<exists>n d'. chunk d = Inr (n, d')"
    and chunk_invar: "invar d \<Longrightarrow> chunk d = Inr (n, d') \<Longrightarrow> invar d'"
    and chunk_count: "invar d \<Longrightarrow> chunk d = Inr (n, d') \<Longrightarrow>
      n = min PURGE_CHUNK_SIZE (rows_matching (victim d) (rows d))"
    and chunk_left: "invar d \<Longrightarrow> chunk d = Inr (n, d') \<Longrightarrow>
      rows_matching (victim d') (rows d') = rows_matching (victim d) (rows d) - n"
    and chunk_spares: "invar d \<Longrightarrow> chunk d = Inr (n, d') \<Longrightarrow>
      filter (\<lambda>r. \<not> victim d' r) (rows d') = filter (\<lambda>r. \<not> victim d r) (rows d)"
    and chunk_frame: "invar d \<Longrightarrow> chunk d = Inr (n, d') \<Longrightarrow> frame d' = frame d"
begin

text \<open>The loop ends, whatever faults it meets, and has deleted nothing but victims.\<close>

lemma loop_returns:
  assumes "invar d"
  shows "\<exists>res d'. purge_loop chunk faults i acc d = Some (res, d') \<and> invar d' \<and> frame d' = frame d \<and>
    filter (\<lambda>r. \<not> victim d' r) (rows d') = filter (\<lambda>r. \<not> victim d r) (rows d)"
  using assms
proof (induction "rows_matching (victim d) (rows d)" arbitrary: i acc d rule: less_induct)
  case less
  obtain res d1 where run: "run_stmt (faults i) chunk d = (res, d1)" by fastforce
  from run_stmt_db [OF run] have d1: "invar d1" "frame d1 = frame d"
    "filter (\<lambda>r. \<not> victim d1 r) (rows d1) = filter (\<lambda>r. \<not> victim d r) (rows d)"
    using less.prems chunk_invar chunk_frame chunk_spares by blast+
  show ?case
  proof (cases res)
    case (Inl e)
    then show ?thesis using run d1 by (subst purge_loop.simps) simp
  next
    case (Inr n)
    with run have c: "chunk d = Inr (n, d1)" by (simp add: run_stmt_Inr)
    show ?thesis
    proof (cases "n < PURGE_CHUNK_SIZE")
      case True
      then show ?thesis using run Inr d1 by (subst purge_loop.simps) simp
    next
      case False
      then have "rows_matching (victim d1) (rows d1) < rows_matching (victim d) (rows d)"
        using chunk_left [OF less.prems c] chunk_count [OF less.prems c] by (simp add: PURGE_CHUNK_SIZE_def)
      from less.hyps [OF this d1(1), of "Suc i" "acc + n"] d1(2,3) False run Inr show ?thesis
        by (subst purge_loop.simps) simp
    qed
  qed
qed

text \<open>Undisturbed, it deletes exactly the victims and returns their number.\<close>

lemma loop_complete:
  assumes "invar d"
  shows "\<exists>d'. purge_loop chunk (\<lambda>_. NoFault) i acc d = Some (Inr (acc + rows_matching (victim d) (rows d)), d') \<and>
    rows d' = filter (\<lambda>r. \<not> victim d r) (rows d) \<and> invar d' \<and> frame d' = frame d \<and>
    rows_matching (victim d') (rows d') = 0"
  using assms
proof (induction "rows_matching (victim d) (rows d)" arbitrary: i acc d rule: less_induct)
  case less
  obtain n d1 where c: "chunk d = Inr (n, d1)" using chunk_runs by blast
  note n = chunk_count [OF less.prems c] and left = chunk_left [OF less.prems c]
    and d1 = chunk_invar [OF less.prems c] chunk_frame [OF less.prems c] chunk_spares [OF less.prems c]
  show ?case
  proof (cases "n < PURGE_CHUNK_SIZE")
    case True
    with n left have "rows_matching (victim d1) (rows d1) = 0" "n = rows_matching (victim d) (rows d)" by simp_all
    moreover from this(1) have "filter (\<lambda>r. \<not> victim d1 r) (rows d1) = rows d1"
      by (simp add: rows_matching_eq_0_iff)
    then have "rows d1 = filter (\<lambda>r. \<not> victim d r) (rows d)" using d1(3) by simp
    ultimately show ?thesis
      using c d1 True by (subst purge_loop.simps) (simp add: run_stmt_def)
  next
    case False
    then have "rows_matching (victim d1) (rows d1) < rows_matching (victim d) (rows d)"
      "n \<le> rows_matching (victim d) (rows d)"
      using left n by (simp_all add: PURGE_CHUNK_SIZE_def)
    with less.hyps [OF this(1) d1(1), of "Suc i" "acc + n"] d1 left False c show ?thesis
      by (subst purge_loop.simps) (simp add: run_stmt_def)
  qed
qed

end

section \<open>The three purges implement the contract\<close>

lemma purge_deliveries_chunk_eq:
  "purge_deliveries_chunk cutoff d =
    (let gone = victim_keys hd_id (\<lambda>r. case hd_finished_at r of None \<Rightarrow> 0 | Some t \<Rightarrow> t)
       (expired_delivery cutoff) (deliveries d)
     in Inr (rows_matching (\<lambda>r. hd_id r \<in> gone) (deliveries d),
             d\<lparr>deliveries := filter (\<lambda>r. hd_id r \<notin> gone) (deliveries d)\<rparr>))"
  by (simp add: purge_deliveries_chunk_def victim_keys_def Let_def)

lemma purge_keys_chunk_eq:
  "purge_keys_chunk cutoff d =
    (let gone = victim_keys reservation_key dk_created_at (expired_key cutoff) (dispatch_keys d)
     in Inr (rows_matching (\<lambda>r. reservation_key r \<in> gone) (dispatch_keys d),
             d\<lparr>dispatch_keys := filter (\<lambda>r. reservation_key r \<notin> gone) (dispatch_keys d)\<rparr>))"
  by (simp add: purge_keys_chunk_def victim_keys_def Let_def)

lemma purge_events_chunk_eq:
  "purge_events_chunk cutoff d =
    (let gone = victim_keys ev_id ev_created_at (expired_event cutoff d) (events d)
     in Inr (rows_matching (\<lambda>e. ev_id e \<in> gone) (events d), delete_events gone d))"
  by (simp add: purge_events_chunk_def victim_keys_def Let_def)

lemma db_ok_filter_deliveries: "db_ok jt d \<Longrightarrow> db_ok jt (d\<lparr>deliveries := filter p (deliveries d)\<rparr>)"
  by (auto simp: schema_defs distinct_map_filter)

lemma db_ok_filter_keys: "db_ok jt d \<Longrightarrow> db_ok jt (d\<lparr>dispatch_keys := filter p (dispatch_keys d)\<rparr>)"
  by (auto simp: schema_defs distinct_map_filter)

lemma db_ok_delete_events: "db_ok jt d \<Longrightarrow> db_ok jt (delete_events ids d)"
  by (auto simp: schema_defs delete_events_def distinct_map_filter)

interpretation pd: chunked_purge "db_ok jt" deliveries "\<lambda>_. expired_delivery cutoff"
  "\<lambda>d. (events d, dispatch_keys d, next_delivery_id d)" "purge_deliveries_chunk cutoff" for jt cutoff
proof
  show "\<exists>n d'. purge_deliveries_chunk cutoff d = Inr (n, d')" for d
    by (simp add: purge_deliveries_chunk_eq Let_def)
  fix d n d'
  assume ok: "db_ok jt d" and c: "purge_deliveries_chunk cutoff d = Inr (n, d')"
  have k: "distinct (map hd_id (deliveries d))" using ok by (simp add: schema_defs)
  note c = c [unfolded purge_deliveries_chunk_eq Let_def, simplified]
  show "db_ok jt d'" using c db_ok_filter_deliveries [OF ok] by blast
  show "n = min PURGE_CHUNK_SIZE (rows_matching (expired_delivery cutoff) (deliveries d))"
    using c by (simp add: victims_count [OF k])
  show "rows_matching (expired_delivery cutoff) (deliveries d') =
      rows_matching (expired_delivery cutoff) (deliveries d) - n"
    using c by (auto simp: victims_count [OF k] victims_left [OF k])
  show "filter (\<lambda>r. \<not> expired_delivery cutoff r) (deliveries d') =
      filter (\<lambda>r. \<not> expired_delivery cutoff r) (deliveries d)"
    using c by (auto simp: victims_spare [OF k] simp del: filter_filter)
  show "(events d', dispatch_keys d', next_delivery_id d') = (events d, dispatch_keys d, next_delivery_id d)"
    using c by auto
qed

interpretation pk: chunked_purge "db_ok jt" dispatch_keys "\<lambda>_. expired_key cutoff"
  "\<lambda>d. (events d, deliveries d, next_delivery_id d)" "purge_keys_chunk cutoff" for jt cutoff
proof
  show "\<exists>n d'. purge_keys_chunk cutoff d = Inr (n, d')" for d
    by (simp add: purge_keys_chunk_eq Let_def)
  fix d n d'
  assume ok: "db_ok jt d" and c: "purge_keys_chunk cutoff d = Inr (n, d')"
  have k: "distinct (map reservation_key (dispatch_keys d))" using ok by (simp add: schema_defs)
  note c = c [unfolded purge_keys_chunk_eq Let_def, simplified]
  show "db_ok jt d'" using c db_ok_filter_keys [OF ok] by blast
  show "n = min PURGE_CHUNK_SIZE (rows_matching (expired_key cutoff) (dispatch_keys d))"
    using c by (simp add: victims_count [OF k])
  show "rows_matching (expired_key cutoff) (dispatch_keys d') =
      rows_matching (expired_key cutoff) (dispatch_keys d) - n"
    using c by (auto simp: victims_count [OF k] victims_left [OF k])
  show "filter (\<lambda>r. \<not> expired_key cutoff r) (dispatch_keys d') =
      filter (\<lambda>r. \<not> expired_key cutoff r) (dispatch_keys d)"
    using c by (auto simp: victims_spare [OF k] simp del: filter_filter)
  show "(events d', deliveries d', next_delivery_id d') = (events d, deliveries d, next_delivery_id d)"
    using c by auto
qed

text \<open>An event that is not a victim keeps its deliveries and its reservation.\<close>

definition spared :: "timestamp \<Rightarrow> outbox_db \<Rightarrow> uuid \<Rightarrow> bool" where
  "spared cutoff d i \<longleftrightarrow> \<not> list_ex (\<lambda>e. ev_id e = i \<and> expired_event cutoff d e) (events d)"

lemma expired_event_delete:
  "ev_id e \<notin> ids \<Longrightarrow> expired_event cutoff (delete_events ids d) e = expired_event cutoff d e"
  by (auto simp: expired_event_def delete_events_def list_ex_iff)

lemma spared_delete: "i \<notin> ids \<Longrightarrow> spared cutoff (delete_events ids d) i = spared cutoff d i"
  using expired_event_delete [of _ ids cutoff d] by (auto simp: spared_def list_ex_iff delete_events_def)

lemma victim_not_spared:
  assumes "distinct (map ev_id (events d))"
    and "i \<in> victim_keys ev_id ev_created_at (expired_event cutoff d) (events d)"
  shows "\<not> spared cutoff d i"
proof -
  from assms(2) obtain e where e: "ev_id e = i" "e \<in> set (events d)"
    using set_take_subset [of PURGE_CHUNK_SIZE "sort_key ev_created_at (filter (expired_event cutoff d) (events d))"]
    by (auto simp: victim_keys_def)
  with victims_match [OF assms(1) e(2)] assms(2) show ?thesis
    by (auto simp: spared_def list_ex_iff)
qed

lemma filter_spared_delete:
  assumes "\<And>x. f x \<in> ids \<Longrightarrow> \<not> spared cutoff d (f x)"
  shows "filter (\<lambda>x. spared cutoff (delete_events ids d) (f x)) (filter (\<lambda>x. f x \<notin> ids) xs) =
    filter (\<lambda>x. spared cutoff d (f x)) xs"
  unfolding filter_filter using assms spared_delete [of _ ids cutoff d] by (intro filter_cong) blast+

interpretation pe: chunked_purge "db_ok jt" events "expired_event cutoff"
  "\<lambda>d. (next_delivery_id d, filter (\<lambda>r. spared cutoff d (hd_event_id r)) (deliveries d),
     filter (\<lambda>k. spared cutoff d (dk_event_id k)) (dispatch_keys d))" "purge_events_chunk cutoff" for jt cutoff
proof
  show "\<exists>n d'. purge_events_chunk cutoff d = Inr (n, d')" for d
    by (simp add: purge_events_chunk_eq Let_def)
  fix d n d'
  assume ok: "db_ok jt d" and c: "purge_events_chunk cutoff d = Inr (n, d')"
  have k: "distinct (map ev_id (events d))" using ok by (simp add: schema_defs)
  define ids where "ids = victim_keys ev_id ev_created_at (expired_event cutoff d) (events d)"
  from c have c: "n = rows_matching (\<lambda>e. ev_id e \<in> ids) (events d)" "d' = delete_events ids d"
    by (simp_all add: purge_events_chunk_eq Let_def ids_def)
  have ev: "events d' = filter (\<lambda>e. ev_id e \<notin> ids) (events d)" by (simp add: c(2) delete_events_def)
  have same: "filter (expired_event cutoff d') (events d') = filter (expired_event cutoff d) (events d')"
    "filter (\<lambda>e. \<not> expired_event cutoff d' e) (events d') = filter (\<lambda>e. \<not> expired_event cutoff d e) (events d')"
    using ev unfolding c(2) by (auto simp: expired_event_delete intro!: filter_cong)
  show "db_ok jt d'" using c(2) db_ok_delete_events [OF ok] by simp
  show cnt: "n = min PURGE_CHUNK_SIZE (rows_matching (expired_event cutoff d) (events d))"
    using c(1) by (simp add: ids_def victims_count [OF k])
  show "rows_matching (expired_event cutoff d') (events d') =
      rows_matching (expired_event cutoff d) (events d) - n"
    using same(1) cnt victims_left [OF k, of "expired_event cutoff d" ev_created_at]
    by (simp add: rows_matching_def ev ids_def)
  show "filter (\<lambda>e. \<not> expired_event cutoff d' e) (events d') = filter (\<lambda>e. \<not> expired_event cutoff d e) (events d)"
    using same(2) victims_spare [OF k, of "expired_event cutoff d" ev_created_at] unfolding ev ids_def
    by (rule trans)
  have "x \<in> ids \<Longrightarrow> \<not> spared cutoff d x" for x
    using victim_not_spared [OF k] by (simp add: ids_def)
  then show "(next_delivery_id d', filter (\<lambda>r. spared cutoff d' (hd_event_id r)) (deliveries d'),
      filter (\<lambda>k. spared cutoff d' (dk_event_id k)) (dispatch_keys d')) =
    (next_delivery_id d, filter (\<lambda>r. spared cutoff d (hd_event_id r)) (deliveries d),
      filter (\<lambda>k. spared cutoff d (dk_event_id k)) (dispatch_keys d))"
    using filter_spared_delete [of hd_event_id ids cutoff d "deliveries d"]
      filter_spared_delete [of dk_event_id ids cutoff d "dispatch_keys d"]
    by (simp add: c(2) delete_events_def)
qed

section \<open>Properties of the purges\<close>

text \<open>\<open>chrono\<close> represents the duration and the instant that far in the past.\<close>

definition chrono_exact :: "chrono \<Rightarrow> timestamp \<Rightarrow> duration \<Rightarrow> bool" where
  "chrono_exact ch now older_than \<longleftrightarrow>
    ch_from_std ch older_than = Some (int older_than) \<and> ch_sub ch now (int older_than) = Inr (now - int older_than)"

lemma purge_with_exact:
  assumes "chrono_exact ch now age"
  shows "purge_with chunk ch now faults age d =
    map_option (map_prod Returned id) (purge_loop (chunk (now - int age)) faults 0 0 d)"
  using assms by (simp add: purge_with_def cutoff_from_def chrono_exact_def)

text \<open>
  (C25) The purges of deliveries and of reservations delete exactly what they say, over any number of chunks: the
  finished deliveries that ended before the cutoff, and the reservations made before it. They return
  the number of deleted rows, spare every other row and every other table, and keep the schema.
\<close>

theorem purge_rows_complete:
  assumes "db_ok jt d" and "chrono_exact ch now age"
  shows "(\<exists>d'. purge_terminal_deliveries ch now (\<lambda>_. NoFault) age d =
        Some (Returned (Inr (rows_matching (expired_delivery (now - int age)) (deliveries d))), d') \<and>
      deliveries d' = filter (\<lambda>r. \<not> (hd_status r \<in> {Sent, Dead, Skipped} \<and>
        (\<exists>t. hd_finished_at r = Some t \<and> t < now - int age))) (deliveries d) \<and>
      events d' = events d \<and> dispatch_keys d' = dispatch_keys d \<and> db_ok jt d') \<and>
    (\<exists>d'. purge_dispatch_keys ch now (\<lambda>_. NoFault) age d =
        Some (Returned (Inr (rows_matching (expired_key (now - int age)) (dispatch_keys d))), d') \<and>
      dispatch_keys d' = filter (\<lambda>k. \<not> dk_created_at k < now - int age) (dispatch_keys d) \<and>
      events d' = events d \<and> deliveries d' = deliveries d \<and> db_ok jt d')"
proof -
  have e: "expired_delivery c r \<longleftrightarrow> hd_status r \<in> {Sent, Dead, Skipped} \<and>
      (\<exists>t. hd_finished_at r = Some t \<and> t < c)" for c r
    by (auto simp: expired_delivery_def terminal_status_def split: option.splits)
  show ?thesis
    using pd.loop_complete [OF assms(1), of "now - int age" 0 0] pk.loop_complete [OF assms(1), of "now - int age" 0 0]
    unfolding purge_terminal_deliveries_def purge_dispatch_keys_def purge_with_exact [OF assms(2)]
    by (auto simp: e expired_key_def)
qed

lemma spared_iff:
  assumes "distinct (map ev_id (events d))" and "i \<in> ev_id ` set (events d)"
  shows "spared c d i \<longleftrightarrow> i \<in> ev_id ` set (filter (\<lambda>e. \<not> expired_event c d e) (events d))"
proof -
  have "inj_on ev_id (set (events d))" using assms(1) by (simp add: distinct_map)
  with assms(2) show ?thesis by (auto simp: spared_def list_ex_iff dest: inj_onD)
qed

text \<open>
  (C5) The purge of events is safe and complete: it deletes exactly the events created before the cutoff none of
  whose deliveries is still queued, running or awaiting a retry; with an event go its reservation and
  its deliveries, all of them finished, and nothing else: no unfinished delivery is ever lost.
\<close>

theorem purge_events_safe:
  assumes "db_ok jt d" and "chrono_exact ch now age"
  shows "\<exists>d'. purge_events ch now (\<lambda>_. NoFault) age d =
      Some (Returned (Inr (length (events d) - length (events d'))), d') \<and>
    events d' = filter (\<lambda>e. \<not> (ev_created_at e < now - int age \<and>
      (\<forall>r \<in> set (deliveries d). hd_event_id r = ev_id e \<longrightarrow> terminal_status (hd_status r)))) (events d) \<and>
    deliveries d' = filter (\<lambda>r. hd_event_id r \<in> ev_id ` set (events d')) (deliveries d) \<and>
    dispatch_keys d' = filter (\<lambda>k. dk_event_id k \<in> ev_id ` set (events d')) (dispatch_keys d) \<and>
    (\<forall>r \<in> set (deliveries d). \<not> terminal_status (hd_status r) \<longrightarrow> r \<in> set (deliveries d')) \<and> db_ok jt d'"
proof -
  let ?c = "now - int age"
  have x: "expired_event ?c d e \<longleftrightarrow> ev_created_at e < ?c \<and>
      (\<forall>r \<in> set (deliveries d). hd_event_id r = ev_id e \<longrightarrow> terminal_status (hd_status r))" for e
    by (auto simp: expired_event_def list_ex_iff active_status_iff)
  obtain d' where run: "purge_loop (purge_events_chunk ?c) (\<lambda>_. NoFault) 0 0 d =
      Some (Inr (rows_matching (expired_event ?c d) (events d)), d')"
    and ev: "events d' = filter (\<lambda>e. \<not> expired_event ?c d e) (events d)" and ok: "db_ok jt d'"
    and fr: "filter (\<lambda>r. spared ?c d' (hd_event_id r)) (deliveries d') = filter (\<lambda>r. spared ?c d (hd_event_id r)) (deliveries d)"
      "filter (\<lambda>k. spared ?c d' (dk_event_id k)) (dispatch_keys d') = filter (\<lambda>k. spared ?c d (dk_event_id k)) (dispatch_keys d)"
    and none: "rows_matching (expired_event ?c d') (events d') = 0"
    using pe.loop_complete [OF assms(1), of ?c 0 0] by auto
  have cnt: "rows_matching (expired_event ?c d) (events d) = length (events d) - length (events d')"
    using sum_length_filter_compl [of "expired_event ?c d" "events d"] by (simp add: rows_matching_def ev)
  have all: "spared ?c d' i" for i
    using none by (auto simp: spared_def list_ex_iff rows_matching_eq_0_iff)
  have dist: "distinct (map ev_id (events d))"
    and fk: "\<forall>r \<in> set (deliveries d). hd_event_id r \<in> ev_id ` set (events d)"
      "\<forall>k \<in> set (dispatch_keys d). dk_event_id k \<in> ev_id ` set (events d)"
    using assms(1) by (simp_all add: schema_defs)
  have dl: "deliveries d' = filter (\<lambda>r. hd_event_id r \<in> ev_id ` set (events d')) (deliveries d)"
    using fr(1) fk(1) by (auto simp: all ev spared_iff [OF dist] intro!: filter_cong)
  moreover have "dispatch_keys d' = filter (\<lambda>k. dk_event_id k \<in> ev_id ` set (events d')) (dispatch_keys d)"
    using fr(2) fk(2) by (auto simp: all ev spared_iff [OF dist] intro!: filter_cong)
  moreover have "r \<in> set (deliveries d')" if "r \<in> set (deliveries d)" "\<not> terminal_status (hd_status r)" for r
    using that fk(1) by (auto simp: dl ev x image_iff) metis
  ultimately show ?thesis
    using run ok ev cnt unfolding purge_events_def purge_with_exact [OF assms(2)] x by auto
qed

lemma purge_with_returns:
  assumes "\<And>c. \<exists>res d'. purge_loop (chunk c) faults 0 0 d = Some (res, d') \<and> P d'" and "P d"
  shows "\<exists>res d'. purge_with chunk ch now faults age d = Some (res, d') \<and> P d'"
proof (cases "cutoff_from ch now age")
  case (Inr c)
  then show ?thesis using assms(1) [of c] by (auto simp: purge_with_def)
qed (use assms(2) in \<open>simp add: purge_with_def\<close>)

lemma purge_events_keeps_active:
  assumes "db_ok jt d" and "db_ok jt d'"
    and "filter (\<lambda>r. spared c d' (hd_event_id r)) (deliveries d') = filter (\<lambda>r. spared c d (hd_event_id r)) (deliveries d)"
    and "r \<in> set (deliveries d)" and "\<not> terminal_status (hd_status r)"
  shows "r \<in> set (deliveries d')"
proof -
  have "spared c d (hd_event_id r)"
    using assms(4,5) by (auto simp: spared_def list_ex_iff expired_event_def active_status_iff)
  then have "r \<in> set (filter (\<lambda>r. spared c d (hd_event_id r)) (deliveries d))" using assms(4) by simp
  then show ?thesis by (simp add: assms(3) [symmetric])
qed

text \<open>
  (C21) Every purge returns, for every pattern of connection faults in its statements: no full chunk repeats for
  ever. Whatever it returns, the schema still holds and every unfinished delivery is still there.
\<close>

theorem purges_return:
  assumes "db_ok jt d"
  shows "\<forall>purge \<in> {purge_terminal_deliveries, purge_dispatch_keys, purge_events}.
    \<exists>res d'. purge ch now faults age d = Some (res, d') \<and> db_ok jt d' \<and>
      (\<forall>r \<in> set (deliveries d). \<not> terminal_status (hd_status r) \<longrightarrow> r \<in> set (deliveries d'))"
proof -
  let ?P = "\<lambda>d'. db_ok jt d' \<and>
    (\<forall>r \<in> set (deliveries d). \<not> terminal_status (hd_status r) \<longrightarrow> r \<in> set (deliveries d'))"
  have "\<exists>res d'. purge_loop (purge_deliveries_chunk c) faults 0 0 d = Some (res, d') \<and> ?P d'" for c
  proof -
    obtain res d' where run: "purge_loop (purge_deliveries_chunk c) faults 0 0 d = Some (res, d')" and ok: "db_ok jt d'"
      and f: "filter (\<lambda>r. \<not> expired_delivery c r) (deliveries d') = filter (\<lambda>r. \<not> expired_delivery c r) (deliveries d)"
      using pd.loop_returns [OF assms, of c faults 0 0] by blast
    have "r \<in> set (deliveries d')" if "r \<in> set (deliveries d)" "\<not> terminal_status (hd_status r)" for r
    proof -
      have "r \<in> set (filter (\<lambda>r. \<not> expired_delivery c r) (deliveries d))"
        using that by (simp add: expired_delivery_def)
      then show ?thesis by (simp add: f [symmetric])
    qed
    with run ok show ?thesis by blast
  qed
  moreover have "\<exists>res d'. purge_loop (purge_keys_chunk c) faults 0 0 d = Some (res, d') \<and> ?P d'" for c
    using pk.loop_returns [OF assms, of c faults 0 0] by fastforce
  moreover have "\<exists>res d'. purge_loop (purge_events_chunk c) faults 0 0 d = Some (res, d') \<and> ?P d'" for c
    using pe.loop_returns [OF assms, of c faults 0 0] purge_events_keeps_active [OF assms] by fastforce
  moreover have "?P d" using assms by blast
  ultimately show ?thesis
    unfolding purge_terminal_deliveries_def purge_dispatch_keys_def purge_events_def
    using purge_with_returns [where P = ?P] by simp
qed

text \<open>
  (C40) An age that \<open>chrono\<close> cannot represent is replaced by \<open>chrono\<close>'s largest duration, which reaches further back than
  any representable instant: the purge then panics instead of finding nothing to delete.
\<close>

theorem purge_panics_on_huge_age:
  assumes "ch_from_std ch age = None" and "now - ch_max ch < earliest"
    and "\<forall>x. now - x < earliest \<longrightarrow> (\<exists>p. ch_sub ch now x = Inl p)"
  shows "\<forall>purge \<in> {purge_terminal_deliveries, purge_dispatch_keys, purge_events}.
    \<exists>p. purge ch now faults age d = Some (Panicked p, d)"
proof -
  obtain p where "ch_sub ch now (ch_max ch) = Inl p" using assms(2,3) by blast
  then have "purge_with chunk ch now faults age d = Some (Panicked p, d)" for chunk
    using assms(1) by (simp add: purge_with_def cutoff_from_def)
  then show ?thesis
    by (simp add: purge_terminal_deliveries_def purge_dispatch_keys_def purge_events_def)
qed

text \<open>A small \<open>chrono\<close>: durations up to 1000, instants from 0 on.\<close>

definition sample_chrono :: chrono where
  "sample_chrono = \<lparr>ch_from_std = (\<lambda>n. if n \<le> 1000 then Some (int n) else None), ch_max = 1000,
    ch_sub = (\<lambda>t x. if t - x < 0 then Inl (StaticStr ''overflow'') else Inr (t - x))\<rparr>"

theorem purge_panics_on_huge_age_witness:
  "purge_events sample_chrono 200 (\<lambda>_. NoFault) 1001 sample_db = Some (Panicked (StaticStr ''overflow''), sample_db)"
proof -
  have "\<forall>purge \<in> {purge_terminal_deliveries, purge_dispatch_keys, purge_events}.
      \<exists>p. purge sample_chrono 200 (\<lambda>_. NoFault) 1001 sample_db = Some (Panicked p, sample_db)"
    by (rule purge_panics_on_huge_age [where earliest = 0]) (simp_all add: sample_chrono_def)
  then show ?thesis
    by (simp add: purge_events_def purge_with_def cutoff_from_def sample_chrono_def)
qed

theorem purges_return_witness:
  "\<exists>res d'. purge_events sample_chrono 200 (\<lambda>_. FailAfter PoolTimedOut) 10 sample_db = Some (res, d') \<and>
     sample_delivery \<in> set (deliveries d')"
  using purges_return [OF sample_db_ok, of sample_chrono 200 "\<lambda>_. FailAfter PoolTimedOut" 10]
  by (auto simp: sample_db_def sample_delivery_def)

lemma sample_sent_db_ok: "db_ok (\<lambda>_. ''{}'') sample_sent_db"
  by (simp add: schema_defs check_defs sample_sent_db_def sample_db_def sample_event_row_def
      sample_delivery_def delivery_key_def temporal_check_def status_invariants_def coalesce_def)

theorem purge_rows_complete_witness:
  "\<exists>d'. purge_terminal_deliveries sample_chrono 200 (\<lambda>_. NoFault) 50 sample_sent_db = Some (Returned (Inr 1), d') \<and>
     deliveries d' = [] \<and> events d' = [sample_event_row]"
proof -
  have "chrono_exact sample_chrono 200 50" by (simp add: chrono_exact_def sample_chrono_def)
  from purge_rows_complete [OF sample_sent_db_ok this] show ?thesis
    by (simp add: sample_sent_db_def sample_db_def sample_delivery_def rows_matching_def expired_delivery_def)
      blast
qed

theorem purge_events_safe_witness:
  "(\<exists>d'. purge_events sample_chrono 200 (\<lambda>_. NoFault) 50 sample_sent_db = Some (Returned (Inr 1), d') \<and>
      events d' = [] \<and> deliveries d' = []) \<and>
   (\<exists>d'. purge_events sample_chrono 200 (\<lambda>_. NoFault) 50 sample_db = Some (Returned (Inr 0), d') \<and>
      deliveries d' = [sample_delivery])"
proof -
  have c: "chrono_exact sample_chrono 200 50" by (simp add: chrono_exact_def sample_chrono_def)
  from purge_events_safe [OF sample_sent_db_ok c] purge_events_safe [OF sample_db_ok c] show ?thesis
    by (auto simp: sample_sent_db_def sample_db_def sample_delivery_def sample_event_row_def)
qed

section \<open>The order of the purges\<close>

lemma purge_events_result:
  assumes "db_ok jt d" and "chrono_exact ch now age"
  shows "\<exists>d'. purge_events ch now (\<lambda>_. NoFault) age d =
      Some (Returned (Inr (rows_matching (expired_event (now - int age) d) (events d))), d') \<and>
    events d' = filter (\<lambda>e. \<not> expired_event (now - int age) d e) (events d)"
  using pe.loop_complete [OF assms(1), of "now - int age" 0 0]
  unfolding purge_events_def purge_with_exact [OF assms(2)] by auto

text \<open>The other two purges remove nothing that the purge of events looks at.\<close>

lemma expired_event_purged:
  assumes "deliveries d1 = filter (\<lambda>r. \<not> expired_delivery c r) (deliveries d)"
  shows "expired_event c' d1 = expired_event c' d"
  using assms by (intro ext) (auto simp: expired_event_def list_ex_iff expired_delivery_def active_status_iff)

text \<open>
  (C26) The order of the purges does not matter to the events. After \<open>purge_terminal_deliveries\<close> or
  \<open>purge_dispatch_keys\<close>, with any age, \<open>purge_events\<close> deletes the same events and returns the same number as without
  it: finished deliveries and reservations never keep an event alive.
\<close>

theorem purge_order_irrelevant:
  assumes "db_ok jt d" and "chrono_exact ch now age" and "chrono_exact ch now age1"
    and "first \<in> {purge_terminal_deliveries, purge_dispatch_keys}"
  shows "\<exists>res d1 n d' d1'. first ch now (\<lambda>_. NoFault) age1 d = Some (Returned (Inr res), d1) \<and>
    purge_events ch now (\<lambda>_. NoFault) age d = Some (Returned (Inr n), d') \<and>
    purge_events ch now (\<lambda>_. NoFault) age d1 = Some (Returned (Inr n), d1') \<and> events d1' = events d'"
proof -
  let ?c1 = "now - int age1"
  obtain d1 n1 where run: "first ch now (\<lambda>_. NoFault) age1 d = Some (Returned (Inr n1), d1)"
    and d1: "events d1 = events d" "db_ok jt d1" "expired_event c d1 = expired_event c d" for c
  proof (cases "first = purge_terminal_deliveries")
    case True
    obtain d1 where "purge_loop (purge_deliveries_chunk ?c1) (\<lambda>_. NoFault) 0 0 d =
        Some (Inr (rows_matching (expired_delivery ?c1) (deliveries d)), d1)"
      and "deliveries d1 = filter (\<lambda>r. \<not> expired_delivery ?c1 r) (deliveries d)"
      and "db_ok jt d1" "events d1 = events d"
      using pd.loop_complete [OF assms(1), of ?c1 0 0] by auto
    then show ?thesis
      using expired_event_purged
      by (intro that [of "rows_matching (expired_delivery ?c1) (deliveries d)" d1])
        (simp_all add: True purge_terminal_deliveries_def purge_with_exact [OF assms(3)])
  next
    case False
    then have f: "first = purge_dispatch_keys" using assms(4) by blast
    obtain d1 where "purge_loop (purge_keys_chunk ?c1) (\<lambda>_. NoFault) 0 0 d =
        Some (Inr (rows_matching (expired_key ?c1) (dispatch_keys d)), d1)"
      and "db_ok jt d1" "events d1 = events d" "deliveries d1 = deliveries d"
      using pk.loop_complete [OF assms(1), of ?c1 0 0] by auto
    then show ?thesis
      by (intro that [of "rows_matching (expired_key ?c1) (dispatch_keys d)" d1])
        (simp_all add: f purge_dispatch_keys_def purge_with_exact [OF assms(3)] expired_event_def [abs_def])
  qed
  from purge_events_result [OF assms(1,2)] purge_events_result [OF d1(2) assms(2)] run show ?thesis
    by (auto simp: d1(1,3))
qed

theorem purge_order_irrelevant_witness:
  "\<exists>n1 d1 n d' d1'. purge_terminal_deliveries sample_chrono 200 (\<lambda>_. NoFault) 60 sample_sent_db =
      Some (Returned (Inr n1), d1) \<and>
    purge_events sample_chrono 200 (\<lambda>_. NoFault) 50 sample_sent_db = Some (Returned (Inr n), d') \<and>
    purge_events sample_chrono 200 (\<lambda>_. NoFault) 50 d1 = Some (Returned (Inr n), d1') \<and> events d1' = events d'"
  by (rule purge_order_irrelevant [OF sample_sent_db_ok, of sample_chrono 200 50 60 purge_terminal_deliveries])
    (simp_all add: chrono_exact_def sample_chrono_def)

end
