(* ===== verification/Outbox_System.thy ===== *)
theory Outbox_System
  imports Outbox_Dispatch Outbox_Purge
begin

text \<open>
  The components together, as one transition system over the shared tables: producers that commit dispatches,
  any number of workers that claim deliveries under fresh leases and later write a verdict (a worker
  may be slow, crash, or try again with an old lease), and purges, one chunk at a time, in every
  order. The changes of status are compared with the diagram in the crate's README. A dispatch that fails leaves nothing
  to commit and is no step; the queue's state is what was pushed to it, as its worker and its own purges (\<open>purge_done\<close>,
  \<open>purge_dead\<close>) belong to \<open>pg_work_queue\<close>.
\<close>

section \<open>The system\<close>

record 'q system =
  sy_db :: outbox_db
  sy_queue :: 'q
  sy_now :: timestamp
  sy_issued :: "uuid \<Rightarrow> (uuid \<times> string) option"

text \<open>
  A lease token is issued once, by the job queue, for the claim of one delivery. The worker that holds it
  may write any verdict for that delivery, at any time.
\<close>

datatype ('p, 'q, 'e) action =
    ADispatch "('p, 'q) dispatch_world" "'e DomainEvent" DispatchContext 'e
  | AClaim fault uuid string u32 uuid
  | AMark fault uuid string uuid bool "(unit, HandlerError) rresult"
  | APurge "nat stmt" fault
  | ATick timestamp

definition purge_chunks :: "nat stmt set" where
  "purge_chunks = range purge_deliveries_chunk \<union> range purge_keys_chunk \<union> range purge_events_chunk"

inductive sys_step ::
  "(json \<Rightarrow> string) \<Rightarrow> 'b Outbox \<Rightarrow> ('p, 'q, 'e) action \<Rightarrow> 'q system \<Rightarrow> 'q system \<Rightarrow> bool"
  for jt :: "json \<Rightarrow> string" and ob :: "'b Outbox"
where
  dispatched: "dispatch ob w E ctx event \<lparr>tx_db = sy_db s, tx_queue = sy_queue s, tx_failed = False\<rparr> = (Inr out, tx') \<Longrightarrow>
    dw_jsonb_text w = jt \<Longrightarrow> dw_now w \<le> sy_now s \<Longrightarrow>
    sys_step jt ob (ADispatch w E ctx event) s (s\<lparr>sy_db := tx_db tx', sy_queue := tx_queue tx'\<rparr>)"
| claimed: "sy_issued s t = None \<Longrightarrow>
    run_stmt f (claim_stmt (sy_now s) e h (attempt_param a) t) (sy_db s) = (res, d') \<Longrightarrow>
    sys_step jt ob (AClaim f e h a t) s (s\<lparr>sy_db := d', sy_issued := (sy_issued s)(t \<mapsto> (e, h))\<rparr>)"
| marked: "sy_issued s t = Some (e, h) \<Longrightarrow>
    settle_mark x verdict f (sy_now s) e h t (sy_db s) = (res, d', tr) \<Longrightarrow>
    sys_step jt ob (AMark f e h t x verdict) s (s\<lparr>sy_db := d'\<rparr>)"
| purged: "chunk \<in> purge_chunks \<Longrightarrow> run_stmt f chunk (sy_db s) = (res, d') \<Longrightarrow>
    sys_step jt ob (APurge chunk f) s (s\<lparr>sy_db := d'\<rparr>)"
| ticked: "sy_now s \<le> now \<Longrightarrow> sys_step jt ob (ATick now) s (s\<lparr>sy_now := now\<rparr>)"

inductive_cases sys_stepE: "sys_step jt ob a s s'"

inductive_simps sys_step_mark: "sys_step jt ob (AMark f e h t x v) s s'"

definition sys_init :: "'q system \<Rightarrow> bool" where
  "sys_init s \<longleftrightarrow> sy_db s = empty_db \<and> (\<forall>t. sy_issued s t = None)"

inductive sys_reach ::
  "(json \<Rightarrow> string) \<Rightarrow> 'b Outbox \<Rightarrow> ('p, 'q, 'e) action list \<Rightarrow> 'q system \<Rightarrow> bool"
  for jt :: "json \<Rightarrow> string" and ob :: "'b Outbox"
where
  reach_init: "sys_init s \<Longrightarrow> sys_reach jt ob [] s"
| reach_step: "sys_reach jt ob as s \<Longrightarrow> sys_step jt ob a s s' \<Longrightarrow> sys_reach jt ob (as @ [a]) s'"

section \<open>The invariant\<close>

text \<open>
  The schema holds; the clock has reached every row; and a running row carries a lease that was issued for
  its own key.
\<close>

definition sys_inv :: "(json \<Rightarrow> string) \<Rightarrow> 'q system \<Rightarrow> bool" where
  "sys_inv jt s \<longleftrightarrow> db_ok jt (sy_db s) \<and>
    (\<forall>r \<in> set (deliveries (sy_db s)). clock_reached (sy_now s) r \<and>
      (\<forall>t. hd_lease_token r = Some t \<longrightarrow> sy_issued s t = Some (delivery_key r)))"

text \<open>What every step does to one delivery: it appears queued, is rewritten in place, or is gone.\<close>

lemma dispatch_deliveries:
  assumes "dispatch ob w E ctx event tx = (Inr out, tx')"
  shows "\<exists>rows. deliveries (tx_db tx') = deliveries (tx_db tx) @ rows \<and>
    (\<forall>r \<in> set rows. hd_status r = Queued \<and> hd_attempts r = 0 \<and> hd_lease_token r = None \<and>
      hd_last_attempted_at r = None \<and> hd_created_at r = dw_now w)"
  using assms
proof (cases rule: dispatch_Inr)
  case duplicate
  then show ?thesis by simp
next
  case (inserted h payload)
  then show ?thesis
    by (auto simp: inserted_rows_def new_delivery_def dest!: new_deliveries_rows)
qed

lemma purge_chunk_deliveries:
  assumes "db_ok jt d" and "chunk \<in> purge_chunks" and "chunk d = Inr (n, d')"
  shows "db_ok jt d'" "set (deliveries d') \<subseteq> set (deliveries d)"
    "r \<in> set (deliveries d) \<Longrightarrow> \<not> terminal_status (hd_status r) \<Longrightarrow> r \<in> set (deliveries d')"
proof -
  from assms(2) consider c where "chunk = purge_deliveries_chunk c" | c where "chunk = purge_keys_chunk c"
    | c where "chunk = purge_events_chunk c" by (auto simp: purge_chunks_def)
  note cs = this
  show "db_ok jt d'"
    using cs assms(1,3) pd.chunk_invar pk.chunk_invar pe.chunk_invar by cases blast+
  show "set (deliveries d') \<subseteq> set (deliveries d)"
    using cs assms(3) by cases (auto simp: purge_deliveries_chunk_def purge_keys_chunk_def
        purge_events_chunk_def delete_events_def Let_def)
  assume r: "r \<in> set (deliveries d)" "\<not> terminal_status (hd_status r)"
  from cs show "r \<in> set (deliveries d')"
  proof cases
    case (1 c)
    have "r \<in> set (filter (\<lambda>r. \<not> expired_delivery c r) (deliveries d))" using r by (simp add: expired_delivery_def)
    then show ?thesis using pd.chunk_spares [OF assms(1)] assms(3) 1 by (metis filter_is_subset subsetD)
  next
    case (2 c)
    then show ?thesis using r pk.chunk_frame [OF assms(1)] assms(3) by auto
  next
    case (3 c)
    then show ?thesis
      using purge_events_keeps_active [OF assms(1) _ _ r] pe.chunk_frame [OF assms(1)] pe.chunk_invar [OF assms(1)]
        assms(3) by blast
  qed
qed

lemma settle_set_keeps:
  "hd_last_attempted_at (settle_set x v now r) = hd_last_attempted_at r"
  "hd_created_at (settle_set x v now r) = hd_created_at r"
  "delivery_key (settle_set x v now r) = delivery_key r"
  by (cases v rule: result_cases; simp add: row_update_defs delivery_key_def)+

lemma clock_reached_update [simp]: "clock_reached now (set_updated_at t r) = clock_reached now r"
  by (simp add: clock_reached_def set_updated_at_def)

lemma clock_reached_mono: "clock_reached now r \<Longrightarrow> now \<le> now' \<Longrightarrow> clock_reached now' r"
  by (simp add: clock_reached_def)

text \<open>The row of a claim and the row of a mark, as far as the invariant looks at them.\<close>

lemma claim_rows:
  assumes "run_stmt f (claim_stmt now e h a t) d = (res, d')" and "r' \<in> set (deliveries d')"
  obtains (same) "r' \<in> set (deliveries d)"
  | (taken) r where "r \<in> set (deliveries d)" "claimable e h r" "r' = set_updated_at now (claim_set now a t r)"
proof -
  from run_stmt_db [OF assms(1)] consider "d' = d" | v where "claim_stmt now e h a t d = Inr (v, d')" by blast
  then show ?thesis
  proof cases
    case 1 then show ?thesis using assms(2) same by simp
  next
    case 2
    then obtain n where "update_deliveries now (claimable e h) (claim_set now a t) d = Inr (n, d')"
      by (rule claim_stmt_db)
    from update_deliveries_frame(4) [OF this] assms(2) show ?thesis
      using same taken by (auto split: if_splits)
  qed
qed

lemma mark_rows:
  assumes "settle_mark x v f now e h t d = (res, d', tr)" and "r' \<in> set (deliveries d')"
  obtains (same) "r' \<in> set (deliveries d)"
  | (left) r where "r \<in> set (deliveries d)" "fenced_where e h t r"
      "r' = set_updated_at now (settle_set x v now r)"
proof -
  from settled.mark_db [OF assms(1)] consider "d' = d"
    | n where "update_deliveries now (fenced_where e h t) (settle_set x v now) d = Inr (n, d')" by blast
  then show ?thesis
  proof cases
    case 1 then show ?thesis using assms(2) same by simp
  next
    case 2
    from update_deliveries_frame(4) [OF 2] assms(2) show ?thesis
      using same left by (auto split: if_splits)
  qed
qed

lemma run_stmt_claim_db_ok:
  "db_ok jt d \<Longrightarrow> run_stmt f (claim_stmt now e h a t) d = (res, d') \<Longrightarrow> db_ok jt d'"
  using run_stmt_db claim_db_ok by blast

lemma sys_inv_dispatched:
  assumes inv: "sys_inv jt s" and w: "dw_jsonb_text w = jt" "dw_now w \<le> sy_now s"
    and d: "dispatch ob w E ctx event \<lparr>tx_db = sy_db s, tx_queue = sy_queue s, tx_failed = False\<rparr> = (Inr out, tx')"
  shows "sys_inv jt (s\<lparr>sy_db := tx_db tx', sy_queue := tx_queue tx'\<rparr>)"
proof -
  have "db_ok jt (tx_db tx')" using dispatch_db_ok(1) [OF _ d] inv w(1) by (simp add: sys_inv_def)
  then show ?thesis
    using dispatch_deliveries [OF d] inv w(2) by (auto simp: sys_inv_def clock_reached_def coalesce_def)
qed

lemma sys_inv_claimed:
  assumes inv: "sys_inv jt s" and new: "sy_issued s t = None"
    and c: "run_stmt f (claim_stmt (sy_now s) e h a t) (sy_db s) = (res, d')"
  shows "sys_inv jt (s\<lparr>sy_db := d', sy_issued := (sy_issued s)(t \<mapsto> (e, h))\<rparr>)"
proof -
  have "clock_reached (sy_now s) r' \<and>
      (\<forall>u. hd_lease_token r' = Some u \<longrightarrow> ((sy_issued s)(t \<mapsto> (e, h))) u = Some (delivery_key r'))"
    if "r' \<in> set (deliveries d')" for r'
    using c that
  proof (cases rule: claim_rows)
    case same
    with inv new show ?thesis by (fastforce simp: sys_inv_def)
  next
    case (taken r)
    then show ?thesis
      by (simp add: claim_set_def claimable_def delivery_key_def clock_reached_def coalesce_def set_updated_at_def)
  qed
  with run_stmt_claim_db_ok [OF _ c] inv show ?thesis by (simp add: sys_inv_def)
qed

lemma sys_inv_marked:
  assumes inv: "sys_inv jt s" and m: "settle_mark x v f (sy_now s) e h t (sy_db s) = (res, d', tr)"
  shows "sys_inv jt (s\<lparr>sy_db := d'\<rparr>)"
proof -
  have "clock_reached (sy_now s) r' \<and> (\<forall>u. hd_lease_token r' = Some u \<longrightarrow> sy_issued s u = Some (delivery_key r'))"
    if "r' \<in> set (deliveries d')" for r'
    using m that
  proof (cases rule: mark_rows)
    case same
    with inv show ?thesis by (simp add: sys_inv_def)
  next
    case (left r)
    with inv show ?thesis
      by (simp add: sys_inv_def settled.sets clock_reached_def settle_set_keeps set_updated_at_def)
  qed
  with settled.mark_db_ok [OF _ m] inv show ?thesis by (simp add: sys_inv_def)
qed

lemma sys_inv_step:
  assumes inv: "sys_inv jt s" and "sys_step jt ob a s s'"
  shows "sys_inv jt s'"
  using assms(2)
proof cases
  case (purged chunk f res d')
  from run_stmt_db [OF purged(4)] have "db_ok jt d' \<and> set (deliveries d') \<subseteq> set (deliveries (sy_db s))"
    using purge_chunk_deliveries(1,2) [OF _ purged(3)] inv unfolding sys_inv_def by blast
  with inv purged(2) show ?thesis by (auto simp: sys_inv_def)
next
  case (ticked now)
  with inv show ?thesis by (auto simp: sys_inv_def intro: clock_reached_mono)
qed (use inv in \<open>blast intro: sys_inv_dispatched sys_inv_claimed sys_inv_marked\<close>)+

interpretation sys: invariant_system sys_init "\<lambda>s s'. \<exists>a :: ('p, 'q, 'e) action. sys_step jt ob a s s'"
  "\<lambda>s. \<exists>as :: ('p, 'q, 'e) action list. sys_reach jt ob as s" "sys_inv jt" for jt ob
proof
  show "P s" if "\<exists>as :: ('p, 'q, 'e) action list. sys_reach jt ob as s" "\<And>s. sys_init s \<Longrightarrow> P s"
    "\<And>s s'. \<exists>as :: ('p, 'q, 'e) action list. sys_reach jt ob as s \<Longrightarrow> P s \<Longrightarrow>
      \<exists>a :: ('p, 'q, 'e) action. sys_step jt ob a s s' \<Longrightarrow> P s'" for P s
  proof -
    from that(1) obtain as :: "('p, 'q, 'e) action list" where "sys_reach jt ob as s" ..
    then show ?thesis by (induction rule: sys_reach.induct) (blast intro: that(2,3))+
  qed
  show "sys_inv jt s" if "sys_init s" for s :: "'q system"
    using that by (simp add: sys_init_def sys_inv_def empty_db_def schema_defs)
qed (blast intro: sys_inv_step)

section \<open>The status diagram\<close>

text \<open>The arrows of the state machine as \<^verbatim>\<open>README.md\<close> draws it.\<close>

fun documented_edge :: "DeliveryStatus \<Rightarrow> DeliveryStatus \<Rightarrow> bool" where
  "documented_edge Queued st = (st = Running)"
| "documented_edge Running st = (st \<in> {Sent, AwaitingRetry, Dead, Skipped})"
| "documented_edge AwaitingRetry st = (st \<in> {Running, Dead})"
| "documented_edge st st' = False"

text \<open>
  The abstract specification of the code: how the delivery with a given key may change in one step. It appears queued and
  untried; while unfinished it may be claimed, which never lowers the attempt count, also when it is running already
  (the lease was lost, or the verdict did not arrive); a running one may be settled, with the attempts it has; only a
  finished one may disappear.
\<close>

fun row_change :: "delivery_row option \<Rightarrow> delivery_row option \<Rightarrow> bool" where
  "row_change None None = True"
| "row_change None (Some r) = (hd_status r = Queued \<and> hd_attempts r = 0)"
| "row_change (Some r) None = terminal_status (hd_status r)"
| "row_change (Some r) (Some r') = (r' = r \<or>
    (hd_status r \<in> {Queued, Running, AwaitingRetry} \<and> hd_status r' = Running \<and> hd_attempts r \<le> hd_attempts r') \<or>
    (hd_status r = Running \<and> hd_status r' \<in> {AwaitingRetry, Sent, Skipped, Dead} \<and> hd_attempts r' = hd_attempts r))"

text \<open>No row carries the lease \<open>t\<close>.\<close>

definition lease_free :: "uuid \<Rightarrow> outbox_db \<Rightarrow> bool" where
  "lease_free t d \<longleftrightarrow> (\<forall>r \<in> set (deliveries d). hd_lease_token r \<noteq> Some t)"

lemma row_change_refl [simp]: "row_change x x"
  by (cases x) auto

lemma final_status_in: "final_status x v \<in> {AwaitingRetry, Sent, Skipped, Dead}"
  by (cases v rule: result_cases) auto

lemma dispatch_row_change:
  assumes "dispatch ob w E ctx event tx = (Inr out, tx')"
  shows "row_change (find_delivery k (deliveries (tx_db tx))) (find_delivery k (deliveries (tx_db tx')))"
proof -
  obtain rows where rows: "deliveries (tx_db tx') = deliveries (tx_db tx) @ rows"
    "\<And>r. r \<in> set rows \<Longrightarrow> hd_status r = Queued \<and> hd_attempts r = 0"
    using dispatch_deliveries [OF assms] by blast
  show ?thesis
  proof (cases "find_delivery k (deliveries (tx_db tx))")
    case None
    then show ?thesis
      using rows hd_tab.look_SomeD [of k rows]
      by (cases "find_delivery k rows") (auto simp: hd_tab.look_append)
  qed (simp add: rows(1) hd_tab.look_append)
qed

lemma claim_row_change:
  assumes "run_stmt f (claim_stmt now e h a t) d = (res, d')"
  shows "row_change (find_delivery k (deliveries d)) (find_delivery k (deliveries d'))"
proof -
  from run_stmt_db [OF assms] consider "d' = d" | v where "claim_stmt now e h a t d = Inr (v, d')" by blast
  then show ?thesis
  proof cases
    case 2
    then obtain n where "update_deliveries now (claimable e h) (claim_set now a t) d = Inr (n, d')"
      by (rule claim_stmt_db)
    note fr = update_deliveries_frame(4) [OF this]
    have "row_change (Some r) (Some (if claimable e h r then set_updated_at now (claim_set now a t r) else r))" for r
      by (cases "hd_status r") (auto simp: claimable_def claim_set_def)
    then show ?thesis
      by (simp add: fr hd_tab.look_update_where set_row_keeps split: option.split)
  qed simp
qed

lemma mark_row_change:
  assumes "settle_mark x v f now e h t d = (res, d', tr)"
  shows "row_change (find_delivery k (deliveries d)) (find_delivery k (deliveries d'))"
proof -
  from settled.mark_db [OF assms] consider "d' = d"
    | n where "update_deliveries now (fenced_where e h t) (settle_set x v now) d = Inr (n, d')" by blast
  then show ?thesis
  proof cases
    case 2
    note fr = update_deliveries_frame(4) [OF 2]
    have "row_change (Some r) (Some (if fenced_where e h t r then set_updated_at now (settle_set x v now r) else r))" for r
      using final_status_in [of x v] by (auto simp: fenced_where_def settled.sets settled.keeps)
    then show ?thesis
      by (simp add: fr hd_tab.look_update_where settle_set_keeps split: option.split)
  qed simp
qed

lemma purge_row_change:
  assumes ok: "db_ok jt d" and ch: "chunk \<in> purge_chunks" and run: "run_stmt f chunk d = (res, d')"
  shows "row_change (find_delivery k (deliveries d)) (find_delivery k (deliveries d'))"
proof -
  from run_stmt_db [OF run] consider "d' = d" | n where "chunk d = Inr (n, d')" by blast
  then show ?thesis
  proof cases
    case 2
    note pc = purge_chunk_deliveries [OF ok ch 2]
    show ?thesis
    proof (cases "find_delivery k (deliveries d')")
      case None
      show ?thesis
      proof (cases "find_delivery k (deliveries d)")
        case (Some r)
        then have r: "r \<in> set (deliveries d)" "delivery_key r = k" by (auto dest: hd_tab.look_SomeD)
        have "r \<notin> set (deliveries d')" using None r(2) by (auto simp: hd_tab.look_None_iff)
        then have "terminal_status (hd_status r)" using pc(3) [OF r(1)] by blast
        then show ?thesis by (simp add: Some None)
      qed (simp add: None)
    next
      case (Some r)
      then have "r \<in> set (deliveries d)" "delivery_key r = k"
        using pc(2) by (auto dest: hd_tab.look_SomeD)
      then show ?thesis using find_in_deliveries [OF ok] Some by simp
    qed
  qed simp
qed

lemma row_change_documented:
  assumes "row_change (Some r) (Some r')" and "hd_status r' \<noteq> hd_status r"
  shows "documented_edge (hd_status r) (hd_status r') \<and> (hd_status r = AwaitingRetry \<longrightarrow> hd_status r' = Running)"
  using assms by (cases "hd_status r"; cases "hd_status r'") auto

text \<open>
  (C11) The status of a delivery follows the specification \<open>row_change\<close> in every step of every interleaving of dispatches,
  claims, verdicts of fresh and stale workers, purges and connection faults: it appears queued, finished is final,
  attempts never decrease, nothing unfinished disappears. Compared with the README: every change of status is one of
  its arrows; its arrow from \<open>awaiting_retry\<close> to \<open>dead\<close> is never taken, since the last attempt, too, passes
  through \<open>running\<close>; and a row that is claimed again while it is running, for which the figure has no arrow, keeps its
  status.
\<close>

theorem status_diagram:
  assumes "sys_reach jt ob as s" and "sys_step jt ob a s s'"
    and "before = find_delivery k (deliveries (sy_db s))" and "after = find_delivery k (deliveries (sy_db s'))"
  shows "row_change before after \<and>
    (\<forall>r r'. before = Some r \<and> after = Some r' \<and> hd_status r' \<noteq> hd_status r \<longrightarrow>
      documented_edge (hd_status r) (hd_status r') \<and> (hd_status r = AwaitingRetry \<longrightarrow> hd_status r' = Running))"
proof -
  have inv: "sys_inv jt s" using sys.reach_invar assms(1) by blast
  from assms(2) have "row_change (find_delivery k (deliveries (sy_db s))) (find_delivery k (deliveries (sy_db s')))"
  proof cases
    case (dispatched w E ctx event out tx')
    from dispatch_row_change [OF dispatched(3), of k] dispatched(2) show ?thesis by simp
  next
    case (purged chunk f res d')
    with purge_row_change [OF _ purged(3,4), of jt k] inv show ?thesis by (simp add: sys_inv_def)
  qed (auto dest: claim_row_change mark_row_change)
  with row_change_documented show ?thesis unfolding assms(3,4) by fastforce
qed

section \<open>Leases\<close>

lemma lease_free_step:
  assumes "sys_inv jt s" and "sys_step jt ob a s s'" and "sy_issued s t = Some k" and "lease_free t (sy_db s)"
  shows "lease_free t (sy_db s') \<and> sy_issued s' t = Some k"
  using assms(2)
proof cases
  case (dispatched w E ctx event out tx')
  with dispatch_deliveries [OF dispatched(3)] assms(3,4) show ?thesis by (auto simp: lease_free_def)
next
  case (claimed t' f e h a res d')
  then have t: "t' \<noteq> t" using assms(3) by auto
  have "hd_lease_token r' \<noteq> Some t" if "r' \<in> set (deliveries d')" for r'
    using claimed(4) that
    by (cases rule: claim_rows) (use assms(4) t in \<open>auto simp: lease_free_def claim_set_def\<close>)
  with t claimed(2) assms(3) show ?thesis by (simp add: lease_free_def)
next
  case (marked t' e h x v f res d' tr)
  have "hd_lease_token r' \<noteq> Some t" if "r' \<in> set (deliveries d')" for r'
    using marked(4) that
    by (cases rule: mark_rows) (use assms(4) in \<open>auto simp: lease_free_def settled.sets\<close>)
  with marked(2) assms(3) show ?thesis by (simp add: lease_free_def)
next
  case (purged chunk f res d')
  from run_stmt_db [OF purged(4)] have "set (deliveries d') \<subseteq> set (deliveries (sy_db s))"
    using purge_chunk_deliveries(2) [OF _ purged(3)] assms(1) unfolding sys_inv_def by blast
  with purged(2) assms(3,4) show ?thesis by (auto simp: lease_free_def)
next
  case ticked
  with assms(3,4) show ?thesis by simp
qed

lemma lease_free_forever:
  assumes "sys_inv jt s" and "(\<lambda>s s'. \<exists>a :: ('p, 'q, 'e) action. sys_step jt ob a s s')\<^sup>*\<^sup>* s s'"
    and "sy_issued s t = Some k" and "lease_free t (sy_db s)"
  shows "sys_inv jt s' \<and> lease_free t (sy_db s') \<and> sy_issued s' t = Some k"
  using assms(2)
proof (induction rule: rtranclp_induct)
  case base
  then show ?case using assms by blast
next
  case (step y z)
  then show ?case using sys_inv_step lease_free_step by blast
qed

text \<open>
  (C12) A lease settles at most one verdict. Once a lease was issued and no row carries it any more, because its
  verdict was written, another worker took the delivery over, or the row was purged, it stays void: however the
  system goes on, a worker that writes with it changes nothing.
\<close>

theorem lease_void_forever:
  fixes s s' s'' :: "'q system"
  assumes "sys_reach jt ob (as :: ('p, 'q, 'e) action list) s"
    and "sy_issued s t = Some k" and "lease_free t (sy_db s)"
    and "(\<lambda>s s'. \<exists>a :: ('p, 'q, 'e) action. sys_step jt ob a s s')\<^sup>*\<^sup>* s s'"
    and "sys_step jt ob (AMark f e h t x v :: ('p, 'q, 'e) action) s' s''"
  shows "sy_db s'' = sy_db s'"
proof -
  have "sys_inv jt s" using sys.reach_invar assms(1) by blast
  from lease_free_forever [OF this assms(4,2,3)] have "lease_free t (sy_db s')" by blast
  then have "\<not> fenced_where e h t r" if "r \<in> set (deliveries (sy_db s'))" for r
    using that by (auto simp: lease_free_def fenced_where_def)
  with assms(5) show ?thesis
    by (auto simp: sys_step_mark dest: settled.mark_stale [rotated])
qed

text \<open>A short run of the sample system: a dispatch, two claims of the same delivery, and the late verdict.\<close>

definition sample_start :: "sample_queue system" where
  "sample_start = \<lparr>sy_db = empty_db, sy_queue = [], sy_now = 100, sy_issued = (\<lambda>_. None)\<rparr>"

lemma claim_step_reach:
  assumes reach: "sys_reach jt ob (as :: ('p, 'q, 'e) action list) s"
    and fnd: "find_delivery (e, h) (deliveries (sy_db s)) = Some r"
    and act: "\<not> terminal_status (hd_status r)" and tok: "text_ok h" and new: "sy_issued s t = None"
  obtains s' r' where "sys_step jt ob (AClaim NoFault e h a t :: ('p, 'q, 'e) action) s s'"
    "sys_reach jt ob (as @ [AClaim NoFault e h a t]) s'"
    "sy_issued s' = (sy_issued s)(t \<mapsto> (e, h))"
    "find_delivery (e, h) (deliveries (sy_db s')) = Some r'" "hd_status r' = Running" "hd_lease_token r' = Some t"
proof -
  have inv: "sys_inv jt s" using sys.reach_invar reach by blast
  then have ok: "db_ok jt (sy_db s)" by (simp add: sys_inv_def)
  have clk: "clock_reached (sy_now s) r"
    using inv hd_tab.look_SomeD [OF fnd] by (simp add: sys_inv_def)
  obtain ev where ev: "find_event e (events (sy_db s)) = Some ev" by (rule event_of_delivery [OF ok fnd])
  obtain v d' where c: "claim_stmt (sy_now s) e h (attempt_param a) t (sy_db s) = Inr (v, d')"
    "find_delivery (e, h) (deliveries d') = Some (set_updated_at (sy_now s) (claim_set (sy_now s) (attempt_param a) t r))"
    by (rule claim_active [OF ok fnd act clk tok ev, where a = "attempt_param a" and t = t]) blast
  have "sys_step jt ob (AClaim NoFault e h a t :: ('p, 'q, 'e) action) s
      (s\<lparr>sy_db := d', sy_issued := (sy_issued s)(t \<mapsto> (e, h))\<rparr>)"
    by (rule claimed [OF new, where res = "Inr v"]) (simp add: run_stmt_def c(1))
  from this reach_step [OF reach this] show ?thesis
  proof (rule that)
    show "find_delivery (e, h) (deliveries (sy_db (s\<lparr>sy_db := d', sy_issued := (sy_issued s)(t \<mapsto> (e, h))\<rparr>))) =
      Some (set_updated_at (sy_now s) (claim_set (sy_now s) (attempt_param a) t r))"
      by (simp add: c(2))
  qed (simp_all add: claim_set_def set_updated_at_def)
qed

lemma sample_queued:
  obtains s :: "sample_queue system" and as :: "(string, sample_queue, nat) action list"
  where "sys_reach (\<lambda>_. ''{}'') sample_outbox as s" "sy_issued s = (\<lambda>_. None)"
    "find_delivery (7, ''audit'') (deliveries (sy_db s)) = Some (new_delivery 100 7 1 ''audit'')"
proof -
  obtain tx' where d: "dispatch sample_outbox (sample_world 7) order_event sample_dctx 1 empty_tx =
    (Inr (Dispatched 7 2), tx')" by (rule sample_dispatched)
  let ?s1 = "sample_start\<lparr>sy_db := tx_db tx', sy_queue := tx_queue tx'\<rparr>"
  have "sys_reach (\<lambda>_. ''{}'') sample_outbox ([] :: (string, sample_queue, nat) action list) sample_start"
    by (rule reach_init) (simp add: sys_init_def sample_start_def)
  moreover have "sys_step (\<lambda>_. ''{}'') sample_outbox (ADispatch (sample_world 7) order_event sample_dctx 1)
      sample_start ?s1"
    by (rule dispatched [where out = "Dispatched 7 2"])
      (use d in \<open>simp_all add: sample_start_def empty_tx_def sample_world_def\<close>)
  ultimately have r1: "sys_reach (\<lambda>_. ''{}'') sample_outbox
      ([] @ [ADispatch (sample_world 7) order_event sample_dctx 1]) ?s1"
    by (rule reach_step)
  from d have "deliveries (tx_db tx') = new_deliveries 100 7 1 [''audit'', ''bill'']"
    by (cases rule: dispatch_Inr) (simp_all add: inserted_rows_def empty_tx_def empty_db_def sample_world_def
        order_event_def sample_event_def sample_outbox_ids)
  then have f1: "find_delivery (7, ''audit'') (deliveries (sy_db ?s1)) = Some (new_delivery 100 7 1 ''audit'')"
    by (simp add: new_deliveries_def new_delivery_def find_delivery_def delivery_key_def upt_rec)
  show ?thesis by (rule that [OF r1 _ f1]) (simp add: sample_start_def)
qed

lemma sample_run:
  obtains s :: "sample_queue system" and as :: "(string, sample_queue, nat) action list"
  where "sys_reach (\<lambda>_. ''{}'') sample_outbox as s" "sy_issued s 42 = Some (7, ''audit'')" "lease_free 42 (sy_db s)"
proof -
  obtain s1 :: "sample_queue system" and as1 :: "(string, sample_queue, nat) action list"
    where s1: "sys_reach (\<lambda>_. ''{}'') sample_outbox as1 s1" "sy_issued s1 = (\<lambda>_. None)"
      "find_delivery (7, ''audit'') (deliveries (sy_db s1)) = Some (new_delivery 100 7 1 ''audit'')"
    by (rule sample_queued)
  obtain s2 r2 where s2: "sys_reach (\<lambda>_. ''{}'') sample_outbox (as1 @ [AClaim NoFault 7 ''audit'' 1 42]) s2"
    "sy_issued s2 = (sy_issued s1)(42 \<mapsto> (7, ''audit''))"
    "find_delivery (7, ''audit'') (deliveries (sy_db s2)) = Some r2" "hd_status r2 = Running"
    by (rule claim_step_reach [OF s1(1,3), where t = 42 and a = 1])
      (simp_all add: new_delivery_def text_ok_def s1(2))
  obtain s3 r3 as where s3: "sys_reach (\<lambda>_. ''{}'') sample_outbox (as :: (string, sample_queue, nat) action list) s3"
    "sy_issued s3 = (sy_issued s2)(43 \<mapsto> (7, ''audit''))"
    "find_delivery (7, ''audit'') (deliveries (sy_db s3)) = Some r3" "hd_lease_token r3 = Some 43"
    by (rule claim_step_reach [OF s2(1,3), where t = 43 and a = 2])
      (auto simp: s2(2,4) text_ok_def s1(2))
  have i: "sy_issued s3 42 = Some (7, ''audit'')" by (simp add: s3(2) s2(2))
  have inv: "sys_inv (\<lambda>_. ''{}'') s3" using sys.reach_invar s3(1) by blast
  have "hd_lease_token r \<noteq> Some 42" if r: "r \<in> set (deliveries (sy_db s3))" for r
  proof
    assume "hd_lease_token r = Some 42"
    then have "delivery_key r = (7, ''audit'')" using inv r i by (auto simp: sys_inv_def)
    then have "r = r3" using find_in_deliveries [of "\<lambda>_. ''{}''" "sy_db s3" r] r inv s3(3) by (simp add: sys_inv_def)
    with s3(4) \<open>hd_lease_token r = Some 42\<close> show False by simp
  qed
  then have "lease_free 42 (sy_db s3)" by (simp add: lease_free_def)
  with s3(1) i show ?thesis by (rule that)
qed

theorem lease_void_forever_witness:
  "\<exists>(s :: sample_queue system) s'. sys_step (\<lambda>_. ''{}'') sample_outbox
      (AMark NoFault 7 ''audit'' 42 False (Inr ()) :: (string, sample_queue, nat) action) s s' \<and> sy_db s' = sy_db s"
proof -
  obtain s :: "sample_queue system" and as :: "(string, sample_queue, nat) action list"
    where s: "sys_reach (\<lambda>_. ''{}'') sample_outbox as s" "sy_issued s 42 = Some (7, ''audit'')" "lease_free 42 (sy_db s)"
    by (rule sample_run)
  obtain res d' tr where m: "settle_mark False (Inr ()) NoFault (sy_now s) 7 ''audit'' 42 (sy_db s) = (res, d', tr)"
    by (metis prod.exhaust)
  have st: "sys_step (\<lambda>_. ''{}'') sample_outbox
      (AMark NoFault 7 ''audit'' 42 False (Inr ()) :: (string, sample_queue, nat) action) s (s\<lparr>sy_db := d'\<rparr>)"
    by (rule marked [OF s(2) m])
  from lease_void_forever [OF s rtranclp.rtrancl_refl st] st show ?thesis by blast
qed

theorem status_diagram_witness:
  "\<exists>(s :: sample_queue system) s' s'' r r' r''.
    sys_step (\<lambda>_. ''{}'') sample_outbox (AClaim NoFault 7 ''audit'' 1 42 :: (string, sample_queue, nat) action) s s' \<and>
    find_delivery (7, ''audit'') (deliveries (sy_db s)) = Some r \<and>
    find_delivery (7, ''audit'') (deliveries (sy_db s')) = Some r' \<and>
    hd_status r = Queued \<and> hd_status r' = Running \<and> documented_edge (hd_status r) (hd_status r') \<and>
    sys_step (\<lambda>_. ''{}'') sample_outbox (AClaim NoFault 7 ''audit'' 2 43 :: (string, sample_queue, nat) action) s' s'' \<and>
    find_delivery (7, ''audit'') (deliveries (sy_db s'')) = Some r'' \<and> r'' \<noteq> r' \<and> row_change (Some r') (Some r'')"
proof -
  obtain s1 :: "sample_queue system" and as1 :: "(string, sample_queue, nat) action list"
    where s1: "sys_reach (\<lambda>_. ''{}'') sample_outbox as1 s1" "sy_issued s1 = (\<lambda>_. None)"
      "find_delivery (7, ''audit'') (deliveries (sy_db s1)) = Some (new_delivery 100 7 1 ''audit'')"
    by (rule sample_queued)
  let ?r = "new_delivery 100 7 1 ''audit''"
  have q: "hd_status ?r = Queued" by (simp add: new_delivery_def)
  obtain s2 r2 where s2: "sys_step (\<lambda>_. ''{}'') sample_outbox (AClaim NoFault 7 ''audit'' 1 42 :: (string, sample_queue, nat) action) s1 s2"
    "sys_reach (\<lambda>_. ''{}'') sample_outbox (as1 @ [AClaim NoFault 7 ''audit'' 1 42]) s2"
    "sy_issued s2 = (sy_issued s1)(42 \<mapsto> (7, ''audit''))"
    "find_delivery (7, ''audit'') (deliveries (sy_db s2)) = Some r2" "hd_status r2 = Running" "hd_lease_token r2 = Some 42"
    by (rule claim_step_reach [OF s1(1,3), where t = 42 and a = 1])
      (simp_all add: new_delivery_def text_ok_def s1(2))
  obtain s3 r3 where s3: "sys_step (\<lambda>_. ''{}'') sample_outbox (AClaim NoFault 7 ''audit'' 2 43 :: (string, sample_queue, nat) action) s2 s3"
    "find_delivery (7, ''audit'') (deliveries (sy_db s3)) = Some r3" "hd_lease_token r3 = Some 43"
    by (rule claim_step_reach [OF s2(2,4), where t = 43 and a = 2])
      (auto simp: s2(3,5) text_ok_def s1(2))
  have "documented_edge (hd_status ?r) (hd_status r2)"
    using status_diagram [OF s1(1) s2(1) s1(3) [symmetric] s2(4) [symmetric]] q s2(5) by simp
  moreover have "row_change (Some r2) (Some r3)"
    using status_diagram [OF s2(2) s3(1) s2(4) [symmetric] s3(2) [symmetric]] by blast
  moreover have "r3 \<noteq> r2" using s2(6) s3(3) by auto
  ultimately show ?thesis using s1(3) s2(1,4,5) s3(1,2) q by blast
qed

section \<open>Whole calls of the worker are steps of the system\<close>

lemma issued_step: "sys_step jt ob a s s' \<Longrightarrow> sy_issued s t = Some k \<Longrightarrow> sy_issued s' t = Some k"
  by (erule sys_stepE) auto

lemma issued_steps:
  assumes "(\<lambda>s s'. \<exists>a :: ('p, 'q, 'e) action. sys_step jt ob a s s')\<^sup>*\<^sup>* s s'" and "sy_issued s t = Some k"
  shows "sy_issued s' t = Some k"
  using assms by (induction rule: rtranclp_induct) (auto intro: issued_step)

text \<open>
  (C13) The worker's function and the transition system agree: a whole call of \<open>handle_envelope\<close>, with any faults, is a
  sequence of steps of the system that ends with the tables the call leaves. While the handler runs, other sessions may do
  whatever steps of the system lead to from the state after this call's claim, such as the claim of the same delivery
  by another worker. What holds of every step holds of the call.
\<close>

theorem handle_envelope_refines_steps:
  fixes s :: "'q system"
  assumes "handle_envelope rt elapsed io others env ctx (sy_db s) = (res, d', tr)"
    and "sy_issued s (jc_lease_token ctx) = None" and "sy_now s = io_claim_now io"
    and "\<And>v d1. claim_stmt (io_claim_now io) (env_event_id env) (env_handler_id env)
        (attempt_param (jc_attempt ctx)) (jc_lease_token ctx) (sy_db s) = Inr (v, d1) \<Longrightarrow>
      \<exists>s2. (\<lambda>s s'. \<exists>a :: ('p, 'q, 'e) action. sys_step jt ob a s s')\<^sup>*\<^sup>*
          (s\<lparr>sy_db := d1, sy_issued := (sy_issued s)(jc_lease_token ctx \<mapsto> (env_event_id env, env_handler_id env))\<rparr>) s2 \<and>
        sy_db s2 = others d1 \<and> sy_now s2 = io_mark_now io"
  shows "\<exists>s'. (\<lambda>s s'. \<exists>a :: ('p, 'q, 'e) action. sys_step jt ob a s s')\<^sup>*\<^sup>* s s' \<and> sy_db s' = d'"
proof -
  let ?e = "env_event_id env" and ?h = "env_handler_id env" and ?t = "jc_lease_token ctx"
  let ?R = "\<lambda>s s'. \<exists>a :: ('p, 'q, 'e) action. sys_step jt ob a s s'"
  let ?s1 = "\<lambda>d1. s\<lparr>sy_db := d1, sy_issued := (sy_issued s)(?t \<mapsto> (?e, ?h))\<rparr>"
  have claim: "?R s (?s1 d1)"
    if "claim_stmt (io_claim_now io) ?e ?h (attempt_param (jc_attempt ctx)) ?t (sy_db s) = Inr (v, d1)" for v d1
  proof -
    have "sys_step jt ob (AClaim NoFault ?e ?h (jc_attempt ctx) ?t :: ('p, 'q, 'e) action) s (?s1 d1)"
      using that by (intro claimed [OF assms(2), where res = "Inr v"]) (simp add: run_stmt_def assms(3))
    then show ?thesis by blast
  qed
  from assms(1) show ?thesis
  proof (cases rule: handle_envelope_db)
    case not_claimed
    then show ?thesis by blast
  next
    case (claimed v)
    from claim [OF this] show ?thesis by (intro exI [of _ "?s1 d'"] conjI r_into_rtranclp) simp_all
  next
    case (marked v d1 x r r' tr')
    obtain s2 where s2: "?R\<^sup>*\<^sup>* (?s1 d1) s2" "sy_db s2 = others d1" "sy_now s2 = io_mark_now io"
      using assms(4) [OF marked(1)] by blast
    have "sy_issued s2 ?t = Some (?e, ?h)" by (rule issued_steps [OF s2(1)]) simp
    then have "sys_step jt ob (AMark (io_mark_fault io) ?e ?h ?t x r :: ('p, 'q, 'e) action) s2 (s2\<lparr>sy_db := d'\<rparr>)"
      using marked(2) s2(2,3) by (intro sys_step.marked) simp_all
    then have "?R s2 (s2\<lparr>sy_db := d'\<rparr>)" by blast
    with s2(1) have "?R\<^sup>*\<^sup>* (?s1 d1) (s2\<lparr>sy_db := d'\<rparr>)" by (rule rtranclp.rtrancl_into_rtrancl)
    with claim [OF marked(1)] have "?R\<^sup>*\<^sup>* s (s2\<lparr>sy_db := d'\<rparr>)" by (rule converse_rtranclp_into_rtranclp)
    then show ?thesis by (intro exI [of _ "s2\<lparr>sy_db := d'\<rparr>"]) simp
  qed
qed

lemma three_steps: "R a b \<Longrightarrow> R b c \<Longrightarrow> R c d \<Longrightarrow> R\<^sup>*\<^sup>* a d"
  by (meson converse_rtranclp_into_rtranclp r_into_rtranclp)

theorem handle_envelope_refines_steps_witness:
  "\<exists>(s' :: sample_queue system) res d' tr.
    handle_envelope sample_rt sample_timer sample_io sample_takeover sample_env sample_ctx sample_db = (res, d', tr) \<and>
    (\<lambda>s s'. \<exists>a :: (string, sample_queue, nat) action. sys_step (\<lambda>_. ''{}'') sample_outbox a s s')\<^sup>*\<^sup>*
      (sample_start\<lparr>sy_db := sample_db, sy_now := 110\<rparr>) s' \<and> sy_db s' = d'"
proof -
  let ?s = "sample_start\<lparr>sy_db := sample_db, sy_now := 110\<rparr>"
  let ?R = "\<lambda>s s'. \<exists>a :: (string, sample_queue, nat) action. sys_step (\<lambda>_. ''{}'') sample_outbox a s s'"
  obtain res d' tr where h: "handle_envelope sample_rt sample_timer sample_io sample_takeover sample_env sample_ctx (sy_db ?s) =
    (res, d', tr)" by (metis prod.exhaust)
  have io: "io_claim_now sample_io = 110" "io_mark_now sample_io = 120" "jc_lease_token sample_ctx = 42"
    by (simp_all add: sample_io_def sample_ctx_def)
  have "\<exists>s2. ?R\<^sup>*\<^sup>* (?s\<lparr>sy_db := d1, sy_issued := (sy_issued ?s)(jc_lease_token sample_ctx \<mapsto> k)\<rparr>) s2 \<and>
      sy_db s2 = sample_takeover d1 \<and> sy_now s2 = io_mark_now sample_io" for d1 k
  proof -
    let ?s1 = "?s\<lparr>sy_db := d1, sy_issued := (sy_issued ?s)(jc_lease_token sample_ctx \<mapsto> k)\<rparr>"
    let ?s2 = "?s1\<lparr>sy_now := 115\<rparr>"
    let ?s3 = "?s2\<lparr>sy_db := sample_takeover d1, sy_issued := (sy_issued ?s2)(99 \<mapsto> (7, ''audit''))\<rparr>"
    obtain r where "run_stmt NoFault (claim_stmt 115 7 ''audit'' (attempt_param 2) 99) d1 = (r, sample_takeover d1)"
      by (cases "claim_stmt 115 7 ''audit'' 2 99 d1")
        (auto simp: run_stmt_def sample_takeover_def attempt_param_def i32_max_def)
    then have "sys_step (\<lambda>_. ''{}'') sample_outbox (AClaim NoFault 7 ''audit'' 2 99 :: (string, sample_queue, nat) action) ?s2 ?s3"
      by (intro claimed) (simp_all add: sample_start_def io)
    then have b: "?R ?s2 ?s3" by blast
    have a: "?R ?s1 ?s2" by (intro exI [of _ "ATick 115"] ticked) simp
    have c: "?R ?s3 (?s3\<lparr>sy_now := 120\<rparr>)" by (intro exI [of _ "ATick 120"] ticked) simp
    have "?R\<^sup>*\<^sup>* ?s1 (?s3\<lparr>sy_now := 120\<rparr>)"
      by (rule three_steps [where R = ?R, OF a b c])
    then show ?thesis by (intro exI conjI) (assumption, simp_all add: io)
  qed
  from handle_envelope_refines_steps [OF h _ _ this] h io show ?thesis
    by (fastforce simp: sample_start_def)
qed

end
