(* ===== verification/Outbox_History.thy ===== *)
theory Outbox_History
  imports Outbox_Dispatch
begin

text \<open>
  The read side, \<^verbatim>\<open>src/src/history.rs\<close>: the two queries of \<open>History\<close> and the records they return. The columns of
  identifiers have the collation C, so \<open>ORDER BY handler_id\<close> is the order of the bytes.
\<close>

section \<open>Records\<close>

record EventRecord =
  er_id :: uuid
  er_event_type :: string
  er_producer_bc :: string
  er_tenant_id :: string
  er_aggregate_key :: "string option"
  er_payload :: bytes
  er_headers :: json_map
  er_created_at :: timestamp

record HandlerDeliveryRecord =
  hr_id :: nat
  hr_event_id :: uuid
  hr_handler_id :: string
  hr_status :: DeliveryStatus
  hr_attempts :: u32
  hr_last_error :: "string option"
  hr_first_attempted_at :: "timestamp option"
  hr_last_attempted_at :: "timestamp option"
  hr_finished_at :: "timestamp option"

section \<open>Queries\<close>

definition select_event :: "uuid \<Rightarrow> event_row option stmt" where
  "select_event event_id d = Inr (find_event event_id (events d), d)"

definition to_event_record :: "event_row \<Rightarrow> EventRecord" where
  "to_event_record r =
    (let headers = (case ev_headers r of JObject m \<Rightarrow> m | _ \<Rightarrow> [])
     in \<lparr>er_id = ev_id r, er_event_type = ev_event_type r, er_producer_bc = ev_producer_bc r,
         er_tenant_id = ev_tenant_id r, er_aggregate_key = ev_aggregate_key r, er_payload = ev_payload r,
         er_headers = headers, er_created_at = ev_created_at r\<rparr>)"

definition history_event :: "fault \<Rightarrow> uuid \<Rightarrow> outbox_db \<Rightarrow> (EventRecord option, HistoryError) rresult" where
  "history_event f event_id d =
    (case fst (run_stmt f (select_event event_id) d) of
       Inl e \<Rightarrow> Inl (HistorySqlx e)
     | Inr row \<Rightarrow> Inr (map_option to_event_record row))"

definition select_deliveries :: "uuid \<Rightarrow> delivery_row list stmt" where
  "select_deliveries event_id d =
    Inr (sort_key hd_handler_id (filter (\<lambda>r. hd_event_id r = event_id) (deliveries d)), d)"

text \<open>\<open>u32::try_from(attempts_i32).unwrap_or(0)\<close>.\<close>

definition attempts_u32 :: "int \<Rightarrow> u32" where
  "attempts_u32 n = (if 0 \<le> n \<and> n < 2 ^ 32 then word_of_int n else 0)"

definition to_delivery_record :: "delivery_row \<Rightarrow> HandlerDeliveryRecord" where
  "to_delivery_record r =
    \<lparr>hr_id = hd_id r, hr_event_id = hd_event_id r, hr_handler_id = hd_handler_id r, hr_status = hd_status r,
     hr_attempts = attempts_u32 (hd_attempts r), hr_last_error = hd_last_error r,
     hr_first_attempted_at = hd_first_attempted_at r, hr_last_attempted_at = hd_last_attempted_at r,
     hr_finished_at = hd_finished_at r\<rparr>"

definition handler_deliveries_for ::
  "fault \<Rightarrow> uuid \<Rightarrow> outbox_db \<Rightarrow> (HandlerDeliveryRecord list, HistoryError) rresult" where
  "handler_deliveries_for f event_id d =
    (case fst (run_stmt f (select_deliveries event_id) d) of
       Inl e \<Rightarrow> Inl (HistorySqlx e)
     | Inr rows \<Rightarrow> Inr (map to_delivery_record rows))"

section \<open>Properties\<close>

lemma sorted_distinct_strict: "sorted xs \<Longrightarrow> distinct xs \<Longrightarrow> sorted_wrt (<) xs"
  by (simp add: strict_sorted_iff)

lemma distinct_handlers_of_event:
  assumes "db_ok jt d"
  shows "distinct (map hd_handler_id (filter (\<lambda>r. hd_event_id r = e) (deliveries d)))"
proof -
  have "inj_on delivery_key (set (deliveries d))" "distinct (deliveries d)"
    using assms by (auto simp: schema_defs distinct_map)
  then show ?thesis by (auto simp: distinct_map inj_on_def delivery_key_def)
qed

text \<open>
  The history of an event lists each of its deliveries once, in strictly increasing byte order of the
  handler ids, with the stored status, error and times; the attempt count is the stored one, for every value
  of the \<open>INTEGER\<close> column that the schema admits, so the fallback to zero is never taken.
\<close>

lemma handler_deliveries_listed:
  assumes "db_ok jt d" and "\<forall>r \<in> set (deliveries d). hd_attempts r \<le> i32_max"
  shows "\<exists>rs. handler_deliveries_for NoFault e d = Inr rs \<and>
    sorted_wrt (<) (map hr_handler_id rs) \<and>
    (\<forall>h. (\<exists>r \<in> set rs. hr_handler_id r = h) \<longleftrightarrow> find_delivery (e, h) (deliveries d) \<noteq> None) \<and>
    (\<forall>r \<in> set rs. \<exists>row. find_delivery (e, hr_handler_id r) (deliveries d) = Some row \<and> hr_event_id r = e \<and>
      hr_status r = hd_status row \<and> uint (hr_attempts r) = hd_attempts row \<and>
      hr_last_error r = hd_last_error row \<and> hr_finished_at r = hd_finished_at row)"
proof -
  let ?rows = "sort_key hd_handler_id (filter (\<lambda>r. hd_event_id r = e) (deliveries d))"
  have run: "handler_deliveries_for NoFault e d = Inr (map to_delivery_record ?rows)"
    by (simp add: handler_deliveries_for_def select_deliveries_def run_stmt_def)
  have "distinct (map hd_handler_id ?rows)"
    using distinct_handlers_of_event [OF assms(1), of e] by (simp add: distinct_map)
  then have "sorted_wrt (<) (map hd_handler_id ?rows)"
    by (intro sorted_distinct_strict sorted_sort_key)
  then have srt: "sorted_wrt (<) (map hr_handler_id (map to_delivery_record ?rows))"
    by (simp add: comp_def to_delivery_record_def sorted_wrt_map)
  have look: "find_delivery (e, hd_handler_id row) (deliveries d) = Some row"
    if "row \<in> set (deliveries d)" "hd_event_id row = e" for row
    using find_in_deliveries [OF assms(1) that(1)] that(2) by (simp add: delivery_key_def)
  have att: "uint (attempts_u32 (hd_attempts row)) = hd_attempts row" if "row \<in> set (deliveries d)" for row
    using that assms by (auto simp: schema_defs deliveries_check_def attempts_u32_def i32_max_def
        unsigned_of_int take_bit_int_eq_self_iff)
  have "(\<exists>r \<in> set (map to_delivery_record ?rows). hr_handler_id r = h) \<longleftrightarrow>
      find_delivery (e, h) (deliveries d) \<noteq> None" for h
    by (auto simp: to_delivery_record_def hd_tab.look_None_iff delivery_key_def)
  then show ?thesis
    using run srt look att by (auto simp: to_delivery_record_def)
qed

text \<open>
  (C24) What was dispatched can be read back: after a dispatch with handlers, the history finds the event with the
  type, tenant, producer, aggregate key, payload and headers that were dispatched, and exactly one queued
  delivery without attempts for each registered handler, as many as the outcome says.
\<close>

theorem dispatch_then_history:
  assumes "db_ok (dw_jsonb_text w) (tx_db tx)"
    and "dispatch ob w E ctx event tx = (Inr (Dispatched e n), tx')"
  shows "\<exists>er rs. history_event NoFault e (tx_db tx') = Inr (Some er) \<and> er_id er = e \<and>
    er_event_type er = EVENT_TYPE E \<and> er_tenant_id er = dc_tenant_id ctx \<and>
    er_producer_bc er = dc_producer_bc ctx \<and> er_aggregate_key er = aggregate_key E event \<and>
    to_vec E event = Inr (er_payload er) \<and> stored_headers w ctx = Inr (JObject (er_headers er)) \<and>
    handler_deliveries_for NoFault e (tx_db tx') = Inr rs \<and> length rs = n \<and>
    set (map hr_handler_id rs) = set (handler_ids_for (ob_registry ob) (EVENT_TYPE E)) \<and>
    (\<forall>r \<in> set rs. hr_status r = Queued \<and> hr_attempts r = 0)"
  using assms(2)
proof (cases rule: dispatch_Inr)
  case (inserted h payload)
  let ?ids = "handler_ids_for (ob_registry ob) (EVENT_TYPE E)"
  let ?row = "mk_event_row E ctx event (dw_event_id w) (dw_now w) payload h"
  let ?new = "new_deliveries (dw_now w) (dw_event_id w) (next_delivery_id (tx_db tx)) ?ids"
  have e: "e = dw_event_id w" "n = length ?ids"
    using inserted(4) by (simp_all add: job_outcome_def split: if_splits)
  have ok': "db_ok (dw_jsonb_text w) (tx_db tx')" by (rule dispatch_db_ok(1) [OF assms])
  have ev: "events (tx_db tx') = events (tx_db tx) @ [?row]"
    and dl: "deliveries (tx_db tx') = deliveries (tx_db tx) @ ?new"
    by (simp_all add: inserted(7) inserted_rows_def)
  have "find_event (ev_id ?row) (events (tx_db tx')) = Some ?row"
    by (rule ev_tab.look_in) (use ok' ev in \<open>auto simp: schema_defs\<close>)
  then have h1: "history_event NoFault e (tx_db tx') = Inr (Some (to_event_record ?row))"
    by (simp add: history_event_def select_event_def run_stmt_def e)
  have "events_check (dw_jsonb_text w) ?row" using ok' by (auto simp: schema_defs ev)
  then have obj: "is_json_object h" by (simp add: events_check_def mk_event_row_def)
  have "e \<notin> ev_id ` set (events (tx_db tx))"
    using ok' by (auto simp: schema_defs ev e)
  then have "filter (\<lambda>r. hd_event_id r = e) (deliveries (tx_db tx)) = []"
    using assms(1) by (auto simp: schema_defs filter_empty_conv)
  moreover have "filter (\<lambda>r. hd_event_id r = e) ?new = ?new"
    by (auto simp: filter_id_conv e new_delivery_def dest!: new_deliveries_rows)
  ultimately have h2: "handler_deliveries_for NoFault e (tx_db tx') =
      Inr (map to_delivery_record (sort_key hd_handler_id ?new))"
    by (simp add: handler_deliveries_for_def select_deliveries_def run_stmt_def dl)
  have "map hd_handler_id ?new = ?ids"
    by (rule nth_equalityI) (simp_all add: new_deliveries_def new_delivery_def)
  then have "hd_handler_id ` set ?new = set ?ids" by (metis list.set_map)
  moreover have "\<forall>r \<in> set ?new. hd_status r = Queued \<and> attempts_u32 (hd_attempts r) = 0"
    by (auto simp: new_delivery_def attempts_u32_def dest!: new_deliveries_rows)
  ultimately show ?thesis
    using h1 h2 inserted(1,9) e obj
    by (cases h) (auto simp: to_event_record_def mk_event_row_def Let_def to_delivery_record_def image_image)
qed simp

theorem dispatch_then_history_witness:
  "\<exists>tx' er. dispatch sample_outbox (sample_world 7) order_event sample_dctx 1 empty_tx = (Inr (Dispatched 7 2), tx') \<and>
     history_event NoFault 7 (tx_db tx') = Inr (Some er) \<and> er_payload er = [0] \<and> er_tenant_id er = ''acme''"
proof -
  obtain tx' where d: "dispatch sample_outbox (sample_world 7) order_event sample_dctx 1 empty_tx =
    (Inr (Dispatched 7 2), tx')" by (rule sample_dispatched)
  have "db_ok (dw_jsonb_text (sample_world 7)) (tx_db empty_tx)"
    using sample_ready [of 7] by (simp add: dispatch_ready_def Let_def)
  from dispatch_then_history [OF this d] d show ?thesis
    by (auto simp: order_event_def sample_event_def sample_dctx_def with_idempotency_key_def
        DispatchContext_new_def)
qed

end
