(* ===== verification/Outbox_Lifecycle.thy ===== *)
theory Outbox_Lifecycle
  imports Outbox_Runtime Outbox_Dispatch
begin

text \<open>
  Starting and stopping the worker: \<open>Outbox::start\<close> with its \<open>StartedGuard\<close> (\<^verbatim>\<open>src/src/outbox.rs\<close>) and
  \<open>OutboxHandle::shutdown\<close> (\<^verbatim>\<open>src/src/handle.rs\<close>). Building, starting and draining \<open>pg_work_queue\<close>'s worker are
  parameters, as is the \<open>tokio\<close> runtime the caller runs in. \<open>start\<close> is given twice: as a function, and as the
  step relation of several tasks that call it on one shared \<open>Outbox\<close>, with the steps at its atomic
  accesses and await points.
\<close>

section \<open>Outbox::start\<close>

definition PGWQ_QUEUE :: string where
  "PGWQ_QUEUE = ''outbox_handler_deliveries''"

datatype RuntimeFlavor = CurrentThread | MultiThread

text \<open>What the worker builder of \<open>pg_work_queue\<close> is given.\<close>

record 'b worker_config =
  wc_max_connections :: u32
  wc_queue :: string
  wc_poll_interval :: duration
  wc_concurrency :: nat
  wc_concurrency_limits :: "(string \<times> u32) list"
  wc_max_attempts :: u32
  wc_lease_timeout :: duration
  wc_handler_timeout :: duration
  wc_retry_backoff :: 'b
  wc_panic_policy :: PanicPolicy
  wc_handler :: "'b OutboxRuntime"

text \<open>
  \<open>Handle::current()\<close> panics outside a \<open>tokio\<close> runtime (\<open>Inl\<close>); the probe's answer; \<open>Worker\<close>'s \<open>build\<close> and \<open>start\<close>.
\<close>

record ('b, 'be, 'se, 'k, 'h) start_world =
  sw_runtime_flavor :: "(RuntimeFlavor, panic_payload) rresult"
  sw_probe :: "(unit, sqlx_error) rresult"
  sw_worker_build :: "'b worker_config \<Rightarrow> ('k, 'be) rresult"
  sw_worker_start :: "'k \<Rightarrow> ('h, 'se) rresult"

definition saturating_mul :: "nat \<Rightarrow> nat \<Rightarrow> nat" where
  "saturating_mul a b = min (a * b) u64_max"

definition saturating_add :: "nat \<Rightarrow> nat \<Rightarrow> nat" where
  "saturating_add a b = min (a + b) u64_max"

definition required_connections :: "u32 \<Rightarrow> nat" where
  "required_connections concurrency = saturating_add (saturating_mul (unat concurrency) 2) 2"

definition pool_check :: "'b Outbox \<Rightarrow> (unit, ('be, 'se) StartError) rresult" where
  "pool_check ob =
    (let max_connections = ob_max_connections ob;
         required = required_connections (cfg_concurrency (ob_config ob))
     in if unat max_connections < required
        then Inl (PoolTooSmall max_connections (cfg_concurrency (ob_config ob)) required)
        else Inr ())"

text \<open>Only a missing table or schema is an error here; every other probe failure falls through.\<close>

fun probe_check :: "(unit, sqlx_error) rresult \<Rightarrow> (unit, ('be, 'se) StartError) rresult" where
  "probe_check (Inl (Database (Some code) t)) =
    (if code = ''42P01'' \<or> code = ''3F000'' then Inl (SchemaMissing (Database (Some code) t)) else Inr ())"
| "probe_check r = Inr ()"

definition concurrency_limits :: "Registry \<Rightarrow> (string \<times> u32) list" where
  "concurrency_limits reg =
    List.map_filter (\<lambda>(id, h). map_option (\<lambda>n. (id, n)) (rh_concurrency_limit h)) (handlers reg)"

definition outbox_runtime :: "'b Outbox \<Rightarrow> 'b OutboxRuntime" where
  "outbox_runtime ob = \<lparr>rt_config = ob_config ob, rt_registry = ob_registry ob\<rparr>"

definition start_worker_config :: "'b Outbox \<Rightarrow> 'b worker_config" where
  "start_worker_config ob =
    (let c = ob_config ob
     in \<lparr>wc_max_connections = ob_max_connections ob, wc_queue = PGWQ_QUEUE,
         wc_poll_interval = cfg_poll_interval c, wc_concurrency = unat (cfg_concurrency c),
         wc_concurrency_limits = concurrency_limits (ob_registry ob),
         wc_max_attempts = cfg_max_attempts c, wc_lease_timeout = cfg_lease_timeout c,
         wc_handler_timeout = cfg_handler_timeout c, wc_retry_backoff = cfg_retry_backoff c,
         wc_panic_policy = cfg_panic_policy c, wc_handler = outbox_runtime ob\<rparr>)"

text \<open>Whether the warning about a single-threaded runtime needs \<open>Handle::current()\<close>, and whether it panics.\<close>

definition flavor_check :: "'b Outbox \<Rightarrow> ('b, 'be, 'se, 'k, 'h) start_world \<Rightarrow> (bool, panic_payload) rresult" where
  "flavor_check ob w =
    (if cfg_concurrency (ob_config ob) > 1
     then (case sw_runtime_flavor w of Inl p \<Rightarrow> Inl p | Inr fl \<Rightarrow> Inr (fl = CurrentThread))
     else Inr False)"

text \<open>The part of the function that the armed guard covers.\<close>

definition start_guarded ::
  "'b Outbox \<Rightarrow> ('b, 'be, 'se, 'k, 'h) start_world \<Rightarrow> ('h, ('be, 'se) StartError) rresult" where
  "start_guarded ob w =
    (case pool_check ob of
       Inl e \<Rightarrow> Inl e
     | Inr _ \<Rightarrow>
     case probe_check (sw_probe w) of
       Inl e \<Rightarrow> Inl e
     | Inr _ \<Rightarrow>
     case sw_worker_build w (start_worker_config ob) of
       Inl e \<Rightarrow> Inl (PgwqBuild e)
     | Inr k \<Rightarrow>
     case sw_worker_start w k of
       Inl e \<Rightarrow> Inl (PgwqStart e)
     | Inr h \<Rightarrow> Inr h)"

text \<open>\<open>impl Drop for StartedGuard\<close>: an armed guard stores \<open>false\<close>; success disarms it first.\<close>

definition guard_drop :: "bool \<Rightarrow> 'b Outbox \<Rightarrow> 'b Outbox" where
  "guard_drop armed ob = (if armed then ob\<lparr>ob_started := False\<rparr> else ob)"

definition start ::
  "('b, 'be, 'se, 'k, 'h) start_world \<Rightarrow> 'b Outbox \<Rightarrow>
   ('h, ('be, 'se) StartError) rresult ending \<times> 'b Outbox"
where
  "start w ob =
    (if ob_started ob then (Returned (Inl AlreadyStarted), ob)
     else
       (let ob1 = ob\<lparr>ob_started := True\<rparr>
        in case flavor_check ob1 w of
             Inl p \<Rightarrow> (Panicked p, ob1)
           | Inr _ \<Rightarrow>
               (case start_guarded ob1 w of
                  Inl e \<Rightarrow> (Returned (Inl e), guard_drop True ob1)
                | Inr h \<Rightarrow> (Returned (Inr h), guard_drop False ob1))))"

section \<open>OutboxHandle::shutdown\<close>

text \<open>
  \<open>drain\<close> is \<open>WorkerHandle::shutdown\<close>, with the time it took; the count query has a fault, and it answers after
  a delay (or never) that the timer \<open>elapsed\<close> judges.
\<close>

definition count_active :: "int stmt" where
  "count_active d = Inr (int (rows_matching (\<lambda>r. active_status (hd_status r)) (deliveries d)), d)"

definition remaining_budget :: "duration \<Rightarrow> duration \<Rightarrow> duration" where
  "remaining_budget timeout spent = max (timeout - spent) (from_millis 500)"

definition shutdown ::
  "(duration \<Rightarrow> ('s, 'd) rresult \<times> duration) \<Rightarrow> timer \<Rightarrow> fault \<Rightarrow> duration option \<Rightarrow> duration \<Rightarrow> outbox_db \<Rightarrow>
   ('s \<times> OutboxStats, 'd ShutdownError) rresult"
where
  "shutdown drain elapsed f query_time timeout d =
    (case drain timeout of
       (Inl e, _) \<Rightarrow> Inl (ShutdownPgwq e)
     | (Inr stats, spent) \<Rightarrow>
         (let pending =
            (if elapsed (remaining_budget timeout spent) query_time then 0
             else case run_stmt f count_active d of
               (Inr n, _) \<Rightarrow> (if n \<ge> 0 then nat n else 0)
             | (Inl e, _) \<Rightarrow> 0)
          in Inr (stats, \<lparr>pending_deliveries = pending\<rparr>)))"

section \<open>Concurrent calls of start\<close>

text \<open>
  Where a call of \<open>start\<close> stands. \<open>Swapped\<close>: the flag is taken, the guard is not yet there. \<open>Guarded\<close>: the guard is
  armed. \<open>Probing\<close> and \<open>Starting\<close> are the two await points, where the caller may drop the future; a panic of the
  queue's code there unwinds through the guard and has the effect of a cancellation. \<open>Up\<close> is a call that has returned
  its handle: nothing gives the flag back after that, not even the shutdown of the worker, so no step leaves \<open>Up\<close>.
\<close>

datatype ('be, 'se, 'h) start_phase =
    Idle
  | Swapped
  | Guarded
  | Probing
  | Starting
  | Up 'h
  | Failed "('be, 'se) StartError"
  | Cancelled
  | Crashed

record ('be, 'se, 'h) start_state =
  ss_started :: bool
  ss_task :: "nat \<Rightarrow> ('be, 'se, 'h) start_phase"

definition goes :: "nat \<Rightarrow> ('be, 'se, 'h) start_phase \<Rightarrow> bool \<Rightarrow> ('be, 'se, 'h) start_state \<Rightarrow>
    ('be, 'se, 'h) start_state" where
  "goes i p flag s = s\<lparr>ss_started := flag, ss_task := (ss_task s)(i := p)\<rparr>"

inductive start_step :: "'b Outbox \<Rightarrow> ('be, 'se, 'h) start_state \<Rightarrow> ('be, 'se, 'h) start_state \<Rightarrow> bool"
  for ob :: "'b Outbox"
where
  call_refused: "ss_task s i = Idle \<Longrightarrow> ss_started s \<Longrightarrow>
    start_step ob s (goes i (Failed AlreadyStarted) True s)"
| call_swap: "ss_task s i = Idle \<Longrightarrow> \<not> ss_started s \<Longrightarrow> start_step ob s (goes i Swapped True s)"
| no_runtime: "ss_task s i = Swapped \<Longrightarrow> cfg_concurrency (ob_config ob) > 1 \<Longrightarrow>
    start_step ob s (goes i Crashed (ss_started s) s)"
| arm_guard: "ss_task s i = Swapped \<Longrightarrow> start_step ob s (goes i Guarded (ss_started s) s)"
| pool_fails: "ss_task s i = Guarded \<Longrightarrow> pool_check ob = Inl e \<Longrightarrow>
    start_step ob s (goes i (Failed e) False s)"
| pool_passes: "ss_task s i = Guarded \<Longrightarrow>
    (pool_check ob :: (unit, ('be, 'se) StartError) rresult) = Inr () \<Longrightarrow>
    start_step ob s (goes i Probing (ss_started s) s)"
| probe_fails: "ss_task s i = Probing \<Longrightarrow> probe_check r = Inl e \<Longrightarrow>
    start_step ob s (goes i (Failed e) False s)"
| build_fails: "ss_task s i = Probing \<Longrightarrow> start_step ob s (goes i (Failed (PgwqBuild be)) False s)"
| build_passes: "ss_task s i = Probing \<Longrightarrow> start_step ob s (goes i Starting (ss_started s) s)"
| worker_fails: "ss_task s i = Starting \<Longrightarrow> start_step ob s (goes i (Failed (PgwqStart se)) False s)"
| worker_up: "ss_task s i = Starting \<Longrightarrow> start_step ob s (goes i (Up h) (ss_started s) s)"
| cancel: "ss_task s i \<in> {Probing, Starting} \<Longrightarrow> start_step ob s (goes i Cancelled False s)"
| again: "ss_task s i = Cancelled \<or> ss_task s i = Failed e \<Longrightarrow> start_step ob s (goes i Idle (ss_started s) s)"

inductive_cases start_stepE: "start_step ob s t"

definition start_init :: "('be, 'se, 'h) start_state \<Rightarrow> bool" where
  "start_init s \<longleftrightarrow> \<not> ss_started s \<and> (\<forall>i. ss_task s i = Idle)"

inductive start_reach :: "'b Outbox \<Rightarrow> ('be, 'se, 'h) start_state \<Rightarrow> bool" for ob :: "'b Outbox" where
  reach_init: "start_init s \<Longrightarrow> start_reach ob s"
| reach_step: "start_reach ob s \<Longrightarrow> start_step ob s t \<Longrightarrow> start_reach ob t"

text \<open>A call that has taken the flag and not given it back.\<close>

fun holds_flag :: "('be, 'se, 'h) start_phase \<Rightarrow> bool" where
  "holds_flag Idle = False"
| "holds_flag (Failed e) = False"
| "holds_flag Cancelled = False"
| "holds_flag p = True"

lemma holds_flag_iff: "holds_flag p \<longleftrightarrow> p \<notin> {Idle, Cancelled} \<and> (\<forall>e. p \<noteq> Failed e)"
  by (cases p) auto

definition holders :: "('be, 'se, 'h) start_state \<Rightarrow> nat set" where
  "holders s = {i. holds_flag (ss_task s i)}"

text \<open>The flag is set exactly while one call holds it, and at most one does.\<close>

definition start_inv :: "('be, 'se, 'h) start_state \<Rightarrow> bool" where
  "start_inv s \<longleftrightarrow> (if ss_started s then \<exists>i. holders s = {i} else holders s = {})"

lemma goes_simps [simp]:
  "ss_started (goes i p flag s) = flag" "ss_task (goes i p flag s) = (ss_task s)(i := p)"
  "holders (goes i p flag s) = (if holds_flag p then insert i (holders s) else holders s - {i})"
  by (auto simp: goes_def holders_def)

text \<open>The three ways a step changes who holds the flag.\<close>

lemma start_inv_take:
  "start_inv s \<Longrightarrow> \<not> ss_started s \<Longrightarrow> holds_flag p \<Longrightarrow> start_inv (goes i p True s)"
  by (simp add: start_inv_def)

lemma start_inv_keep:
  assumes "start_inv s" and "holds_flag p = holds_flag (ss_task s i)"
  shows "start_inv (goes i p (ss_started s) s)"
proof -
  have "holders (goes i p (ss_started s) s) = holders s"
    using assms(2) by (auto simp: holders_def)
  then show ?thesis using assms(1) by (simp only: start_inv_def goes_simps(1))
qed

lemma start_inv_release:
  assumes "start_inv s" and "holds_flag (ss_task s i)" and "\<not> holds_flag p"
  shows "start_inv (goes i p False s)"
proof -
  have "i \<in> holders s" using assms(2) by (simp add: holders_def)
  then show ?thesis using assms(1,3) by (auto simp: start_inv_def split: if_splits)
qed

lemma start_inv_step:
  assumes "start_inv s" and "start_step ob s t"
  shows "start_inv t"
  using assms(2,1)
proof cases
  case (call_refused i)
  then show ?thesis using assms(1) start_inv_keep [of s "Failed AlreadyStarted" i] by simp
qed (auto intro: start_inv_take start_inv_keep start_inv_release)

interpretation start_sys: invariant_system start_init "start_step ob" "start_reach ob" start_inv for ob
proof
  show "P s" if "start_reach ob s" "\<And>s. start_init s \<Longrightarrow> P s"
    "\<And>s t. start_reach ob s \<Longrightarrow> P s \<Longrightarrow> start_step ob s t \<Longrightarrow> P t" for P s
    using that(1) by (induction rule: start_reach.induct) (blast intro: that(2,3))+
  show "start_inv s" if "start_init s" for s :: "('be, 'se, 'h) start_state"
    using that by (simp add: start_init_def start_inv_def holders_def)
qed (rule start_inv_step)

section \<open>Properties of the lifecycle\<close>

lemma started_iff:
  assumes "start_reach ob s"
  shows "ss_started s \<longleftrightarrow> (\<exists>i. ss_task s i \<notin> {Idle, Cancelled} \<and> (\<forall>e. ss_task s i \<noteq> Failed e))"
  using start_sys.reach_invar [OF assms] unfolding holds_flag_iff [symmetric]
  by (auto simp: start_inv_def holders_def split: if_splits)

lemma up_is_only_holder:
  assumes "start_reach ob s" and "ss_task s i = Up h"
  shows "ss_started s" "holders s = {i}"
proof -
  have "i \<in> holders s" using assms(2) by (simp add: holders_def)
  with start_sys.reach_invar [OF assms(1)] show "ss_started s" "holders s = {i}"
    by (auto simp: start_inv_def split: if_splits)
qed

text \<open>
  (C19) However the calls of \<open>start\<close> by any number of tasks interleave, with failures, cancellations and retries
  among them, at most one worker is ever up; while one is up the flag stays set, the worker stays up,
  and every further call is refused with \<open>AlreadyStarted\<close>. And the flag is honest in every reachable state: it is set
  exactly when one call is under way, up, or died before its guard existed; a call that failed or was
  cancelled at an await point has given it back, so that a supervisor may call \<open>start\<close> again.
\<close>

theorem start_at_most_one:
  assumes "start_reach ob s"
  shows "(\<forall>i h. ss_task s i = Up h \<longrightarrow> ss_started s \<and> (\<forall>j h'. ss_task s j = Up h' \<longrightarrow> j = i) \<and>
      (\<forall>t. start_step ob s t \<longrightarrow> ss_task t i = Up h \<and>
        (\<forall>j. ss_task s j = Idle \<longrightarrow> ss_task t j = Idle \<or> ss_task t j = Failed AlreadyStarted))) \<and>
    (ss_started s \<longleftrightarrow> (\<exists>i. ss_task s i \<notin> {Idle, Cancelled} \<and> (\<forall>e. ss_task s i \<noteq> Failed e))) \<and>
    (\<forall>i. \<not> ss_started s \<longrightarrow> ss_task s i = Idle \<longrightarrow> start_step ob s (goes i Swapped True s))"
proof -
  have "ss_started s \<and> (\<forall>j h'. ss_task s j = Up h' \<longrightarrow> j = i) \<and>
      (\<forall>t. start_step ob s t \<longrightarrow> ss_task t i = Up h \<and>
        (\<forall>j. ss_task s j = Idle \<longrightarrow> ss_task t j = Idle \<or> ss_task t j = Failed AlreadyStarted))"
    if up: "ss_task s i = Up h" for i h
  proof -
    note st = up_is_only_holder [OF assms up]
    have "j = i" if "ss_task s j = Up h'" for j h'
      using up_is_only_holder(2) [OF assms that] st(2) by blast
    moreover have "ss_task t i = Up h \<and>
        (\<forall>j. ss_task s j = Idle \<longrightarrow> ss_task t j = Idle \<or> ss_task t j = Failed AlreadyStarted)"
      if "start_step ob s t" for t
      using that up st(1) by cases auto
    ultimately show ?thesis using st(1) by blast
  qed
  then show ?thesis using started_iff [OF assms] by (blast intro: call_swap)
qed

text \<open>How the result of the function shows as the phase of a call.\<close>

fun result_phase :: "('h, ('be, 'se) StartError) rresult ending \<Rightarrow> ('be, 'se, 'h) start_phase" where
  "result_phase (Returned (Inl e)) = Failed e"
| "result_phase (Returned (Inr h)) = Up h"
| "result_phase (Panicked p) = Crashed"

lemma goes_goes [simp]: "goes i p f (goes i q g s) = goes i p f s"
  by (simp add: goes_def)

lemma start_guarded_steps:
  assumes "ss_task s i = Guarded" and "ss_started s"
  shows "(start_step ob)\<^sup>*\<^sup>* s (goes i (result_phase (Returned (start_guarded ob w)))
    (case start_guarded ob w of Inl e \<Rightarrow> False | Inr h \<Rightarrow> True) s)"
proof (cases "pool_check ob :: (unit, ('a, 'b) StartError) rresult")
  case (Inl e)
  then show ?thesis
    using assms(1) by (auto simp: start_guarded_def intro: r_into_rtranclp pool_fails)
next
  case (Inr u)
  let ?p = "goes i Probing True s"
  have p: "start_step ob s ?p" using pool_passes [of s i ob] Inr assms by simp
  show ?thesis
  proof (cases "probe_check (sw_probe w) :: (unit, ('a, 'b) StartError) rresult")
    case (Inl e)
    then have "start_step ob ?p (goes i (Failed e) False ?p)" by (intro probe_fails) simp_all
    with p Inl Inr show ?thesis by (auto simp: start_guarded_def intro: converse_rtranclp_into_rtranclp)
  next
    case (Inr u')
    note probe = this
    show ?thesis
    proof (cases "sw_worker_build w (start_worker_config ob)")
      case (Inl e)
      have "start_step ob ?p (goes i (Failed (PgwqBuild e)) False ?p)" by (intro build_fails) simp
      with p Inl probe \<open>pool_check ob = Inr u\<close> show ?thesis
        by (auto simp: start_guarded_def intro: converse_rtranclp_into_rtranclp)
    next
      case (Inr k)
      let ?q = "goes i Starting True s"
      have q: "start_step ob ?p ?q" using build_passes [of ?p i ob] by simp
      show ?thesis
      proof (cases "sw_worker_start w k")
        case (Inl e)
        have "start_step ob ?q (goes i (Failed (PgwqStart e)) False ?q)" by (intro worker_fails) simp
        with p q Inl Inr probe \<open>pool_check ob = Inr u\<close> show ?thesis
          by (auto simp: start_guarded_def intro: converse_rtranclp_into_rtranclp)
      next
        case (Inr h)
        have "start_step ob ?q (goes i (Up h) True ?q)" using worker_up [of ?q i ob h] by simp
        with p q Inr \<open>sw_worker_build w (start_worker_config ob) = Inr k\<close> probe \<open>pool_check ob = Inr u\<close>
        show ?thesis by (auto simp: start_guarded_def intro: converse_rtranclp_into_rtranclp)
      qed
    qed
  qed
qed

lemma start_flag_irrelevant:
  fixes w :: "('b, 'be, 'se, 'k, 'h) start_world"
  shows "start_guarded (ob\<lparr>ob_started := b\<rparr>) w = start_guarded ob w" "flavor_check (ob\<lparr>ob_started := b\<rparr>) w = flavor_check ob w"
proof -
  have "start_worker_config (ob\<lparr>ob_started := b\<rparr>) = start_worker_config ob"
    by (simp add: start_worker_config_def outbox_runtime_def Let_def)
  moreover have "pool_check (ob\<lparr>ob_started := b\<rparr>) = (pool_check ob :: (unit, ('be, 'se) StartError) rresult)"
    by (simp add: pool_check_def Let_def)
  ultimately show "start_guarded (ob\<lparr>ob_started := b\<rparr>) w = start_guarded ob w"
    by (simp only: start_guarded_def)
qed (simp add: flavor_check_def)

text \<open>
  (C22) The step relation covers the function: a call of \<open>start\<close> that runs to its end without interference is a
  sequence of steps of its task, which ends in the phase and with the flag that the function returns.
\<close>

theorem start_refines_steps:
  assumes "ss_task s i = Idle" and "ss_started s = ob_started ob"
  shows "(start_step ob)\<^sup>*\<^sup>* s
    (goes i (result_phase (fst (start w ob))) (ob_started (snd (start w ob))) s)"
proof (cases "ob_started ob")
  case True
  then show ?thesis
    using call_refused [OF assms(1), of ob] assms(2) by (auto simp: start_def intro: r_into_rtranclp)
next
  case False
  let ?s1 = "goes i Swapped True s"
  have s1: "start_step ob s ?s1" using call_swap [OF assms(1), of ob] assms(2) False by simp
  show ?thesis
  proof (cases "flavor_check ob w")
    case (Inl p)
    then have "cfg_concurrency (ob_config ob) > 1" by (auto simp: flavor_check_def split: if_splits)
    then have "start_step ob ?s1 (goes i Crashed True ?s1)" using no_runtime [of ?s1 i ob] by simp
    with s1 Inl False show ?thesis
      by (auto simp: start_def start_flag_irrelevant intro: converse_rtranclp_into_rtranclp)
  next
    case (Inr fl)
    let ?s2 = "goes i Guarded True s"
    have "start_step ob ?s1 ?s2" using arm_guard [of ?s1 i ob] by simp
    moreover have "(start_step ob)\<^sup>*\<^sup>* ?s2 (goes i (result_phase (Returned (start_guarded ob w)))
        (case start_guarded ob w of Inl e \<Rightarrow> False | Inr h \<Rightarrow> True) ?s2)"
      by (rule start_guarded_steps) simp_all
    ultimately show ?thesis
      using s1 Inr False
      by (cases "start_guarded ob w")
        (auto simp: start_def start_flag_irrelevant guard_drop_def intro: converse_rtranclp_into_rtranclp)
  qed
qed

lemma required_connections_exact: "required_connections c = 2 * unat c + 2"
proof -
  have "unat c < 2 ^ 32" using unsigned_less [of c] by simp
  then show ?thesis
    by (simp add: required_connections_def saturating_add_def saturating_mul_def u64_max_def)
qed

lemma pool_check_cases:
  "pool_check ob =
    (if unat (ob_max_connections ob) < 2 * unat (cfg_concurrency (ob_config ob)) + 2
     then Inl (PoolTooSmall (ob_max_connections ob) (cfg_concurrency (ob_config ob))
       (2 * unat (cfg_concurrency (ob_config ob)) + 2))
     else Inr ())"
  by (simp add: pool_check_def Let_def required_connections_exact)

lemma probe_check_cases:
  "probe_check r =
    (if \<exists>t. r = Inl (Database (Some ''42P01'') t) \<or> r = Inl (Database (Some ''3F000'') t)
     then Inl (SchemaMissing (projl r)) else Inr ())"
  by (cases r rule: probe_check.cases) auto

lemma start_guarded_results:
  fixes ob :: "'b Outbox" and w :: "('b, 'be, 'se, 'k, 'h) start_world"
  assumes "big \<longleftrightarrow> 2 * unat (cfg_concurrency (ob_config ob)) + 2 \<le> unat (ob_max_connections ob)"
    and "missing = (\<lambda>x. sw_probe w = Inl x \<and> (\<exists>t. x = Database (Some ''42P01'') t \<or> x = Database (Some ''3F000'') t))"
    and "build = sw_worker_build w (start_worker_config ob)"
  shows "start_guarded ob w = Inl (PoolTooSmall m c n) \<longleftrightarrow> \<not> big \<and> m = ob_max_connections ob \<and>
      c = cfg_concurrency (ob_config ob) \<and> n = 2 * unat c + 2"
    "start_guarded ob w = Inl (SchemaMissing x) \<longleftrightarrow> big \<and> missing x"
    "start_guarded ob w = Inl (PgwqBuild be) \<longleftrightarrow> big \<and> (\<nexists>x. missing x) \<and> build = Inl be"
    "start_guarded ob w = Inl (PgwqStart se) \<longleftrightarrow> big \<and> (\<nexists>x. missing x) \<and> (\<exists>k. build = Inr k \<and> sw_worker_start w k = Inl se)"
    "start_guarded ob w = Inr h \<longleftrightarrow> big \<and> (\<nexists>x. missing x) \<and> (\<exists>k. build = Inr k \<and> sw_worker_start w k = Inr h)"
    "start_guarded ob w \<noteq> Inl AlreadyStarted"
  unfolding start_guarded_def pool_check_cases probe_check_cases assms
  by (auto split: sum.splits)

text \<open>
  (C23) Every result of an undisturbed call, its cause, and the flag it leaves. A set flag gives \<open>AlreadyStarted\<close>, and is its
  only cause. A panic, exactly for want of a \<open>tokio\<close> runtime with a concurrency above one, comes before the guard and
  leaves the flag set for good. Otherwise an error leaves the flag as it was, and only success sets it; and the result is
  \<open>PoolTooSmall\<close> exactly when the pool has fewer than \<open>2 * concurrency + 2\<close> connections, computed without overflow for
  every \<open>u32\<close>; then \<open>SchemaMissing\<close> exactly for the two SQLSTATEs of a missing table or schema from the probe; then
  \<open>PgwqBuild\<close> exactly when the worker cannot be built from the outbox's own settings, \<open>PgwqStart\<close> exactly when the worker
  that was built cannot be started, and the handle exactly when it can.
\<close>

theorem start_results:
  fixes ob :: "'b Outbox" and w :: "('b, 'be, 'se, 'k, 'h) start_world"
  assumes "big \<longleftrightarrow> 2 * unat (cfg_concurrency (ob_config ob)) + 2 \<le> unat (ob_max_connections ob)"
    and "missing = (\<lambda>x. sw_probe w = Inl x \<and> (\<exists>t. x = Database (Some ''42P01'') t \<or> x = Database (Some ''3F000'') t))"
    and "build = sw_worker_build w (start_worker_config ob)"
    and "panics = (\<lambda>p. cfg_concurrency (ob_config ob) > 1 \<and> sw_runtime_flavor w = Inl p)"
  shows "(ob_started ob \<longleftrightarrow> fst (start w ob) = Returned (Inl AlreadyStarted)) \<and>
    (ob_started ob \<longrightarrow> snd (start w ob) = ob) \<and>
    (\<not> ob_started ob \<and> panics p \<longrightarrow> start w ob = (Panicked p, ob\<lparr>ob_started := True\<rparr>)) \<and>
    (\<not> ob_started ob \<and> (\<nexists>p. panics p) \<longrightarrow>
      (\<exists>res. start w ob = (Returned res, case res of Inl e \<Rightarrow> ob | Inr h \<Rightarrow> ob\<lparr>ob_started := True\<rparr>) \<and>
        (\<forall>m c n. res = Inl (PoolTooSmall m c n) \<longleftrightarrow> \<not> big \<and> m = ob_max_connections ob \<and>
          c = cfg_concurrency (ob_config ob) \<and> n = 2 * unat c + 2) \<and>
        (\<forall>x. res = Inl (SchemaMissing x) \<longleftrightarrow> big \<and> missing x) \<and>
        (\<forall>e. res = Inl (PgwqBuild e) \<longleftrightarrow> big \<and> (\<nexists>x. missing x) \<and> build = Inl e) \<and>
        (\<forall>e. res = Inl (PgwqStart e) \<longleftrightarrow>
          big \<and> (\<nexists>x. missing x) \<and> (\<exists>k. build = Inr k \<and> sw_worker_start w k = Inl e)) \<and>
        (\<forall>h. res = Inr h \<longleftrightarrow>
          big \<and> (\<nexists>x. missing x) \<and> (\<exists>k. build = Inr k \<and> sw_worker_start w k = Inr h))))"
proof -
  have flavor: "(flavor_check ob w = Inl q) = panics q" "(\<exists>fl. flavor_check ob w = Inr fl) = (\<nexists>q. panics q)" for q
    by (auto simp: flavor_check_def assms(4) split: sum.splits)
  have st: "start w ob = (case flavor_check ob w of
        Inl q \<Rightarrow> (Panicked q, ob\<lparr>ob_started := True\<rparr>)
      | Inr _ \<Rightarrow> (Returned (start_guarded ob w),
          case start_guarded ob w of Inl e \<Rightarrow> ob | Inr h \<Rightarrow> ob\<lparr>ob_started := True\<rparr>))" if "\<not> ob_started ob"
  proof -
    have "ob\<lparr>ob_started := False\<rparr> = ob" using that by (cases ob) simp
    then show ?thesis using that by (simp add: start_def start_flag_irrelevant guard_drop_def split: sum.split)
  qed
  note res = start_guarded_results [OF assms(1-3)]
  have "start w ob = (Returned (start_guarded ob w),
      case start_guarded ob w of Inl e \<Rightarrow> ob | Inr h \<Rightarrow> ob\<lparr>ob_started := True\<rparr>)"
    if "\<not> ob_started ob" "\<nexists>q. panics q"
    using st [OF that(1)] flavor(2) that(2) by auto
  moreover have "start w ob = (Panicked p, ob\<lparr>ob_started := True\<rparr>)" if "\<not> ob_started ob" "panics p"
    using st [OF that(1)] flavor(1) [of p] that(2) by simp
  moreover have "fst (start w ob) \<noteq> Returned (Inl AlreadyStarted)" if "\<not> ob_started ob"
    using st [OF that] res(6) by (auto split: sum.split)
  moreover have "start w ob = (Returned (Inl AlreadyStarted), ob)" if "ob_started ob"
    using that by (simp add: start_def)
  ultimately show ?thesis using res(1-5) by (intro conjI impI exI [of _ "start_guarded ob w"]) auto
qed

definition sample_start_world :: "(unit, string, string, unit, nat) start_world" where
  "sample_start_world = \<lparr>sw_runtime_flavor = Inr MultiThread, sw_probe = Inr (),
    sw_worker_build = (\<lambda>_. Inr ()), sw_worker_start = (\<lambda>_. Inr 1)\<rparr>"

theorem start_results_witness:
  "fst (start sample_start_world (sample_outbox\<lparr>ob_max_connections := 33\<rparr>)) = Returned (Inl (PoolTooSmall 33 16 34)) \<and>
   fst (start (sample_start_world\<lparr>sw_worker_start := \<lambda>_. Inl ''down''\<rparr>) (sample_outbox\<lparr>ob_max_connections := 34\<rparr>)) =
     Returned (Inl (PgwqStart ''down''))"
proof -
  have n: "\<not> ob_started (sample_outbox\<lparr>ob_max_connections := k\<rparr>)" for k
    by (simp add: sample_outbox_def Outbox_new_def)
  have c: "cfg_concurrency (ob_config (sample_outbox\<lparr>ob_max_connections := k\<rparr>)) = 16" for k
    by (simp add: sample_outbox_def Outbox_new_def OutboxConfig_default_def)
  let ?w = "sample_start_world\<lparr>sw_worker_start := \<lambda>_. Inl ''down''\<rparr>"
  have w: "sw_runtime_flavor sample_start_world = Inr MultiThread" "sw_probe sample_start_world = Inr ()"
    "sw_worker_build sample_start_world x = Inr ()" for x
    by (simp_all add: sample_start_world_def)
  from start_results [OF refl refl refl refl, of "sample_outbox\<lparr>ob_max_connections := 33\<rparr>" sample_start_world]
    start_results [OF refl refl refl refl, of "sample_outbox\<lparr>ob_max_connections := 34\<rparr>" ?w]
  show ?thesis unfolding c by (auto simp: n w)
qed

definition sample_idle :: "(string, string, nat) start_state" where
  "sample_idle = \<lparr>ss_started = False, ss_task = (\<lambda>_. Idle)\<rparr>"

lemma sample_up: "start_reach sample_outbox (goes 0 (Up 1) True sample_idle)"
proof -
  let ?s = "\<lambda>p. goes 0 p True sample_idle"
  have "start_reach sample_outbox sample_idle"
    by (rule reach_init) (simp add: start_init_def sample_idle_def)
  then have "start_reach sample_outbox (?s Swapped)"
    by (rule reach_step) (simp add: call_swap sample_idle_def)
  then have "start_reach sample_outbox (?s Guarded)"
    by (rule reach_step) (use arm_guard [of "?s Swapped" 0 sample_outbox] in simp)
  then have "start_reach sample_outbox (?s Probing)"
    by (rule reach_step) (use pool_passes [of "?s Guarded" 0 sample_outbox] in \<open>simp add: pool_check_cases
      sample_outbox_def Outbox_new_def OutboxConfig_default_def\<close>)
  then have "start_reach sample_outbox (?s Starting)"
    by (rule reach_step) (use build_passes [of "?s Probing" 0 sample_outbox] in simp)
  then show ?thesis
    by (rule reach_step) (use worker_up [of "?s Starting" 0 sample_outbox 1] in simp)
qed

theorem start_at_most_one_witness:
  "ss_started (goes 0 (Up 1) True sample_idle) \<and> {j. \<exists>h. ss_task (goes 0 (Up 1) True sample_idle) j = Up h} = {0}"
proof -
  have up: "ss_task (goes 0 (Up 1) True sample_idle) 0 = Up 1" by simp
  from start_at_most_one [OF sample_up] up show ?thesis by blast
qed

theorem start_refines_steps_witness:
  "\<exists>t. (start_step sample_outbox)\<^sup>*\<^sup>* sample_idle t \<and> ss_task t 0 = Up 1 \<and> ss_started t"
proof -
  have f: "fst (start sample_start_world sample_outbox) = Returned (Inr 1)"
    "ob_started (snd (start sample_start_world sample_outbox))"
    by (simp_all add: start_def flavor_check_def sample_start_world_def start_guarded_def pool_check_cases
        guard_drop_def sample_outbox_def Outbox_new_def OutboxConfig_default_def)
  have "(start_step sample_outbox)\<^sup>*\<^sup>* sample_idle
      (goes 0 (result_phase (fst (start sample_start_world sample_outbox)))
        (ob_started (snd (start sample_start_world sample_outbox))) sample_idle)"
    by (rule start_refines_steps) (simp_all add: sample_idle_def sample_outbox_def Outbox_new_def)
  then show ?thesis unfolding f by (intro exI conjI) (assumption, simp_all add: f)
qed

lemma set_map_filter: "set (List.map_filter f xs) = {y. \<exists>x \<in> set xs. f x = Some y}"
  by (induction xs) (auto simp: map_filter_simps split: option.splits)

lemma fst_set_map_filter:
  "(\<And>x y. x \<in> set xs \<Longrightarrow> f x = Some y \<Longrightarrow> fst y = fst x) \<Longrightarrow> fst ` set (List.map_filter f xs) \<subseteq> fst ` set xs"
  by (force simp: set_map_filter)

lemma distinct_map_filter_fst:
  assumes "distinct (map fst xs)" and "\<And>x y. x \<in> set xs \<Longrightarrow> f x = Some y \<Longrightarrow> fst y = fst x"
  shows "distinct (map fst (List.map_filter f xs))"
  using assms
proof (induction xs)
  case (Cons x xs)
  have "fst ` set (List.map_filter f xs) \<subseteq> fst ` set xs"
    using Cons.prems(2) by (intro fst_set_map_filter) auto
  then have "fst x \<notin> fst ` set (List.map_filter f xs)" using Cons.prems(1) by auto
  moreover have "distinct (map fst (List.map_filter f xs))" using Cons by simp
  moreover have "fst y = fst x" if "f x = Some y" for y using Cons.prems(2) [of x] that by simp
  ultimately show ?case
    by (cases "f x") (simp_all add: map_filter_simps)
qed (simp add: map_filter_simps)

text \<open>
  (C27) The per-handler limits that \<open>start\<close> gives to the worker and the concurrency keys that \<open>dispatch\<close> stamps on jobs
  agree: the limits name each limited handler of the registry once, with its limit, and a job carries
  a key exactly when the worker has a limit for it, and then the key is the handler's id.
\<close>

theorem concurrency_keys_agree:
  assumes "registry_wf reg"
  shows "distinct (map fst (concurrency_limits reg)) \<and>
    (\<forall>h n. (h, n) \<in> set (concurrency_limits reg) \<longleftrightarrow>
      (\<exists>rh. lookup reg h = Some rh \<and> rh_concurrency_limit rh = Some n)) \<and>
    (\<forall>env key. (env, key) \<in> set (make_envelopes reg e (handler_ids_for reg t)) \<longrightarrow>
      key = (if env_handler_id env \<in> fst ` set (concurrency_limits reg) then Some (env_handler_id env) else None))"
proof -
  have d: "distinct (map fst (handlers reg))" using assms by (simp add: registry_wf_def)
  have lim: "(h, n) \<in> set (concurrency_limits reg) \<longleftrightarrow>
      (\<exists>rh. lookup reg h = Some rh \<and> rh_concurrency_limit rh = Some n)" for h n
    using d by (force simp: concurrency_limits_def lookup_def set_map_filter map_of_eq_Some_iff)
  have "distinct (map fst (concurrency_limits reg))"
    unfolding concurrency_limits_def using d by (rule distinct_map_filter_fst) auto
  moreover have "key = (if env_handler_id env \<in> fst ` set (concurrency_limits reg)
      then Some (env_handler_id env) else None)"
    if "(env, key) \<in> set (make_envelopes reg e (handler_ids_for reg t))" for env key
  proof -
    from that obtain h where "env_handler_id env = h"
      "key = map_option (\<lambda>_. h) (Option.bind (lookup reg h) rh_concurrency_limit)"
      by (auto simp: make_envelopes_def)
    moreover have "h \<in> fst ` set (concurrency_limits reg) \<longleftrightarrow>
        Option.bind (lookup reg h) rh_concurrency_limit \<noteq> None"
      using lim by (force simp: bind_eq_None_conv bind_eq_Some_conv)
    ultimately show ?thesis by (auto split: if_splits)
  qed
  ultimately show ?thesis using lim by blast
qed

definition limited_registry :: Registry where
  "limited_registry = fold add_entry [sample_pending ''order'' ''audit'',
    (sample_pending ''order'' ''bill'')\<lparr>pend_concurrency_limit := Some 2\<rparr>] Registry_new"

theorem concurrency_keys_agree_witness:
  "concurrency_limits limited_registry = [(''bill'', 2)] \<and>
   make_envelopes limited_registry 7 (handler_ids_for limited_registry ''order'') =
     [(\<lparr>env_event_id = 7, env_handler_id = ''audit''\<rparr>, None),
      (\<lparr>env_event_id = 7, env_handler_id = ''bill''\<rparr>, Some ''bill'')]"
proof -
  have wf: "registry_wf limited_registry"
    unfolding limited_registry_def
    by (rule registry_wf_fold [where cfg = "OutboxConfig_default () PanicPolicy_Retry"])
      (simp_all add: registry_wf_new [unfolded Registry_new_def] sample_pending_def entry_valid_def
        limit_defs i32_max_def Registry_new_def)
  have lim: "concurrency_limits limited_registry = [(''bill'', 2)]"
    by (simp add: concurrency_limits_def limited_registry_def handlers_fold_add_entry Registry_new_def
        registered_def sample_pending_def map_filter_simps)
  have ids: "handler_ids_for limited_registry ''order'' = [''audit'', ''bill'']"
    by (simp add: limited_registry_def handler_ids_for_add_entry sample_pending_def)
  have "\<forall>env key. (env, key) \<in> set (make_envelopes limited_registry 7 [''audit'', ''bill'']) \<longrightarrow>
      key = (if env_handler_id env = ''bill'' then Some (env_handler_id env) else None)"
    using concurrency_keys_agree [OF wf, of 7 "''order''"] by (simp add: lim ids)
  then show ?thesis by (simp add: lim ids make_envelopes_def)
qed



end
