(* ===== verification/Outbox_Delivery.thy ===== *)
theory Outbox_Delivery
  imports Outbox_System Outbox_History Outbox_Lifecycle
begin

text \<open>
  Deliveries from end to end, over the definitions of the other theories: the attempts of one job until the
  delivery is finished, an event on its way from \<open>dispatch\<close> to the user's handler, and what a purge of the
  reservations does to idempotency.
\<close>

section \<open>The attempts of one job\<close>

text \<open>The tables after a sequence of calls of \<open>handle_envelope\<close> for one job.\<close>

fun run_calls ::
  "'b OutboxRuntime \<Rightarrow> timer \<Rightarrow> HandlerEnvelope \<Rightarrow> (worker_io \<times> JobContext) list \<Rightarrow> outbox_db \<Rightarrow> outbox_db"
where
  "run_calls rt elapsed env [] d = d"
| "run_calls rt elapsed env ((io, ctx) # rest) d =
    run_calls rt elapsed env rest (fst (snd (handle_envelope rt elapsed io id env ctx d)))"

lemma run_calls_append:
  "run_calls rt elapsed env (as @ bs) d = run_calls rt elapsed env bs (run_calls rt elapsed env as d)"
  by (induction as arbitrary: d) auto

text \<open>A fault after which the crate asks for a retry.\<close>

fun transient_fault :: "fault \<Rightarrow> bool" where
  "transient_fault NoFault = True"
| "transient_fault (FailBefore x) = (\<not> is_sqlx_deterministic x)"
| "transient_fault (FailAfter x) = (\<not> is_sqlx_deterministic x)"

text \<open>The calls follow one another on the server's clock, and their faults are transient.\<close>

fun calls_follow :: "timestamp \<Rightarrow> (worker_io \<times> JobContext) list \<Rightarrow> bool" where
  "calls_follow now [] = True"
| "calls_follow now ((io, ctx) # rest) =
    (now \<le> io_claim_now io \<and> io_claim_now io \<le> io_mark_now io \<and> transient_fault (io_claim_fault io) \<and>
     transient_fault (io_mark_fault io) \<and> calls_follow (io_mark_now io) rest)"

fun end_time :: "timestamp \<Rightarrow> (worker_io \<times> JobContext) list \<Rightarrow> timestamp" where
  "end_time now [] = now"
| "end_time now ((io, ctx) # rest) = end_time (io_mark_now io) rest"

lemma calls_follow_append: "calls_follow now (as @ bs) \<longleftrightarrow> calls_follow now as \<and> calls_follow (end_time now as) bs"
  by (induction as arbitrary: now) auto

lemma map_sql_transient: "\<not> is_sqlx_deterministic x \<Longrightarrow> map_sql x kind = JobRetry (kind @ '': '' @ redact_db_error x) None"
  by (simp add: map_sql_def)

lemma final_status_verdict:
  "terminal_status (final_status exhausted res) \<or> (\<exists>m t. job_verdict res = Inl (JobRetry m t)) \<and> \<not> exhausted"
  by (cases res rule: result_cases) auto

lemma settled_clock:
  "clock_reached now (settle_set x res now' r) = clock_reached now r"
  by (simp add: clock_reached_def settle_set_keeps)

text \<open>
  A call that does not get to write its verdict: its claim failed on the way, there or back, so that the handler is
  not run, or the statement of the verdict never reached the server.
\<close>

fun loses_verdict :: "fault \<Rightarrow> fault \<Rightarrow> bool" where
  "loses_verdict NoFault (FailBefore x) = True"
| "loses_verdict NoFault f = False"
| "loses_verdict f f' = True"

text \<open>
  What one attempt achieves, whatever transient faults it meets: the row is still there, the schema holds, and
  the row is finished or the queue is asked to try again; the last attempt finishes it if the verdict is written, and no
  attempt finishes an unfinished row (\<open>\<not> fin\<close>) if it is not.
\<close>

definition attempt_done ::
  "(json \<Rightarrow> string) \<Rightarrow> HandlerEnvelope \<Rightarrow> worker_io \<Rightarrow> JobContext \<Rightarrow> bool \<Rightarrow> worker_result \<Rightarrow> bool" where
  "attempt_done jt env io ctx fin out \<longleftrightarrow>
    (case out of (res, d', tr) \<Rightarrow> db_ok jt d' \<and>
      (\<exists>r'. find_delivery (env_event_id env, env_handler_id env) (deliveries d') = Some r' \<and>
        clock_reached (io_mark_now io) r' \<and>
        (terminal_status (hd_status r') \<or> (\<exists>m t. res = Inl (JobRetry m t))) \<and>
        (\<not> loses_verdict (io_claim_fault io) (io_mark_fault io) \<and> attempts_exhausted ctx \<longrightarrow>
          terminal_status (hd_status r')) \<and>
        (\<not> fin \<and> loses_verdict (io_claim_fault io) (io_mark_fault io) \<longrightarrow> \<not> terminal_status (hd_status r'))))"

lemma attempt_doneI:
  assumes "db_ok jt d'" and "find_delivery (env_event_id env, env_handler_id env) (deliveries d') = Some r'"
    and "clock_reached (io_mark_now io) r'"
    and "terminal_status (hd_status r') \<or> (\<exists>m t. res = Inl (JobRetry m t)) \<and>
      (loses_verdict (io_claim_fault io) (io_mark_fault io) \<or> \<not> attempts_exhausted ctx)"
    and "fin \<or> \<not> loses_verdict (io_claim_fault io) (io_mark_fault io) \<or> \<not> terminal_status (hd_status r')"
  shows "attempt_done jt env io ctx fin (res, d', tr)"
  using assms by (auto simp: attempt_done_def)

lemma handle_envelope_terminal_db:
  assumes ok: "db_ok jt d" and tok: "text_ok (env_handler_id env)"
    and fnd: "find_delivery (env_event_id env, env_handler_id env) (deliveries d) = Some r"
    and fin: "terminal_status (hd_status r)"
  shows "fst (snd (handle_envelope rt elapsed io others env ctx d)) = d"
proof -
  obtain ev where ev: "find_event (env_event_id env) (events d) = Some ev" by (rule event_of_delivery [OF ok fnd])
  let ?v = "claim_view ev (dispatch_keys d) (Some r) False"
  have c: "claim_stmt (io_claim_now io) (env_event_id env) (env_handler_id env)
      (attempt_param (jc_attempt ctx)) (jc_lease_token ctx) d = Inr (Some ?v, d)"
    using claim_inactive [OF not_claimable_terminal [OF ok fnd fin] tok] fnd ev by simp
  have "cr_prev_status ?v = Some (as_str (hd_status r))" "\<not> cr_did_update ?v" by (simp_all add: claim_view_def)
  then show ?thesis
    by (cases "io_claim_fault io") (simp_all add: handle_envelope_def run_stmt_def c)
qed

lemma attempt_done_terminal:
  assumes ok: "db_ok jt d" and tok: "text_ok (env_handler_id env)"
    and fnd: "find_delivery (env_event_id env, env_handler_id env) (deliveries d) = Some r"
    and fin: "terminal_status (hd_status r)" and clk: "clock_reached (io_mark_now io) r"
  shows "attempt_done jt env io ctx True (handle_envelope rt elapsed io others env ctx d)"
proof -
  obtain res tr where "handle_envelope rt elapsed io others env ctx d = (res, d, tr)"
    using handle_envelope_terminal_db [OF ok tok fnd fin] by (metis prod.collapse)
  then show ?thesis using assms by (auto intro: attempt_doneI)
qed

text \<open>The last write of an attempt, by the worker that holds the lease.\<close>

lemma attempt_done_mark:
  assumes ok: "db_ok jt d" and tok: "text_ok (env_handler_id env)"
    and fnd: "find_delivery (env_event_id env, env_handler_id env) (deliveries d) = Some r"
    and run: "hd_status r = Running" "hd_lease_token r = Some (jc_lease_token ctx)"
    and clk: "clock_reached (io_mark_now io) r" and tr: "transient_fault (io_mark_fault io)"
    and nf: "io_claim_fault io = NoFault"
  shows "attempt_done jt env io ctx False (with_trace pre (and_return
    (settle_mark (attempts_exhausted ctx) res (io_mark_fault io) (io_mark_now io)
      (env_event_id env) (env_handler_id env) (jc_lease_token ctx) d) (job_verdict res)))"
proof (cases "io_mark_fault io")
  case (FailBefore x)
  then show ?thesis
    using tr nf run(1) attempt_doneI [OF ok fnd clk] by (simp add: settled.mark_lost map_sql_transient)
next
  case (FailAfter x)
  show ?thesis
    by (rule settled.mark_holder [OF ok fnd run clk tok, of "attempts_exhausted ctx" res x])
      (use FailAfter tr nf clk final_status_verdict [of "attempts_exhausted ctx" res] in
        \<open>auto simp: settled_clock map_sql_transient settled.sets intro!: attempt_doneI\<close>)
next
  case NoFault
  show ?thesis
    by (rule settled.mark_holder [OF ok fnd run clk tok, of "attempts_exhausted ctx" res])
      (use NoFault nf clk final_status_verdict [of "attempts_exhausted ctx" res] in
        \<open>auto simp: settled_clock settled.sets intro!: attempt_doneI\<close>)
qed

lemma attempt_done_active:
  assumes ok: "db_ok jt d" and tok: "text_ok (env_handler_id env)"
    and fnd: "find_delivery (env_event_id env, env_handler_id env) (deliveries d) = Some r"
    and act: "\<not> terminal_status (hd_status r)"
    and clk: "clock_reached (io_claim_now io) r" "io_claim_now io \<le> io_mark_now io"
    and tr: "transient_fault (io_claim_fault io)" "transient_fault (io_mark_fault io)"
  shows "attempt_done jt env io ctx False (handle_envelope rt elapsed io id env ctx d)"
proof -
  obtain ev where ev: "find_event (env_event_id env) (events d) = Some ev" by (rule event_of_delivery [OF ok fnd])
  show ?thesis
  proof (cases "io_claim_fault io")
    case NoFault
    show ?thesis
      by (rule handle_envelope_active [OF ok tok fnd act ev clk(1) NoFault refl,
            where others = id and rt = rt and elapsed = elapsed and ctx = ctx])
        (simp add: attempt_done_mark [OF _ tok _ claimed_row_facts(1,2) claimed_row_facts(4) [OF clk(2)] tr(2) NoFault])
  next
    case (FailBefore x)
    then show ?thesis
      using tr(1) act attempt_doneI [OF ok fnd clock_reached_mono [OF clk]]
      by (simp add: handle_envelope_def run_stmt_def map_sql_transient)
  next
    case (FailAfter x)
    show ?thesis
      by (rule claim_active [OF ok fnd act clk(1) tok ev, where a = "attempt_param (jc_attempt ctx)" and t = "jc_lease_token ctx"])
        (use FailAfter tr(1) attempt_doneI [OF _ _ claimed_row_facts(4) [OF clk(2)]] claimed_row_facts(1) in
          \<open>simp add: handle_envelope_def run_stmt_def map_sql_transient\<close>)
  qed
qed

lemma attempt_done_always:
  assumes "db_ok jt d" and "text_ok (env_handler_id env)"
    and "find_delivery (env_event_id env, env_handler_id env) (deliveries d) = Some r"
    and "clock_reached (io_claim_now io) r" "io_claim_now io \<le> io_mark_now io"
    and "transient_fault (io_claim_fault io)" "transient_fault (io_mark_fault io)"
  shows "attempt_done jt env io ctx (terminal_status (hd_status r)) (handle_envelope rt elapsed io id env ctx d)"
proof (cases "terminal_status (hd_status r)")
  case True
  then show ?thesis using attempt_done_terminal [OF assms(1-3) True] clock_reached_mono [OF assms(4,5)] by simp
next
  case False
  then show ?thesis using attempt_done_active [OF assms(1-3) False assms(4-7)] by simp
qed

lemma run_calls_keep:
  assumes "db_ok jt d" and "text_ok (env_handler_id env)"
    and "find_delivery (env_event_id env, env_handler_id env) (deliveries d) = Some r"
    and "clock_reached now r" and "calls_follow now as"
  shows "db_ok jt (run_calls rt elapsed env as d) \<and>
    (\<exists>r'. find_delivery (env_event_id env, env_handler_id env) (deliveries (run_calls rt elapsed env as d)) = Some r' \<and>
      clock_reached (end_time now as) r')"
  using assms
proof (induction as arbitrary: d r now)
  case (Cons a as)
  obtain io ctx where a: "a = (io, ctx)" by fastforce
  obtain res d' tr where h: "handle_envelope rt elapsed io id env ctx d = (res, d', tr)" by (metis prod.exhaust)
  have "attempt_done jt env io ctx (terminal_status (hd_status r)) (res, d', tr)"
    using attempt_done_always [of jt d env r io ctx rt elapsed] Cons.prems clock_reached_mono by (auto simp: h a)
  then show ?case using Cons.IH Cons.prems by (auto simp: a h attempt_done_def)
qed auto

text \<open>
  (C7) When a delivery is finished, and when it is stranded. Take any calls for one job, with transient connection faults in
  any of them (statements that never reached the server and statements whose answer was lost) and whatever the
  handler does, and look at any one call. A finished row stays as it is. An unfinished row is finished by the call, or
  the answer is a retry, on which the queue hands the job back unless this was the last attempt. On the last
  attempt the row is finished exactly when the call got to write its verdict; if its claim was lost, or the statement of
  its verdict never reached the server, the row stays unfinished, and since the queue hands the job back no more,
  it stays so for good: the stranded row that the README describes under the sizing of the pool.
\<close>

theorem delivery_finishes:
  assumes "db_ok jt d" and "text_ok (env_handler_id env)"
    and "find_delivery (env_event_id env, env_handler_id env) (deliveries d) = Some r"
    and "clock_reached now r" and "calls_follow now (as @ (io, ctx) # bs)"
    and "handle_envelope rt elapsed io id env ctx (run_calls rt elapsed env as d) = (res, d', tr)"
  shows "\<exists>r1 r'. find_delivery (env_event_id env, env_handler_id env) (deliveries (run_calls rt elapsed env as d)) = Some r1 \<and>
    find_delivery (env_event_id env, env_handler_id env) (deliveries d') = Some r' \<and>
    (terminal_status (hd_status r1) \<longrightarrow> d' = run_calls rt elapsed env as d) \<and>
    (terminal_status (hd_status r') \<or> (\<exists>m t. res = Inl (JobRetry m t))) \<and>
    (\<not> terminal_status (hd_status r1) \<and> jc_attempt ctx \<ge> jc_max_attempts ctx \<longrightarrow>
      (terminal_status (hd_status r') \<longleftrightarrow> \<not> loses_verdict (io_claim_fault io) (io_mark_fault io)))"
proof -
  let ?d = "run_calls rt elapsed env as d"
  obtain r1 where r1: "db_ok jt ?d" "find_delivery (env_event_id env, env_handler_id env) (deliveries ?d) = Some r1"
    "clock_reached (end_time now as) r1"
    using run_calls_keep [OF assms(1-4), of as rt elapsed] assms(5) by (auto simp: calls_follow_append)
  then have "attempt_done jt env io ctx (terminal_status (hd_status r1)) (res, d', tr)"
    using attempt_done_always [of jt ?d env r1 io ctx rt elapsed] assms(2,5,6) clock_reached_mono
    by (auto simp: calls_follow_append)
  moreover have "terminal_status (hd_status r1) \<Longrightarrow> d' = ?d"
    using handle_envelope_terminal_db [OF r1(1) assms(2) r1(2), of rt elapsed io id ctx] assms(6) by simp
  ultimately show ?thesis using r1(2) by (auto simp: attempt_done_def)
qed

text \<open>Three calls of one job: the second never reaches the server; the third is the last attempt, without or with a fault.\<close>

definition sample_calls :: "(worker_io \<times> JobContext) list" where
  "sample_calls = [(sample_io\<lparr>io_mark_fault := FailBefore PoolTimedOut\<rparr>, sample_ctx),
    (sample_io\<lparr>io_claim_fault := FailBefore PoolClosed, io_claim_now := 130, io_mark_now := 130\<rparr>, sample_ctx)]"

definition sample_last_io :: "fault \<Rightarrow> worker_io" where
  "sample_last_io f = sample_io\<lparr>io_claim_now := 140, io_mark_now := 150, io_mark_fault := f\<rparr>"

lemma lost_call_unfinished:
  assumes "db_ok jt d" and "text_ok (env_handler_id env)"
    and "find_delivery (env_event_id env, env_handler_id env) (deliveries d) = Some r" "\<not> terminal_status (hd_status r)"
    and "clock_reached now r" and "calls_follow now ((io, ctx) # rest)"
    and "loses_verdict (io_claim_fault io) (io_mark_fault io)"
    and "d' = fst (snd (handle_envelope rt elapsed io id env ctx d))"
  shows "db_ok jt d' \<and> (\<exists>r'. find_delivery (env_event_id env, env_handler_id env) (deliveries d') = Some r' \<and>
    \<not> terminal_status (hd_status r') \<and> clock_reached (io_mark_now io) r')"
proof -
  have "attempt_done jt env io ctx False (handle_envelope rt elapsed io id env ctx d)"
    using assms clock_reached_mono by (intro attempt_done_active) auto
  then show ?thesis using assms(7,8) by (auto simp: attempt_done_def split: prod.splits)
qed

lemma sample_calls_unfinished:
  assumes "find_delivery (env_event_id sample_env, env_handler_id sample_env)
    (deliveries (run_calls sample_rt sample_timer sample_env sample_calls sample_db)) = Some r"
  shows "\<not> terminal_status (hd_status r)"
proof -
  let ?io1 = "sample_io\<lparr>io_mark_fault := FailBefore PoolTimedOut\<rparr>"
  let ?io2 = "sample_io\<lparr>io_claim_fault := FailBefore PoolClosed, io_claim_now := 130, io_mark_now := 130\<rparr>"
  let ?d1 = "fst (snd (handle_envelope sample_rt sample_timer ?io1 id sample_env sample_ctx sample_db))"
  have act: "\<not> terminal_status (hd_status sample_delivery)" and clk: "clock_reached 105 sample_delivery"
    by (simp_all add: clock_reached_def coalesce_def sample_delivery_def)
  obtain r1 where r1: "db_ok (\<lambda>_. ''{}'') ?d1" "\<not> terminal_status (hd_status r1)" "clock_reached (io_mark_now ?io1) r1"
    "find_delivery (env_event_id sample_env, env_handler_id sample_env) (deliveries ?d1) = Some r1"
    using lost_call_unfinished [OF sample_db_ok sample_lookups(3,1) act clk _ _ refl, of ?io1 sample_ctx "[]"]
    by (auto simp: sample_io_def)
  have "\<exists>r. find_delivery (env_event_id sample_env, env_handler_id sample_env)
      (deliveries (run_calls sample_rt sample_timer sample_env sample_calls sample_db)) = Some r \<and> \<not> terminal_status (hd_status r)"
    using lost_call_unfinished [OF r1(1) sample_lookups(3) r1(4,2,3) _ _ refl, of ?io2 sample_ctx "[]"]
    unfolding sample_calls_def run_calls.simps by (auto simp: sample_io_def)
  with assms show ?thesis by auto
qed

theorem delivery_finishes_witness:
  "\<exists>r res d' tr s res' d'' tr'.
    handle_envelope sample_rt sample_timer (sample_last_io NoFault) id sample_env (sample_ctx\<lparr>jc_attempt := 5\<rparr>)
      (run_calls sample_rt sample_timer sample_env sample_calls sample_db) = (res, d', tr) \<and>
    find_delivery (7, ''audit'') (deliveries d') = Some r \<and> terminal_status (hd_status r) \<and>
    handle_envelope sample_rt sample_timer (sample_last_io (FailBefore PoolTimedOut)) id sample_env (sample_ctx\<lparr>jc_attempt := 5\<rparr>)
      (run_calls sample_rt sample_timer sample_env sample_calls sample_db) = (res', d'', tr') \<and>
    find_delivery (7, ''audit'') (deliveries d'') = Some s \<and> \<not> terminal_status (hd_status s)"
proof -
  let ?ctx = "sample_ctx\<lparr>jc_attempt := 5\<rparr>" and ?d = "run_calls sample_rt sample_timer sample_env sample_calls sample_db"
  have follow: "calls_follow 105 (sample_calls @ (sample_last_io f, ?ctx) # [])" if "transient_fault f" for f
    using that by (simp add: sample_io_def sample_calls_def sample_last_io_def)
  have clk: "clock_reached 105 sample_delivery"
    by (simp add: clock_reached_def coalesce_def sample_delivery_def)
  have last: "io_claim_fault (sample_last_io f) = NoFault" "io_mark_fault (sample_last_io f) = f"
    "jc_attempt ?ctx \<ge> jc_max_attempts ?ctx" for f
    by (simp_all add: sample_io_def sample_ctx_def sample_last_io_def)
  have key: "(env_event_id sample_env, env_handler_id sample_env) = (7, ''audit'')" by (simp add: sample_env_def)
  have run: "find_delivery (7, ''audit'') (deliveries ?d) = Some r \<Longrightarrow> \<not> terminal_status (hd_status r)" for r
    using sample_calls_unfinished by (auto simp: sample_env_def)
  obtain res d' tr where h: "handle_envelope sample_rt sample_timer (sample_last_io NoFault) id sample_env ?ctx ?d = (res, d', tr)"
    by (metis prod.exhaust)
  obtain res' d'' tr' where h': "handle_envelope sample_rt sample_timer (sample_last_io (FailBefore PoolTimedOut)) id
    sample_env ?ctx ?d = (res', d'', tr')" by (metis prod.exhaust)
  from delivery_finishes [OF sample_db_ok sample_lookups(3,1) clk follow h] obtain r where
    "find_delivery (7, ''audit'') (deliveries d') = Some r" "terminal_status (hd_status r)"
    unfolding key using last run by auto
  moreover from delivery_finishes [OF sample_db_ok sample_lookups(3,1) clk follow h'] obtain s where
    "find_delivery (7, ''audit'') (deliveries d'') = Some s" "\<not> terminal_status (hd_status s)"
    unfolding key using last run by auto
  ultimately show ?thesis using h h' by blast
qed

section \<open>From dispatch to the handler\<close>

text \<open>The context that a dispatch lets its handlers see.\<close>

definition handler_view :: "DispatchContext \<Rightarrow> uuid \<Rightarrow> json_map \<Rightarrow> JobContext \<Rightarrow> HandlerContext" where
  "handler_view ctx e headers jctx =
    \<lparr>hc_event_id = e, hc_tenant_id = dc_tenant_id ctx, hc_producer_bc = dc_producer_bc ctx,
     hc_attempt = jc_attempt jctx, hc_max_attempts = jc_max_attempts jctx,
     hc_delivery_key = jc_idempotency_key jctx, hc_dispatch_idempotency_key = dc_idempotency_key ctx,
     hc_headers = headers\<rparr>"

lemma find_reservation_of_event:
  assumes "distinct (map dk_event_id (ks @ [k]))" and "dk_event_id k = e"
  shows "find (\<lambda>k. dk_event_id k = e) (ks @ [k]) = Some k"
  using assms by (intro find_distinct_key) simp_all

lemma dispatched_rows:
  assumes ok: "db_ok (dw_jsonb_text w) (tx_db tx)"
    and d: "dispatch ob w E ctx event tx = (Inr (Dispatched e n), tx')"
    and h: "h \<in> set (handler_ids_for (ob_registry ob) (EVENT_TYPE E))"
    and hs: "stored_headers w ctx = Inr (JObject headers)" and pl: "to_vec E event = Inr payload"
  obtains r ev where "find_delivery (e, h) (deliveries (tx_db tx')) = Some r" "hd_status r = Queued"
    "hd_attempts r = 0" "hd_created_at r = dw_now w" "hd_last_attempted_at r = None"
    "find_event e (events (tx_db tx')) = Some ev" "ev_payload ev = payload"
    "delivery_context ev (dispatch_keys (tx_db tx')) \<lparr>env_event_id = e, env_handler_id = h\<rparr> jctx =
      handler_view ctx e headers jctx"
  using d
proof (cases rule: dispatch_Inr)
  case (inserted j p)
  let ?ids = "handler_ids_for (ob_registry ob) (EVENT_TYPE E)"
  let ?row = "mk_event_row E ctx event (dw_event_id w) (dw_now w) p j"
  let ?new = "new_deliveries (dw_now w) (dw_event_id w) (next_delivery_id (tx_db tx)) ?ids"
  have e: "e = dw_event_id w" using inserted(4) by (simp add: job_outcome_def split: if_splits)
  have ok': "db_ok (dw_jsonb_text w) (tx_db tx')" by (rule dispatch_db_ok(1) [OF ok d])
  have tb: "events (tx_db tx') = events (tx_db tx) @ [?row]" "deliveries (tx_db tx') = deliveries (tx_db tx) @ ?new"
    "dispatch_keys (tx_db tx') = dispatch_keys (tx_db tx) @ reservation_rows w ctx"
    by (simp_all add: inserted(7) inserted_rows_def)
  have "(e, h) \<in> set (map delivery_key ?new)" using h unfolding new_deliveries_keys e by simp
  then obtain r where r: "r \<in> set ?new" "delivery_key r = (e, h)" by force
  then have fr: "find_delivery (e, h) (deliveries (tx_db tx')) = Some r"
    using find_in_deliveries [OF ok'] by (simp add: tb)
  have fe: "find_event e (events (tx_db tx')) = Some ?row"
    using ev_tab.look_in [of "events (tx_db tx')" ?row] ok' by (auto simp: tb schema_defs e)
  have "find (\<lambda>k. dk_event_id k = e) (dispatch_keys (tx_db tx')) =
      (case dc_idempotency_key ctx of None \<Rightarrow> None | Some key \<Rightarrow> Some (hd (reservation_rows w ctx)))"
  proof (cases "dc_idempotency_key ctx")
    case None
    have "e \<notin> ev_id ` set (events (tx_db tx))" using ok' by (auto simp: schema_defs tb e)
    then show ?thesis
      using ok None by (auto simp: tb reservation_rows_def find_None_iff schema_defs)
  next
    case (Some key)
    then show ?thesis
      using find_reservation_of_event [of "dispatch_keys (tx_db tx)" "hd (reservation_rows w ctx)" e] ok'
      by (simp add: tb reservation_rows_def schema_defs e)
  qed
  then have "delivery_context ?row (dispatch_keys (tx_db tx')) \<lparr>env_event_id = e, env_handler_id = h\<rparr> jctx =
      handler_view ctx e headers jctx"
    using hs inserted(9)
    by (cases "dc_idempotency_key ctx")
      (simp_all add: delivery_context_def handler_view_def mk_event_row_def reservation_rows_def e)
  with fr fe r(1) pl inserted(1) show ?thesis
    by (intro that [of r ?row]) (auto simp: mk_event_row_def new_delivery_def dest!: new_deliveries_rows)
qed simp

lemma translate_outcome_of: "translate_outcome (outcome_of v) s = v"
  by (cases v) simp_all

lemma delivery_result_of_handler:
  assumes "lookup (rt_registry rt) (env_handler_id env) = Some rh" and "rh_handler rh = handle_erased E handle"
    and "from_slice E (ev_payload ev) = Inr event"
    and "handle event (delivery_context ev keys env jctx) = \<lparr>completes_after = Some t, ending = Returned v\<rparr>"
    and "timer_ok elapsed" and "t < our_timeout rt rh"
  shows "delivery_result rt elapsed env jctx ev keys = v"
  using assms
  by (simp add: delivery_result_def invoke_handler_def handle_erased_decoded timer_ok_def Let_def translate_outcome_of)

text \<open>
  (C8) An event reaches its handlers as it was dispatched. Take a handler registered for the event's type with any
  builder that goes on to build the outbox, and an event whose encoding decodes to itself: after a dispatch, one of the
  pushed jobs is for that handler, and the worker of the same outbox runs the user's function on the dispatched
  event itself, with the tenant, producer, idempotency key and headers of the dispatch; if it returns
  within its budget, its result decides the status, the error text and the answer to the queue.
\<close>

theorem dispatched_event_reaches_handler:
  assumes "set (bld_pending (register_handler E hid handle opts b0)) \<subseteq> set (bld_pending b)"
    and "OutboxBuilder_build bd pd b = Inr ob" and "lookup (ob_registry ob) hid = Some rh"
    and "db_ok (dw_jsonb_text w) (tx_db tx)" and "dispatch ob w E ctx event tx = (Inr (Dispatched e n), tx')"
    and "to_vec E event = Inr payload" and "from_slice E payload = Inr event"
    and "stored_headers w ctx = Inr (JObject headers)" and "text_ok hid"
    and "handle event (handler_view ctx e headers jctx) = \<lparr>completes_after = Some t, ending = Returned v\<rparr>"
    and "timer_ok elapsed" and "t < our_timeout (outbox_runtime ob) rh"
    and "dw_now w \<le> io_claim_now io" and "io_claim_now io \<le> io_mark_now io"
    and "io_claim_fault io = NoFault" and "io_mark_fault io = NoFault"
  shows "\<lparr>env_event_id = e, env_handler_id = hid\<rparr> \<in>
      fst ` set (make_envelopes (ob_registry ob) e (handler_ids_for (ob_registry ob) (EVENT_TYPE E))) \<and>
    (\<exists>d' r' tr. handle_envelope (outbox_runtime ob) elapsed io id \<lparr>env_event_id = e, env_handler_id = hid\<rparr> jctx (tx_db tx') =
        (job_verdict v, d', tr) \<and>
      find_delivery (e, hid) (deliveries d') = Some r' \<and>
      hd_status r' = final_status (jc_attempt jctx \<ge> jc_max_attempts jctx) v \<and> hd_last_error r' = final_error v)"
proof -
  let ?env = "\<lparr>env_event_id = e, env_handler_id = hid\<rparr>"
  note routes = outbox_build_ok_routes [OF assms(2)]
  let ?entry = "last (bld_pending (register_handler E hid handle opts b0))"
  have en: "?entry \<in> set (bld_pending b)" "pend_handler_id ?entry = hid" "pend_event_type ?entry = EVENT_TYPE E"
    "pend_handler ?entry = handle_erased E handle"
    using assms(1) by (simp_all add: register_handler_def)
  have h: "hid \<in> set (handler_ids_for (ob_registry ob) (EVENT_TYPE E))"
    unfolding conjunct1 [OF conjunct2 [OF conjunct2 [OF routes]], rule_format] using en(1-3)
    by (auto intro!: image_eqI [where x = ?entry])
  have "lookup (ob_registry ob) (pend_handler_id ?entry) = Some (registered ?entry)" using routes en(1) by blast
  then have rh: "rh_handler rh = handle_erased E handle"
    using assms(3) by (simp add: en(2,4) registered_def)
  obtain r ev where r: "find_delivery (e, hid) (deliveries (tx_db tx')) = Some r" "hd_status r = Queued"
      "hd_created_at r = dw_now w" "hd_last_attempted_at r = None"
    and ev: "find_event e (events (tx_db tx')) = Some ev" "ev_payload ev = payload"
      "delivery_context ev (dispatch_keys (tx_db tx')) ?env jctx = handler_view ctx e headers jctx"
    by (rule dispatched_rows [OF assms(4,5) h assms(8,6), where jctx = jctx])
  have res: "v = delivery_result (outbox_runtime ob) elapsed ?env jctx ev (dispatch_keys (tx_db tx'))"
    by (rule delivery_result_of_handler [symmetric, where event = event and handle = handle and E = E])
      (use assms(3,7,10-12) rh ev in \<open>simp_all add: outbox_runtime_def\<close>)
  have clk: "clock_reached (io_claim_now io) r" using r(3,4) assms(13) by (simp add: clock_reached_def coalesce_def)
  show ?thesis
  proof
    show "?env \<in> fst ` set (make_envelopes (ob_registry ob) e (handler_ids_for (ob_registry ob) (EVENT_TYPE E)))"
      using h by (force simp: make_envelopes_def)
    show "\<exists>d' r' tr. handle_envelope (outbox_runtime ob) elapsed io id ?env jctx (tx_db tx') = (job_verdict v, d', tr) \<and>
      find_delivery (e, hid) (deliveries d') = Some r' \<and>
      hd_status r' = final_status (jc_attempt jctx \<ge> jc_max_attempts jctx) v \<and> hd_last_error r' = final_error v"
      by (rule handle_envelope_done [of "dw_jsonb_text w" "tx_db tx'" ?env r ev io v "outbox_runtime ob" elapsed jctx])
        (use dispatch_db_ok(1) [OF assms(4,5)] assms(9,14-16) r ev clk res in
          \<open>simp_all add: settled.sets settle_set_error\<close>)
  qed
qed

text \<open>A handler that accepts one order of one tenant, and the outbox built with it alone.\<close>

definition picky_handle :: "nat \<Rightarrow> HandlerContext \<Rightarrow> (unit, HandlerError) rresult run" where
  "picky_handle n hctx = \<lparr>completes_after = Some 5,
    ending = Returned (if n = 1 \<and> hc_tenant_id hctx = ''acme'' \<and> hc_dispatch_idempotency_key hctx = Some ''k1''
      then Inr () else Inl (Abort ''not mine''))\<rparr>"

definition picky_builder :: "unit OutboxBuilder" where
  "picky_builder = register_handler order_event ''pick'' picky_handle HandlerOptions_new (OutboxBuilder_new 50)"

definition picky_outbox :: "unit Outbox" where
  "picky_outbox = Outbox_new 50 (OutboxConfig_default () PanicPolicy_Retry)
    (fold add_entry (bld_pending picky_builder) Registry_new) False"

lemma picky_built: "OutboxBuilder_build () PanicPolicy_Retry picky_builder = Inr picky_outbox"
  by (simp add: OutboxBuilder_build_ok_iff Let_def picky_outbox_def picky_builder_def register_handler_def
      OutboxBuilder_new_def HandlerOptions_new_def entry_valid_def limit_defs)

lemma picky_dispatched:
  obtains tx' where "dispatch picky_outbox (sample_world 7) order_event sample_dctx 1 empty_tx =
    (Inr (Dispatched 7 1), tx')"
proof -
  have ids: "handler_ids_for (ob_registry picky_outbox) ''order'' = [''pick'']"
    using outbox_build_ok_routes [OF picky_built]
    by (simp add: picky_builder_def register_handler_def OutboxBuilder_new_def order_event_def sample_event_def)
  have rdy: "dispatch_ready picky_outbox (sample_world 7) order_event sample_dctx 1 empty_tx [0] (JObject [])"
    using sample_ready [of 7] registry_wf_built [OF picky_built]
    by (simp add: dispatch_ready_def Let_def ids order_event_def sample_event_def dispatch_texts_def text_ok_def)
  have "dispatch picky_outbox (sample_world 7) order_event sample_dctx 1 empty_tx =
      push_jobs (sample_world 7) (ob_registry picky_outbox) [''pick'']
        (empty_tx\<lparr>tx_db := inserted_rows (sample_world 7)
          (mk_event_row order_event sample_dctx 1 7 100 [0] (JObject [])) [''pick'']
          (reservation_rows (sample_world 7) sample_dctx) (tx_db empty_tx)\<rparr>)"
    using dispatch_ready_fresh [OF rdy, of "[''pick'']"]
    by (simp add: ids order_event_def sample_event_def sample_world_def empty_tx_def empty_db_def find_reservation_def)
  then show ?thesis
    by (intro that) (simp add: push_jobs_def sample_world_def)
qed

theorem dispatched_event_reaches_handler_witness:
  "\<exists>tx' d' r' tr. dispatch picky_outbox (sample_world 7) order_event sample_dctx 1 empty_tx =
      (Inr (Dispatched 7 1), tx') \<and>
    handle_envelope (outbox_runtime picky_outbox) sample_timer sample_io id
      \<lparr>env_event_id = 7, env_handler_id = ''pick''\<rparr> sample_ctx (tx_db tx') = (Inr (), d', tr) \<and>
    find_delivery (7, ''pick'') (deliveries d') = Some r' \<and> hd_status r' = Sent"
proof -
  obtain tx' where d: "dispatch picky_outbox (sample_world 7) order_event sample_dctx 1 empty_tx =
    (Inr (Dispatched 7 1), tx')" by (rule picky_dispatched)
  let ?rh = "registered (last (bld_pending picky_builder))"
  have l: "lookup (ob_registry picky_outbox) ''pick'' = Some ?rh"
    by (simp add: picky_outbox_def picky_builder_def register_handler_def Outbox_new_def lookup_def
        handlers_fold_add_entry Registry_new_def OutboxBuilder_new_def)
  have h: "picky_handle 1 (handler_view sample_dctx 7 [] sample_ctx) =
      \<lparr>completes_after = Some 5, ending = Returned (Inr ())\<rparr>"
    by (simp add: picky_handle_def handler_view_def sample_dctx_def with_idempotency_key_def DispatchContext_new_def)
  have t: "5 < our_timeout (outbox_runtime picky_outbox) ?rh"
    by (simp add: our_timeout_def from_millis_def)
  have sub: "set (bld_pending (register_handler order_event ''pick'' picky_handle HandlerOptions_new
      (OutboxBuilder_new 50 :: unit OutboxBuilder))) \<subseteq> set (bld_pending picky_builder)" by (simp add: picky_builder_def)
  have ok: "db_ok (dw_jsonb_text (sample_world 7)) (tx_db empty_tx)"
    using sample_ready [of 7] by (simp add: dispatch_ready_def Let_def)
  have "timer_ok sample_timer" by (auto simp: timer_ok_def sample_timer_def)
  moreover have "to_vec order_event 1 = Inr [0]" "from_slice order_event [0] = Inr 1"
    by (simp_all add: order_event_def sample_event_def)
  moreover have "stored_headers (sample_world 7) sample_dctx = Inr (JObject [])" "text_ok ''pick''"
    by (simp_all add: stored_headers_def sample_world_def text_ok_def)
  moreover have "dw_now (sample_world 7) \<le> io_claim_now sample_io" by (simp add: sample_world_def sample_io_def)
  ultimately have "\<exists>d' r' tr. handle_envelope (outbox_runtime picky_outbox) sample_timer sample_io id
      \<lparr>env_event_id = 7, env_handler_id = ''pick''\<rparr> sample_ctx (tx_db tx') = (job_verdict (Inr ()), d', tr) \<and>
    find_delivery (7, ''pick'') (deliveries d') = Some r' \<and>
    hd_status r' = final_status (jc_attempt sample_ctx \<ge> jc_max_attempts sample_ctx) (Inr ()) \<and>
    hd_last_error r' = final_error (Inr ())"
    using dispatched_event_reaches_handler [OF sub picky_built l ok d _ _ _ _ h _ t] sample_lookups(6-8) by blast
  with d show ?thesis unfolding job_verdict.simps final_status.simps by blast
qed

section \<open>Reservations and their purge\<close>

text \<open>
  (C36) The idempotency of a key lasts as long as its reservation is kept. While the reservation is there a dispatch
  answers \<open>Duplicate\<close>; once \<open>purge_dispatch_keys\<close> has removed it, because it is older than the age given, the very same
  dispatch is accepted as a new event, although the first event and its deliveries are still stored.
\<close>

theorem key_purge_reopens:
  assumes "dispatch_ready ob w E ctx event tx payload h" and "length (dw_jsonb_text w h) \<le> 16384"
    and "dc_idempotency_key ctx = Some key"
    and "find_reservation (dc_tenant_id ctx, key) (dispatch_keys (tx_db tx)) = Some r"
    and "chrono_exact ch now age" and "dk_created_at r < now - int age"
    and "ids = handler_ids_for (ob_registry ob) (EVENT_TYPE E)" and "ids \<noteq> []"
    and "dw_push_batch w (make_envelopes (ob_registry ob) (dw_event_id w) ids) (tx_queue tx) = Inr q"
  shows "dispatch ob w E ctx event tx = (Inr (Duplicate (dk_event_id r)), tx) \<and>
    (\<exists>n d' tx'. purge_dispatch_keys ch now (\<lambda>_. NoFault) age (tx_db tx) = Some (Returned (Inr n), d') \<and>
      events d' = events (tx_db tx) \<and> deliveries d' = deliveries (tx_db tx) \<and>
      dispatch ob w E ctx event (tx\<lparr>tx_db := d'\<rparr>) = (Inr (Dispatched (dw_event_id w) (length ids)), tx'))"
proof -
  note rdy = assms(1) [unfolded dispatch_ready_def Let_def]
  let ?c = "now - int age"
  have ok: "db_ok (dw_jsonb_text w) (tx_db tx)" using rdy by blast
  obtain d' where run: "purge_dispatch_keys ch now (\<lambda>_. NoFault) age (tx_db tx) =
      Some (Returned (Inr (rows_matching (expired_key ?c) (dispatch_keys (tx_db tx)))), d')"
    and d': "dispatch_keys d' = filter (\<lambda>k. \<not> expired_key ?c k) (dispatch_keys (tx_db tx))"
      "events d' = events (tx_db tx)" "deliveries d' = deliveries (tx_db tx)" "db_ok (dw_jsonb_text w) d'"
    using pk.loop_complete [OF ok, of ?c 0 0]
    unfolding purge_dispatch_keys_def purge_with_exact [OF assms(5)] by auto
  have "find_reservation (dc_tenant_id ctx, key) (dispatch_keys d') = None"
    using ok assms(4,6) by (simp add: d'(1) dk_tab.look_filter schema_defs expired_key_def)
  moreover have "dispatch_ready ob w E ctx event (tx\<lparr>tx_db := d'\<rparr>) payload h"
    using rdy d'(2,4) by (simp add: dispatch_ready_def Let_def)
  ultimately have "\<exists>tx'. dispatch ob w E ctx event (tx\<lparr>tx_db := d'\<rparr>) = (Inr (Dispatched (dw_event_id w) (length ids)), tx')"
    using dispatch_ready_fresh [OF _ assms(2) _ assms(7,8)] assms(3,9) by (simp add: push_jobs_def)
  moreover have "dispatch ob w E ctx event tx = (Inr (Duplicate (dk_event_id r)), tx)"
    using assms(3,4) by (simp add: dispatch_ready_head [OF assms(1)])
  ultimately show ?thesis using run d'(2,3) by blast
qed

theorem key_purge_reopens_witness:
  "\<exists>tx d' tx'. dispatch sample_outbox (sample_world 8) order_event sample_dctx 1 tx = (Inr (Duplicate 7), tx) \<and>
    dispatch sample_outbox (sample_world 8) order_event sample_dctx 1 (tx\<lparr>tx_db := d'\<rparr>) = (Inr (Dispatched 8 2), tx') \<and>
    ev_id ` set (events d') = {7}"
proof -
  obtain tx where d: "dispatch sample_outbox (sample_world 7) order_event sample_dctx 1 empty_tx =
    (Inr (Dispatched 7 2), tx)" by (rule sample_dispatched)
  let ?r = "\<lparr>dk_tenant_id = ''acme'', dk_idempotency_key = ''k1'', dk_event_id = 7, dk_created_at = 100\<rparr>"
  have dc: "dc_tenant_id sample_dctx = ''acme''" "dc_idempotency_key sample_dctx = Some ''k1''"
    by (simp_all add: sample_dctx_def with_idempotency_key_def DispatchContext_new_def)
  from d have tb: "dispatch_keys (tx_db tx) = [?r]" "map ev_id (events (tx_db tx)) = [7]" "\<not> tx_failed tx"
    by (cases rule: dispatch_Inr; simp add: inserted_rows_def reservation_rows_def dc empty_tx_def empty_db_def
        sample_world_def find_reservation_def)+
  have ev: "ev_id ` set (events (tx_db tx)) = {7}" using tb(2) by (metis list.set_map list.set(1,2))
  have "db_ok (dw_jsonb_text (sample_world 7)) (tx_db empty_tx)"
    using sample_ready [of 7] by (simp add: dispatch_ready_def Let_def)
  from dispatch_db_ok(1) [OF this d] have ok: "db_ok (dw_jsonb_text (sample_world 8)) (tx_db tx)"
    by (simp add: sample_world_def)
  have rdy: "dispatch_ready sample_outbox (sample_world 8) order_event sample_dctx 1 tx [0] (JObject [])"
    using sample_ready [of 8] ok ev tb(3) by (simp add: dispatch_ready_def Let_def sample_world_def)
  have fr: "find_reservation (dc_tenant_id sample_dctx, ''k1'') (dispatch_keys (tx_db tx)) = Some ?r"
    by (simp add: tb(1) dc find_reservation_def reservation_key_def)
  have ch: "chrono_exact sample_chrono 200 50" by (simp add: chrono_exact_def sample_chrono_def)
  have ids: "[''audit'', ''bill''] = handler_ids_for (ob_registry sample_outbox) (EVENT_TYPE order_event)"
    by (simp add: sample_outbox_ids order_event_def sample_event_def)
  obtain q where q: "dw_push_batch (sample_world 8) (make_envelopes (ob_registry sample_outbox) (dw_event_id (sample_world 8))
      [''audit'', ''bill'']) (tx_queue tx) = Inr q" by (simp add: sample_world_def)
  have side: "length (dw_jsonb_text (sample_world 8) (JObject [])) \<le> 16384" "dk_created_at ?r < 200 - int 50"
    "[''audit'', ''bill''] \<noteq> []" by (simp_all add: sample_world_def)
  have w: "dw_event_id (sample_world 8) = 8" "dk_event_id ?r = 7" "length [''audit'', ''bill''] = 2"
    by (simp_all add: sample_world_def)
  from key_purge_reopens [OF rdy side(1) dc(2) fr ch side(2) ids side(3) q] ev show ?thesis
    unfolding w by metis
qed

end
