(* ===== verification/Outbox_Quick_Start.thy ===== *)
theory Outbox_Quick_Start
  imports Outbox_Delivery
begin

text \<open>
  The program of the crate's front page, \<^verbatim>\<open>src/src/lib.rs\<close>: an event type, a handler, and the function \<open>run\<close> that
  builds the outbox, starts the worker, dispatches one order in a transaction, commits and shuts down. It
  calls every component in the order an application does. What \<open>pg_work_queue\<close>'s worker does between the commit
  and the end of the drain is a parameter: the calls of \<open>handle_envelope\<close> it makes, given the jobs it finds.
\<close>

section \<open>The program\<close>

record OrderCreated =
  order_id :: "64 word"
  amount :: "64 word"

text \<open>\<open>impl DomainEvent for OrderCreated\<close>; the derived \<open>serde\<close> codec is a parameter.\<close>

definition OrderCreated_event ::
  "(OrderCreated \<Rightarrow> (bytes, string) rresult) \<Rightarrow> (bytes \<Rightarrow> (OrderCreated, string) rresult) \<Rightarrow> OrderCreated DomainEvent"
where
  "OrderCreated_event enc dec =
    \<lparr>EVENT_TYPE = ''shop.order_created'', aggregate_key = (\<lambda>_. None), to_vec = enc, from_slice = dec\<rparr>"

text \<open>\<open>impl EventHandler<OrderCreated> for Auditor\<close>: the body is ready at the first poll.\<close>

definition Auditor_handle :: "OrderCreated \<Rightarrow> HandlerContext \<Rightarrow> (unit, HandlerError) rresult run" where
  "Auditor_handle event ctx = \<lparr>completes_after = Some 0, ending = Returned (Inr ())\<rparr>"

definition quick_start_builder :: "OrderCreated DomainEvent \<Rightarrow> u32 \<Rightarrow> 'b OutboxBuilder" where
  "quick_start_builder E pool =
    register_handler E ''audit'' Auditor_handle HandlerOptions_new (OutboxBuilder_new pool)"

definition quick_start_ctx :: DispatchContext where
  "quick_start_ctx = with_idempotency_key ''order:42'' (with_producer_bc ''shop'' (DispatchContext_new ''acme''))"

definition quick_start_event :: OrderCreated where
  "quick_start_event = \<lparr>order_id = 42, amount = 100\<rparr>"

text \<open>
  What the program meets outside the crate: the size of the pool, how the two migrators end, the defaults of
  \<open>pg_work_queue\<close>, the codec, the worlds of \<open>start\<close> and \<open>dispatch\<close>, how the transaction is opened and committed, the calls
  the worker makes, and the drain and the count query of \<open>shutdown\<close>.
\<close>

type_synonym worker_call = "HandlerEnvelope \<times> worker_io \<times> JobContext"

record ('b, 'be, 'se, 'k, 'h, 'p, 'q, 's, 'd) quick_world =
  qw_pool :: u32
  qw_migrate :: "(unit, string) rresult"
  qw_backoff :: 'b
  qw_panic :: PanicPolicy
  qw_event :: "OrderCreated DomainEvent"
  qw_start :: "('b, 'be, 'se, 'k, 'h) start_world"
  qw_begin :: "(unit, sqlx_error) rresult"
  qw_dispatch :: "('p, 'q) dispatch_world"
  qw_commit :: fault
  qw_calls :: "'q \<Rightarrow> worker_call list"
  qw_timer :: timer
  qw_drain :: "duration \<Rightarrow> ('s, 'd) rresult \<times> duration"
  qw_count_fault :: fault
  qw_count_time :: "duration option"

text \<open>The errors that \<open>?\<close> boxes, and a panic of \<open>start\<close>.\<close>

datatype ('be, 'se, 'p, 'd) quick_error =
    QMigrate string
  | QBuild BuildError
  | QStart "('be, 'se) StartError"
  | QPanic panic_payload
  | QDispatch "'p DispatchError"
  | QSqlx sqlx_error
  | QShutdown "'d ShutdownError"

fun worker_calls :: "'b OutboxRuntime \<Rightarrow> timer \<Rightarrow> worker_call list \<Rightarrow> outbox_db \<Rightarrow> outbox_db" where
  "worker_calls rt elapsed [] d = d"
| "worker_calls rt elapsed ((env, io, ctx) # rest) d =
    worker_calls rt elapsed rest (fst (snd (handle_envelope rt elapsed io id env ctx d)))"

text \<open>
  \<open>run\<close>, on tables that the migrators leave as they are when they succeed. An error drops what is open: the transaction is
  rolled back, the worker stops. A commit whose answer is lost has happened.
\<close>

definition quick_start ::
  "('b, 'be, 'se, 'k, 'h, 'p, 'q, 's, 'd) quick_world \<Rightarrow> outbox_db \<times> 'q \<Rightarrow>
   ('s \<times> OutboxStats, ('be, 'se, 'p, 'd) quick_error) rresult \<times> outbox_db"
where
  "quick_start w before =
    (case qw_migrate w of
       Inl e \<Rightarrow> (Inl (QMigrate e), fst before)
     | Inr _ \<Rightarrow>
     case OutboxBuilder_build (qw_backoff w) (qw_panic w) (quick_start_builder (qw_event w) (qw_pool w)) of
       Inl e \<Rightarrow> (Inl (QBuild e), fst before)
     | Inr outbox \<Rightarrow>
     case start (qw_start w) outbox of
       (Panicked p, _) \<Rightarrow> (Inl (QPanic p), fst before)
     | (Returned (Inl e), _) \<Rightarrow> (Inl (QStart e), fst before)
     | (Returned (Inr handle), outbox') \<Rightarrow>
     case qw_begin w of
       Inl e \<Rightarrow> (Inl (QSqlx e), fst before)
     | Inr _ \<Rightarrow>
     case dispatch outbox' (qw_dispatch w) (qw_event w) quick_start_ctx quick_start_event
         \<lparr>tx_db = fst before, tx_queue = snd before, tx_failed = False\<rparr> of
       (Inl e, tx) \<Rightarrow> (Inl (QDispatch e), fst before)
     | (Inr _, tx) \<Rightarrow>
     case qw_commit w of
       FailBefore e \<Rightarrow> (Inl (QSqlx e), fst before)
     | FailAfter e \<Rightarrow> (Inl (QSqlx e), fst (tx_commit before tx))
     | NoFault \<Rightarrow>
         (let (d1, q1) = tx_commit before tx;
              d2 = worker_calls (outbox_runtime outbox') (qw_timer w) (qw_calls w q1) d1
          in case shutdown (qw_drain w) (qw_timer w) (qw_count_fault w) (qw_count_time w) (from_secs 10) d2 of
               Inl e \<Rightarrow> (Inl (QShutdown e), d2)
             | Inr stats \<Rightarrow> (Inr stats, d2)))"

section \<open>When it runs as intended\<close>

text \<open>
  The documented behaviour of the surroundings: a pool of at least 34 connections inside a \<open>tokio\<close> runtime; the
  worker starts; the codec encodes the order within the payload limit and decodes it again; the server
  accepts the empty headers; the migrators succeed and no connection fails; the push succeeds; the drain ends and the count is in time.
\<close>

definition quick_ready :: "('b, 'be, 'se, 'k, 'h, 'p, 'q, 's, 'd) quick_world \<Rightarrow> 'q \<Rightarrow> bytes \<Rightarrow> 's \<Rightarrow> bool" where
  "quick_ready w q payload stats \<longleftrightarrow>
    (\<exists>enc dec. qw_event w = OrderCreated_event enc dec \<and> enc quick_start_event = Inr payload \<and>
      dec payload = Inr quick_start_event) \<and> length payload \<le> MAX_PAYLOAD_BYTES \<and>
    qw_migrate w = Inr () \<and> qw_begin w = Inr () \<and> qw_commit w = NoFault \<and> 34 \<le> qw_pool w \<and> (\<exists>fl. sw_runtime_flavor (qw_start w) = Inr fl) \<and> sw_probe (qw_start w) = Inr () \<and>
    (\<forall>c. \<exists>k h. sw_worker_build (qw_start w) c = Inr k \<and> sw_worker_start (qw_start w) k = Inr h) \<and>
    dw_to_string (qw_dispatch w) [] = Inr ''{}'' \<and> dw_jsonb_in (qw_dispatch w) ''{}'' = Inr (JObject []) \<and>
    dw_jsonb_text (qw_dispatch w) (JObject []) = ''{}'' \<and>
    dw_reserve_fault (qw_dispatch w) = NoFault \<and> dw_insert_fault (qw_dispatch w) = NoFault \<and>
    (\<exists>q'. dw_push_batch (qw_dispatch w)
      [(\<lparr>env_event_id = dw_event_id (qw_dispatch w), env_handler_id = ''audit''\<rparr>, None)] q = Inr q') \<and>
    timer_ok (qw_timer w) \<and> (\<exists>spent. qw_drain w (from_secs 10) = (Inr stats, spent)) \<and>
    qw_count_fault w = NoFault \<and> (\<exists>t. qw_count_time w = Some t \<and> t < from_millis 500)"

lemma quick_built:
  fixes bd :: 'b
  obtains ob where "OutboxBuilder_build bd pd (quick_start_builder (OrderCreated_event enc dec) pool) = Inr ob"
    "ob_max_connections ob = pool" "ob_config ob = OutboxConfig_default bd pd" "\<not> ob_started ob"
    "registry_wf (ob_registry ob)" "handler_ids_for (ob_registry ob) ''shop.order_created'' = [''audit'']"
    "lookup (ob_registry ob) ''audit'' = Some \<lparr>rh_handler = handle_erased (OrderCreated_event enc dec) Auditor_handle,
      rh_handler_timeout = None, rh_concurrency_limit = None\<rparr>"
proof -
  let ?b = "quick_start_builder (OrderCreated_event enc dec) pool :: 'b OutboxBuilder"
  let ?ob = "Outbox_new pool (OutboxConfig_default bd pd) (fold add_entry (bld_pending ?b) Registry_new) False"
  have b: "OutboxBuilder_build bd pd ?b = Inr ?ob"
    by (simp add: OutboxBuilder_build_ok_iff Let_def quick_start_builder_def register_handler_def
        OutboxBuilder_new_def HandlerOptions_new_def entry_valid_def limit_defs)
  show ?thesis
  proof (rule that [OF b])
    show "registry_wf (ob_registry ?ob)" by (rule registry_wf_built [OF b])
    show "handler_ids_for (ob_registry ?ob) ''shop.order_created'' = [''audit'']"
      using outbox_build_ok_routes [OF b]
      by (simp add: quick_start_builder_def register_handler_def OutboxBuilder_new_def OrderCreated_event_def)
    show "lookup (ob_registry ?ob) ''audit'' = Some \<lparr>rh_handler = handle_erased (OrderCreated_event enc dec) Auditor_handle,
        rh_handler_timeout = None, rh_concurrency_limit = None\<rparr>"
      using outbox_build_ok_routes [OF b]
      by (simp add: quick_start_builder_def register_handler_def OutboxBuilder_new_def HandlerOptions_new_def
          registered_def)
  qed (simp_all add: Outbox_new_def)
qed

lemma quick_started:
  fixes w :: "('b, 'be, 'se, 'k, 'h) start_world"
  assumes "\<not> ob_started ob" and "ob_config ob = OutboxConfig_default bd pd" and "34 \<le> ob_max_connections ob"
    and "sw_runtime_flavor w = Inr fl" and "sw_probe w = Inr ()"
    and "\<And>c. \<exists>k h. sw_worker_build w c = Inr k \<and> sw_worker_start w k = Inr h"
  obtains h where "start w ob = (Returned (Inr h), ob\<lparr>ob_started := True\<rparr>)"
proof -
  obtain k h where k: "sw_worker_build w (start_worker_config ob) = Inr k" "sw_worker_start w k = Inr h"
    using assms(6) by blast
  have "34 \<le> unat (ob_max_connections ob)"
    using assms(3) by (simp add: word_le_nat_alt)
  then have "(pool_check ob :: (unit, ('be, 'se) StartError) rresult) = Inr ()"
    by (simp add: pool_check_cases assms(2) OutboxConfig_default_def)
  then have g: "start_guarded ob w = Inr h" by (simp add: start_guarded_def assms(5) k)
  have "flavor_check ob w = Inr (fl = CurrentThread)"
    by (simp add: flavor_check_def assms(2,4) OutboxConfig_default_def)
  with g assms(1) show ?thesis
    by (intro that [of h]) (simp add: start_def start_flag_irrelevant guard_drop_def)
qed

lemma quick_dispatched:
  fixes w :: "('p, 'q) dispatch_world"
  assumes E: "E = OrderCreated_event enc dec" and pl: "enc quick_start_event = Inr payload"
      "length payload \<le> MAX_PAYLOAD_BYTES"
    and ob: "registry_wf (ob_registry ob)" "handler_ids_for (ob_registry ob) ''shop.order_created'' = [''audit'']"
      "lookup (ob_registry ob) ''audit'' = Some rh" "rh_concurrency_limit rh = None"
    and js: "dw_to_string w [] = Inr ''{}''" "dw_jsonb_in w ''{}'' = Inr (JObject [])"
      "dw_jsonb_text w (JObject []) = ''{}''"
    and nf: "dw_reserve_fault w = NoFault" "dw_insert_fault w = NoFault"
    and push: "dw_push_batch w [(\<lparr>env_event_id = dw_event_id w, env_handler_id = ''audit''\<rparr>, None)] q = Inr q'"
  shows "\<exists>tx'. dispatch ob w E quick_start_ctx quick_start_event \<lparr>tx_db = empty_db, tx_queue = q, tx_failed = False\<rparr> =
      (Inr (Dispatched (dw_event_id w) 1), tx') \<and> tx_queue tx' = q' \<and>
    deliveries (tx_db tx') = [new_delivery (dw_now w) (dw_event_id w) 1 ''audit'']"
proof -
  let ?tx = "\<lparr>tx_db = empty_db, tx_queue = q, tx_failed = False\<rparr>"
  note c = quick_start_ctx_def with_idempotency_key_def with_producer_bc_def DispatchContext_new_def
  have ev: "EVENT_TYPE E = ''shop.order_created''" "aggregate_key E quick_start_event = None"
    "to_vec E quick_start_event = Inr payload"
    by (simp_all add: E OrderCreated_event_def pl(1))
  have rdy: "dispatch_ready ob w E quick_start_ctx quick_start_event ?tx payload (JObject [])"
    using ob pl(2) js nf
    by (simp add: dispatch_ready_def Let_def ev validate_dispatch_def c limit_defs dispatch_texts_def text_ok_def
        empty_db_def schema_defs)
  have "dispatch ob w E quick_start_ctx quick_start_event ?tx = push_jobs w (ob_registry ob) [''audit'']
      (?tx\<lparr>tx_db := inserted_rows w (mk_event_row E quick_start_ctx quick_start_event (dw_event_id w) (dw_now w) payload
        (JObject [])) [''audit''] (reservation_rows w quick_start_ctx) empty_db\<rparr>)"
    using dispatch_ready_fresh [OF rdy, of "[''audit'']"] js ob(2)
    by (simp add: ev empty_db_def find_reservation_def)
  then show ?thesis
    using push ob(3,4)
    by (simp add: push_jobs_def make_envelopes_def inserted_rows_def empty_db_def new_deliveries_def)
qed

text \<open>Calls for a delivery that is finished change nothing.\<close>

lemma worker_calls_terminal:
  assumes "db_ok jt d" and "text_ok (env_handler_id env)"
    and "find_delivery (env_event_id env, env_handler_id env) (deliveries d) = Some r"
    and "terminal_status (hd_status r)" and "\<forall>c \<in> set calls. fst c = env"
  shows "worker_calls rt elapsed calls d = d"
  using assms(5)
proof (induction calls)
  case (Cons c calls)
  then obtain io ctx where "c = (env, io, ctx)" by (cases c) auto
  with Cons show ?case by (simp add: handle_envelope_terminal_db [OF assms(1-4)])
qed simp

lemma shutdown_pending:
  assumes "timer_ok elapsed" and "drain (from_secs 10) = (Inr stats, spent)" and "t < from_millis 500"
  shows "shutdown drain elapsed NoFault (Some t) (from_secs 10) d =
    Inr (stats, \<lparr>pending_deliveries = rows_matching (\<lambda>r. active_status (hd_status r)) (deliveries d)\<rparr>)"
proof -
  have "\<not> elapsed (remaining_budget (from_secs 10) spent) (Some t)"
    using assms(1,3) by (simp add: timer_ok_def remaining_budget_def)
  then show ?thesis by (simp add: shutdown_def assms(2) run_stmt_def count_active_def)
qed

lemma worker_sends:
  assumes ok: "db_ok jt d" and del: "deliveries d = [new_delivery now e n ''audit'']"
    and ev: "find_event e (events d) = Some ev" and res: "delivery_result rt elapsed env ctx ev (dispatch_keys d) = Inr ()"
    and env: "env = \<lparr>env_event_id = e, env_handler_id = ''audit''\<rparr>"
    and io: "now \<le> io_claim_now io" "io_claim_now io \<le> io_mark_now io"
      "io_claim_fault io = NoFault" "io_mark_fault io = NoFault"
    and rest: "\<forall>c \<in> set rest. fst c = env"
  obtains d' r where "worker_calls rt elapsed ((env, io, ctx) # rest) d = d'"
    "find_delivery (e, ''audit'') (deliveries d') = Some r" "hd_status r = Sent"
    "rows_matching (\<lambda>r. active_status (hd_status r)) (deliveries d') = 0"
proof -
  let ?r = "new_delivery now e n ''audit''"
  have fnd: "find_delivery (env_event_id env, env_handler_id env) (deliveries d) = Some ?r"
    by (simp add: del env find_delivery_def new_delivery_def delivery_key_def)
  have pre: "text_ok (env_handler_id env)" "\<not> terminal_status (hd_status ?r)" "clock_reached (io_claim_now io) ?r"
    "find_event (env_event_id env) (events d) = Some ev"
    using io(1) by (simp_all add: env text_ok_def new_delivery_def clock_reached_def coalesce_def ev)
  let ?r' = "set_updated_at (io_mark_now io) (settle_set (attempts_exhausted ctx) (Inr ()) (io_mark_now io)
    (set_updated_at (io_claim_now io) (claim_set (io_claim_now io) (attempt_param (jc_attempt ctx)) (jc_lease_token ctx) ?r)))"
  have sent: "hd_status ?r' = Sent" by (simp add: sent_set_def set_updated_at_def)
  obtain d' tr where h: "handle_envelope rt elapsed io id env ctx d = (job_verdict (Inr ()), d', tr)"
    "find_delivery (env_event_id env, env_handler_id env) (deliveries d') = Some ?r'" "db_ok jt d'"
    "\<And>k. k \<noteq> (env_event_id env, env_handler_id env) \<Longrightarrow>
      find_delivery k (deliveries d') = find_delivery k (deliveries d)"
    by (rule handle_envelope_done [OF ok pre(1) fnd pre(2,4,3) io(2-4) res [symmetric]]) blast
  have "r = ?r'" if "r \<in> set (deliveries d')" for r
  proof (cases "delivery_key r = (e, ''audit'')")
    case True
    then show ?thesis using find_in_deliveries [OF h(3) that] h(2) by (simp add: env)
  next
    case False
    then have "find_delivery (delivery_key r) (deliveries d) = Some r"
      using find_in_deliveries [OF h(3) that] h(4) by (simp add: env)
    then have "r \<in> set (deliveries d)" using hd_tab.look_SomeD by blast
    with False show ?thesis by (simp add: del new_delivery_def delivery_key_def)
  qed
  then have "rows_matching (\<lambda>r. active_status (hd_status r)) (deliveries d') = 0"
    using sent by (fastforce simp: rows_matching_eq_0_iff active_status_def)
  moreover have "worker_calls rt elapsed rest d' = d'"
    by (rule worker_calls_terminal [OF h(3) pre(1) h(2) _ rest]) (simp only: sent, simp add: terminal_status_def)
  ultimately show ?thesis using h(1,2) sent by (intro that [of d' ?r']) (simp_all add: env del: settle_set.simps)
qed

text \<open>
  (C14) The front page works. On freshly migrated tables and in surroundings that behave as documented, the program
  runs to its end. If the worker was called for the job before the drain ended, any number of times, as long as
  the first call meets no fault, the order's delivery is sent and shutdown reports that nothing is pending; if the
  worker was not called, the delivery is queued and shutdown reports one.
\<close>

theorem quick_start_delivers:
  fixes w :: "('b, 'be, 'se, 'k, 'h, 'p, 'q, 's, 'd) quick_world"
  assumes "quick_ready w q payload stats"
    and "env = \<lparr>env_event_id = dw_event_id (qw_dispatch w), env_handler_id = ''audit''\<rparr>"
    and "\<And>q'. qw_calls w q' = calls" and "\<forall>c \<in> set calls. fst c = env"
    and "\<And>io ctx rest. calls = (env, io, ctx) # rest \<Longrightarrow> dw_now (qw_dispatch w) \<le> io_claim_now io \<and>
      io_claim_now io \<le> io_mark_now io \<and> io_claim_fault io = NoFault \<and> io_mark_fault io = NoFault"
  shows "\<exists>d r. quick_start w (empty_db, q) = (Inr (stats, \<lparr>pending_deliveries = if calls = [] then 1 else 0\<rparr>), d) \<and>
    find_delivery (dw_event_id (qw_dispatch w), ''audit'') (deliveries d) = Some r \<and>
    hd_status r = (if calls = [] then Queued else Sent)"
proof -
  note rdy = assms(1) [unfolded quick_ready_def]
  let ?w = "qw_dispatch w" and ?e = "dw_event_id (qw_dispatch w)"
  obtain enc dec where E: "qw_event w = OrderCreated_event enc dec" and enc: "enc quick_start_event = Inr payload"
    and dec: "dec payload = Inr quick_start_event" using rdy by blast
  obtain q' where push: "dw_push_batch ?w [(\<lparr>env_event_id = ?e, env_handler_id = ''audit''\<rparr>, None)] q = Inr q'"
    using rdy by blast
  obtain ob where ob: "OutboxBuilder_build (qw_backoff w) (qw_panic w) (quick_start_builder (qw_event w) (qw_pool w)) = Inr ob"
    "ob_max_connections ob = qw_pool w" "ob_config ob = OutboxConfig_default (qw_backoff w) (qw_panic w)"
    "\<not> ob_started ob" "registry_wf (ob_registry ob)"
    "handler_ids_for (ob_registry ob) ''shop.order_created'' = [''audit'']"
    "lookup (ob_registry ob) ''audit'' = Some \<lparr>rh_handler = handle_erased (qw_event w) Auditor_handle,
      rh_handler_timeout = None, rh_concurrency_limit = None\<rparr>"
    unfolding E by (rule quick_built)
  obtain h where st: "start (qw_start w) ob = (Returned (Inr h), ob\<lparr>ob_started := True\<rparr>)"
    using quick_started [OF ob(4,3)] rdy ob(2) by metis
  let ?ob = "ob\<lparr>ob_started := True\<rparr>"
  obtain tx where tx: "dispatch ?ob ?w (qw_event w) quick_start_ctx quick_start_event
      \<lparr>tx_db = empty_db, tx_queue = q, tx_failed = False\<rparr> = (Inr (Dispatched ?e 1), tx)"
    and del: "deliveries (tx_db tx) = [new_delivery (dw_now ?w) ?e 1 ''audit'']"
    using quick_dispatched [OF E enc, of ?ob _ ?w q q'] rdy ob(5-7) push by auto
  have ok0: "db_ok (dw_jsonb_text ?w) empty_db" by (simp add: empty_db_def schema_defs)
  then have ok: "db_ok (dw_jsonb_text ?w) (tx_db tx)" "\<not> tx_failed tx"
    using dispatch_db_ok [OF _ tx] by simp_all
  obtain ev where ev: "find_event ?e (events (tx_db tx)) = Some ev" "ev_payload ev = payload"
    by (rule dispatched_rows [OF _ tx, where h = "''audit''" and headers = "[]" and payload = payload])
      (use ok0 rdy ob(6) E enc in \<open>simp_all add: OrderCreated_event_def stored_headers_def quick_start_ctx_def
        with_idempotency_key_def with_producer_bc_def DispatchContext_new_def\<close>)
  have res: "delivery_result (outbox_runtime ?ob) (qw_timer w) env ctx ev keys = Inr ()" for ctx keys
    by (rule delivery_result_of_handler [where E = "qw_event w" and handle = Auditor_handle and t = 0 and
          event = quick_start_event])
      (use rdy ob(3,7) assms(2) ev(2) dec in \<open>auto simp: outbox_runtime_def Auditor_handle_def E OrderCreated_event_def
        our_timeout_def effective_timeout_def from_millis_def\<close>)
  let ?d = "worker_calls (outbox_runtime ?ob) (qw_timer w) calls (tx_db tx)"
  obtain spent t where sh: "qw_drain w (from_secs 10) = (Inr stats, spent)" "qw_count_time w = Some t" "t < from_millis 500"
    using rdy by blast
  have "deferred_ok (tx_db tx)" using ok(1) by (simp add: db_ok_def)
  then have run: "quick_start w (empty_db, q) = (Inr (stats,
      \<lparr>pending_deliveries = rows_matching (\<lambda>r. active_status (hd_status r)) (deliveries ?d)\<rparr>), ?d)"
    using shutdown_pending [where elapsed = "qw_timer w" and drain = "qw_drain w", OF _ sh(1,3)] rdy
    by (simp add: quick_start_def ob(1) st tx tx_commit_def ok(2) assms(3) sh(2) Let_def)
  show ?thesis
  proof (cases calls)
    case Nil
    with run del show ?thesis
      by (simp add: rows_matching_def find_delivery_def new_delivery_def delivery_key_def active_status_def)
  next
    case (Cons c rest)
    then obtain io ctx where c: "calls = (env, io, ctx) # rest" using assms(4) by (cases c) auto
    note io = assms(5) [OF c]
    have "\<exists>r. find_delivery (?e, ''audit'') (deliveries ?d) = Some r \<and> hd_status r = Sent \<and>
        rows_matching (\<lambda>r. active_status (hd_status r)) (deliveries ?d) = 0"
      unfolding c by (rule worker_sends [OF ok(1) del ev(1) res assms(2), where io = io and ctx = ctx and rest = rest]) (use io assms(4) c in auto)
    with run c show ?thesis by auto
  qed
qed

text \<open>The surroundings of a run in which the worker is called twice for the one job.\<close>

definition sample_quick_world ::
  "(unit, string, string, unit, nat, string, sample_queue, string, string) quick_world" where
  "sample_quick_world = \<lparr>qw_pool = 34, qw_migrate = Inr (), qw_backoff = (), qw_panic = PanicPolicy_Retry,
    qw_event = OrderCreated_event (\<lambda>_. Inr [42, 100]) (\<lambda>_. Inr quick_start_event),
    qw_start = sample_start_world, qw_begin = Inr (), qw_dispatch = sample_world 7, qw_commit = NoFault,
    qw_calls = (\<lambda>_. [(\<lparr>env_event_id = 7, env_handler_id = ''audit''\<rparr>, sample_io, sample_ctx),
      (\<lparr>env_event_id = 7, env_handler_id = ''audit''\<rparr>, sample_io\<lparr>io_mark_fault := FailBefore PoolClosed\<rparr>, sample_ctx)]),
    qw_timer = sample_timer, qw_drain = (\<lambda>_. (Inr ''drained'', 0)), qw_count_fault = NoFault,
    qw_count_time = Some 5\<rparr>"

theorem quick_start_delivers_witness:
  "\<exists>d r. quick_start sample_quick_world (empty_db, []) = (Inr (''drained'', \<lparr>pending_deliveries = 0\<rparr>), d) \<and>
    find_delivery (7, ''audit'') (deliveries d) = Some r \<and> hd_status r = Sent"
proof -
  let ?env = "\<lparr>env_event_id = 7, env_handler_id = ''audit''\<rparr>"
  have ready: "quick_ready sample_quick_world [] [42, 100] ''drained''"
    unfolding quick_ready_def sample_quick_world_def
    by (auto simp: sample_start_world_def sample_world_def MAX_PAYLOAD_BYTES_def timer_ok_def sample_timer_def
        from_millis_def intro!: exI [of _ "\<lambda>_. Inr [42, 100]"] exI [of _ "\<lambda>_. Inr quick_start_event"])
  have "dw_event_id (qw_dispatch sample_quick_world) = 7"
    by (simp add: sample_quick_world_def sample_world_def)
  with quick_start_delivers [OF ready, of ?env "qw_calls sample_quick_world []"] show ?thesis
    by (simp add: sample_quick_world_def sample_io_def sample_world_def)
qed

text \<open>A run that fails before its shutdown has written nothing, unless only the answer of its commit was lost.\<close>

lemma quick_start_all_or_nothing:
  assumes "quick_start w before = (Inl e, d)" and "\<And>x. e \<noteq> QShutdown x"
  shows "d = fst before \<or> (\<exists>x. qw_commit w = FailAfter x \<and> e = QSqlx x)"
  using assms
  by (auto simp: quick_start_def Let_def split: sum.splits prod.splits ending.splits fault.splits)

end
