(* ===== verification/Outbox_Provenance.thy ===== *)
theory Outbox_Provenance
  imports Outbox_System "HOL-Library.Multiset"
begin

text \<open>
  Where the rows come from: two invariants of every run of the system. A reservation belongs to an event of its
  own tenant, so that idempotency never answers across tenants; and each delivery has exactly one job
  in the queue of \<open>pg_work_queue\<close>, whose \<open>push_batch\<close> is a parameter with its documented contract.
\<close>

section \<open>Rows that only a dispatch writes\<close>

text \<open>What a step other than a dispatch may do to the events, the reservations and the queue: delete, or nothing.\<close>

definition only_deletes :: "outbox_db \<Rightarrow> outbox_db \<Rightarrow> bool" where
  "only_deletes d d' \<longleftrightarrow> set (events d') \<subseteq> set (events d) \<and> set (dispatch_keys d') \<subseteq> set (dispatch_keys d) \<and>
    delivery_key ` set (deliveries d') \<subseteq> delivery_key ` set (deliveries d)"

lemma only_deletes_refl [simp]: "only_deletes d d"
  by (simp add: only_deletes_def)

lemma claim_only_deletes:
  assumes "run_stmt f (claim_stmt now e h a t) d = (res, d')"
  shows "only_deletes d d' \<and> events d' = events d \<and> dispatch_keys d' = dispatch_keys d"
proof -
  have "delivery_key ` set (deliveries d') \<subseteq> delivery_key ` set (deliveries d)"
  proof
    fix k assume "k \<in> delivery_key ` set (deliveries d')"
    then obtain r' where r': "r' \<in> set (deliveries d')" "k = delivery_key r'" by blast
    from assms r'(1) show "k \<in> delivery_key ` set (deliveries d)"
      by (cases rule: claim_rows) (force simp: r'(2) claim_set_def set_updated_at_def delivery_key_def)+
  qed
  moreover from run_stmt_db [OF assms] have "events d' = events d \<and> dispatch_keys d' = dispatch_keys d"
    by (auto elim!: claim_stmt_db dest: update_deliveries_frame)
  ultimately show ?thesis by (simp add: only_deletes_def)
qed

lemma mark_only_deletes:
  assumes "settle_mark x v f now e h t d = (res, d', tr)"
  shows "only_deletes d d' \<and> events d' = events d \<and> dispatch_keys d' = dispatch_keys d"
proof -
  have "delivery_key ` set (deliveries d') \<subseteq> delivery_key ` set (deliveries d)"
  proof
    fix k assume "k \<in> delivery_key ` set (deliveries d')"
    then obtain r' where r': "r' \<in> set (deliveries d')" "k = delivery_key r'" by blast
    from assms r'(1) show "k \<in> delivery_key ` set (deliveries d)"
      by (cases rule: mark_rows) (force simp: r'(2) settle_set_keeps)+
  qed
  moreover from settled.mark_db [OF assms] have "events d' = events d \<and> dispatch_keys d' = dispatch_keys d"
    by (auto dest: update_deliveries_frame)
  ultimately show ?thesis by (simp add: only_deletes_def)
qed

lemma purge_chunk_only_deletes:
  assumes "chunk \<in> purge_chunks" and "run_stmt f chunk d = (res, d')"
  shows "only_deletes d d'"
  using run_stmt_db [OF assms(2)] assms(1)
  by (auto simp: purge_chunks_def only_deletes_def purge_deliveries_chunk_def purge_keys_chunk_def
      purge_events_chunk_def delete_events_def Let_def)

text \<open>A step is a dispatch, or it only deletes and leaves the queue alone.\<close>

lemma sys_step_cases:
  assumes "sys_step jt ob a s s'"
  obtains (dispatch) w E ctx event out tx' where "a = ADispatch w E ctx event"
      "dispatch ob w E ctx event \<lparr>tx_db = sy_db s, tx_queue = sy_queue s, tx_failed = False\<rparr> = (Inr out, tx')"
      "sy_db s' = tx_db tx'" "sy_queue s' = tx_queue tx'"
  | (other) "only_deletes (sy_db s) (sy_db s')" "sy_queue s' = sy_queue s"
  using assms
proof cases
  case dispatched
  then show ?thesis by (intro dispatch) simp_all
next
  case claimed
  then show ?thesis by (intro other) (simp_all add: claim_only_deletes)
next
  case marked
  then show ?thesis by (intro other) (simp_all add: mark_only_deletes)
next
  case purged
  then show ?thesis by (intro other) (simp_all add: purge_chunk_only_deletes)
next
  case ticked
  then show ?thesis by (intro other) simp_all
qed

section \<open>Tenants\<close>

text \<open>The event of a reservation, where it is still stored, has the tenant of the reservation.\<close>

definition tenants_agree :: "outbox_db \<Rightarrow> bool" where
  "tenants_agree d \<longleftrightarrow> (\<forall>k \<in> set (dispatch_keys d). \<forall>e \<in> set (events d).
    ev_id e = dk_event_id k \<longrightarrow> ev_tenant_id e = dk_tenant_id k)"

lemma tenants_agree_deletes: "tenants_agree d \<Longrightarrow> only_deletes d d' \<Longrightarrow> tenants_agree d'"
  by (auto simp: tenants_agree_def only_deletes_def)

lemma tenants_agree_dispatch:
  assumes ok: "db_ok (dw_jsonb_text w) (tx_db tx)" and ag: "tenants_agree (tx_db tx)"
    and d: "dispatch ob w E ctx event tx = (Inr out, tx')"
  shows "tenants_agree (tx_db tx')"
  using d
proof (cases rule: dispatch_Inr)
  case duplicate
  with ag show ?thesis by simp
next
  case (inserted h payload)
  have ok': "db_ok (dw_jsonb_text w) (tx_db tx')" by (rule dispatch_db_ok(1) [OF ok d])
  then have "dw_event_id w \<notin> ev_id ` set (events (tx_db tx))"
    by (simp add: inserted(7) inserted_rows_def schema_defs)
  moreover from this have "dw_event_id w \<notin> dk_event_id ` set (dispatch_keys (tx_db tx))"
    using ok by (auto simp: schema_defs)
  ultimately show ?thesis
    using ag unfolding inserted(7) tenants_agree_def inserted_rows_def reservation_rows_def
    by (auto simp: mk_event_row_def image_iff split: option.splits)
qed

lemma tenants_agree_step:
  assumes "sys_inv jt s \<and> tenants_agree (sy_db s)" and "sys_step jt ob a s s'"
  shows "sys_inv jt s' \<and> tenants_agree (sy_db s')"
proof
  show "sys_inv jt s'" using assms sys_inv_step by blast
  from assms(2) show "tenants_agree (sy_db s')"
  proof (cases rule: sys_step_cases)
    case (dispatch w E ctx event out tx')
    with assms(2) have "dw_jsonb_text w = jt" by (auto elim: sys_stepE)
    with tenants_agree_dispatch [OF _ _ dispatch(2)] assms(1) dispatch(3) show ?thesis
      by (simp add: sys_inv_def)
  next
    case other
    with assms(1) show ?thesis by (blast intro: tenants_agree_deletes)
  qed
qed

interpretation tenants: invariant_system sys_init "\<lambda>s s'. \<exists>a :: ('p, 'q, 'e) action. sys_step jt ob a s s'"
  "\<lambda>s. \<exists>as :: ('p, 'q, 'e) action list. sys_reach jt ob as s" "\<lambda>s. sys_inv jt s \<and> tenants_agree (sy_db s)" for jt ob
proof
  show "P s" if "\<exists>as :: ('p, 'q, 'e) action list. sys_reach jt ob as s" "\<And>s. sys_init s \<Longrightarrow> P s"
    "\<And>s s'. \<exists>as :: ('p, 'q, 'e) action list. sys_reach jt ob as s \<Longrightarrow> P s \<Longrightarrow>
      \<exists>a :: ('p, 'q, 'e) action. sys_step jt ob a s s' \<Longrightarrow> P s'" for P s
    using that by (rule sys.reach_induct)
  show "sys_inv jt s \<and> tenants_agree (sy_db s)" if "sys_init s" for s :: "'q system"
    using that sys.invar_init [OF that] by (simp add: sys_init_def empty_db_def tenants_agree_def)
qed (elim exE, rule tenants_agree_step)

text \<open>
  (C10) Tenants are isolated. In every reachable state an answer \<open>Duplicate\<close> names a stored event of the caller's own
  tenant, and changes nothing; and the idempotency key that a worker reads along with an event, to hand it to
  the handler, is the key that the event's own tenant reserved for this event.
\<close>

theorem tenant_isolation:
  fixes s :: "'q system"
  assumes "sys_reach jt ob (as :: ('p, 'q, 'e) action list) s"
    and "tx = \<lparr>tx_db = sy_db s, tx_queue = sy_queue s, tx_failed = False\<rparr>"
  shows "(dispatch ob' w E ctx event tx = (Inr (Duplicate e), tx') \<longrightarrow>
      tx' = tx \<and> (\<exists>ev. find_event e (events (sy_db s)) = Some ev \<and> ev_tenant_id ev = dc_tenant_id ctx)) \<and>
    (claim_stmt now e h a t (sy_db s) = Inr (Some row, d') \<and> cr_dispatch_idempotency_key row = Some key \<longrightarrow>
      (\<exists>r. find_reservation (cr_tenant_id row, key) (dispatch_keys (sy_db s)) = Some r \<and> dk_event_id r = e))"
proof -
  have "sys_inv jt s \<and> tenants_agree (sy_db s)" using tenants.reach_invar assms(1) by blast
  then have ok: "db_ok jt (sy_db s)" and ag: "tenants_agree (sy_db s)" by (simp_all add: sys_inv_def)
  have "tx' = tx \<and> (\<exists>ev. find_event e (events (sy_db s)) = Some ev \<and> ev_tenant_id ev = dc_tenant_id ctx)"
    if "dispatch ob' w E ctx event tx = (Inr (Duplicate e), tx')"
    using that
  proof (cases rule: dispatch_Inr)
    case (duplicate key r)
    then have r: "r \<in> set (dispatch_keys (sy_db s))" "dk_tenant_id r = dc_tenant_id ctx" "e = dk_event_id r"
      using dk_tab.look_SomeD assms(2) by (fastforce simp: reservation_key_def)+
    then have "e \<in> ev_id ` set (events (sy_db s))" using ok by (auto simp: schema_defs)
    then obtain ev where "ev \<in> set (events (sy_db s))" "ev_id ev = e" by blast
    moreover from this have "find_event e (events (sy_db s)) = Some ev"
      using ev_tab.look_in ok by (metis db_ok_def immediate_ok_def)
    moreover have "ev_tenant_id ev = dc_tenant_id ctx"
      using calculation(1,2) r ag by (auto simp: tenants_agree_def)
    ultimately show ?thesis using duplicate(4) by blast
  next
    case inserted
    then show ?thesis by (auto simp: job_outcome_def split: if_splits)
  qed
  moreover have "\<exists>r. find_reservation (cr_tenant_id row, key) (dispatch_keys (sy_db s)) = Some r \<and> dk_event_id r = e"
    if "claim_stmt now e h a t (sy_db s) = Inr (Some row, d') \<and> cr_dispatch_idempotency_key row = Some key"
  proof -
    from that obtain ev r where ev: "find_event e (events (sy_db s)) = Some ev" "cr_tenant_id row = ev_tenant_id ev"
      and r: "find (\<lambda>k. dk_event_id k = ev_id ev) (dispatch_keys (sy_db s)) = Some r" "key = dk_idempotency_key r"
      by (auto simp: claim_stmt_def split: if_splits sum.splits option.splits)
    have e: "ev \<in> set (events (sy_db s))" "ev_id ev = e" using ev_tab.look_SomeD [OF ev(1)] by simp_all
    have m: "r \<in> set (dispatch_keys (sy_db s))" "dk_event_id r = e"
      using r(1) e(2) by (auto simp: find_Some_iff)
    then have "reservation_key r = (cr_tenant_id row, key)"
      using ag e ev(2) r(2) by (auto simp: tenants_agree_def reservation_key_def)
    with m dk_tab.look_in ok show ?thesis by (metis db_ok_def immediate_ok_def)
  qed
  ultimately show ?thesis by blast
qed

text \<open>After one dispatch with the key \<open>k1\<close>, a second one is answered \<open>Duplicate\<close>.\<close>

lemma sample_repeated:
  obtains s :: "sample_queue system" and as :: "(string, sample_queue, nat) action list" and ev
  where "sys_reach (\<lambda>_. ''{}'') sample_outbox as s" "sy_now s = 100"
    "dispatch sample_outbox (sample_world 8) order_event sample_dctx 1
      \<lparr>tx_db = sy_db s, tx_queue = sy_queue s, tx_failed = False\<rparr> =
      (Inr (Duplicate 7), \<lparr>tx_db = sy_db s, tx_queue = sy_queue s, tx_failed = False\<rparr>)"
    "find_reservation (''acme'', ''k1'') (dispatch_keys (sy_db s)) = Some \<lparr>dk_tenant_id = ''acme'',
      dk_idempotency_key = ''k1'', dk_event_id = 7, dk_created_at = 100\<rparr>"
    "find_event 7 (events (sy_db s)) = Some ev"
proof -
  obtain tx' where d: "dispatch sample_outbox (sample_world 7) order_event sample_dctx 1 empty_tx =
    (Inr (Dispatched 7 2), tx')" by (rule sample_dispatched)
  let ?s = "sample_start\<lparr>sy_db := tx_db tx', sy_queue := tx_queue tx'\<rparr>"
  let ?tx = "\<lparr>tx_db = sy_db ?s, tx_queue = sy_queue ?s, tx_failed = False\<rparr>"
  have reach: "sys_reach (\<lambda>_. ''{}'') sample_outbox
      ([] @ [ADispatch (sample_world 7) order_event sample_dctx 1]) ?s"
    by (rule reach_step [OF reach_init dispatched [where out = "Dispatched 7 2"]])
      (use d in \<open>simp_all add: sys_init_def sample_start_def empty_tx_def sample_world_def\<close>)
  from d have keys: "dispatch_keys (tx_db tx') = [\<lparr>dk_tenant_id = ''acme'', dk_idempotency_key = ''k1'',
      dk_event_id = 7, dk_created_at = 100\<rparr>]" and ids: "map ev_id (events (tx_db tx')) = [7]"
    by (cases rule: dispatch_Inr; simp add: inserted_rows_def reservation_rows_def empty_tx_def empty_db_def
        sample_dctx_def with_idempotency_key_def DispatchContext_new_def sample_world_def find_reservation_def)+
  then have d2: "dispatch sample_outbox (sample_world 8) order_event sample_dctx 1 ?tx = (Inr (Duplicate 7), ?tx)"
    by (simp add: dispatch_def validate_dispatch_def encode_payload_def order_event_def sample_event_def
        sample_dctx_def with_idempotency_key_def DispatchContext_new_def limit_defs sample_outbox_ids run_tx_def
        run_stmt_def sample_world_def reserve_stmt_def Let_def dispatch_keys_check_def text_ok_def
        find_reservation_def reservation_key_def)
  from ids obtain ev where "events (tx_db tx') = [ev]" "ev_id ev = 7" by auto
  then have ev: "find_event 7 (events (sy_db ?s)) = Some ev" by (simp add: find_event_def)
  show ?thesis
    by (rule that [OF reach _ d2 _ ev]) (simp_all add: sample_start_def keys find_reservation_def reservation_key_def)
qed

theorem tenant_isolation_witness:
  "\<exists>(s :: sample_queue system) tx' ev.
    dispatch sample_outbox (sample_world 8) order_event sample_dctx 1
      \<lparr>tx_db = sy_db s, tx_queue = sy_queue s, tx_failed = False\<rparr> = (Inr (Duplicate 7), tx') \<and>
    find_event 7 (events (sy_db s)) = Some ev \<and> ev_tenant_id ev = ''acme''"
proof -
  obtain s :: "sample_queue system" and as :: "(string, sample_queue, nat) action list"
    where s: "sys_reach (\<lambda>_. ''{}'') sample_outbox as s"
      "dispatch sample_outbox (sample_world 8) order_event sample_dctx 1
        \<lparr>tx_db = sy_db s, tx_queue = sy_queue s, tx_failed = False\<rparr> =
        (Inr (Duplicate 7), \<lparr>tx_db = sy_db s, tx_queue = sy_queue s, tx_failed = False\<rparr>)"
    by (rule sample_repeated)
  have "dc_tenant_id sample_dctx = ''acme''"
    by (simp add: sample_dctx_def with_idempotency_key_def DispatchContext_new_def)
  with tenant_isolation [OF s(1) refl] s(2) show ?thesis by metis
qed

section \<open>Jobs\<close>

text \<open>A run of the system with the list of its actions, from a given state.\<close>

inductive sys_path ::
  "(json \<Rightarrow> string) \<Rightarrow> 'b Outbox \<Rightarrow> 'q system \<Rightarrow> ('p, 'q, 'e) action list \<Rightarrow> 'q system \<Rightarrow> bool"
  for jt :: "json \<Rightarrow> string" and ob :: "'b Outbox" and s :: "'q system"
where
  path_refl: "sys_path jt ob s [] s"
| path_step: "sys_path jt ob s as s1 \<Longrightarrow> sys_step jt ob a s1 s2 \<Longrightarrow> sys_path jt ob s (as @ [a]) s2"

lemma sys_path_reach: "sys_path jt ob s as s' \<Longrightarrow> sys_init s \<Longrightarrow> sys_reach jt ob as s'"
  by (induction rule: sys_path.induct) (auto intro: sys_reach.intros)

text \<open>The ids that \<open>Uuid::now_v7\<close> gave to the dispatches of a run.\<close>

fun dispatch_id :: "('p, 'q, 'e) action \<Rightarrow> uuid list" where
  "dispatch_id (ADispatch w E ctx event) = [dw_event_id w]"
| "dispatch_id a = []"

text \<open>
  The documented contract of \<open>Pusher::push_batch\<close>: when it succeeds, the queue has one more job for every item of
  the batch, and nothing else changed. \<open>jobs\<close> reads the jobs out of the state of the queue.
\<close>

type_synonym job = "HandlerEnvelope \<times> string option"

fun pushes_batch :: "('q \<Rightarrow> job multiset) \<Rightarrow> ('p, 'q, 'e) action \<Rightarrow> bool" where
  "pushes_batch jobs (ADispatch w E ctx event) \<longleftrightarrow>
    (\<forall>envs q q'. dw_push_batch w envs q = Inr q' \<longrightarrow> jobs q' = jobs q + mset envs)"
| "pushes_batch jobs a \<longleftrightarrow> True"

definition job_of :: "'b Outbox \<Rightarrow> uuid \<times> string \<Rightarrow> job" where
  "job_of ob k = (\<lparr>env_event_id = fst k, env_handler_id = snd k\<rparr>,
    map_option (\<lambda>_. snd k) (Option.bind (lookup (ob_registry ob) (snd k)) rh_concurrency_limit))"

lemma make_envelopes_job_of: "make_envelopes (ob_registry ob) e ids = map (\<lambda>h. job_of ob (e, h)) ids"
  by (simp add: make_envelopes_def job_of_def)

lemma job_of_inject [simp]: "job_of ob k = job_of ob k' \<longleftrightarrow> k = k'"
  by (auto simp: job_of_def prod_eq_iff)

text \<open>Every delivery has its job; every job comes from a dispatch of the run; no job is there twice.\<close>

definition jobs_inv :: "'b Outbox \<Rightarrow> ('q \<Rightarrow> job multiset) \<Rightarrow> uuid list \<Rightarrow> 'q system \<Rightarrow> bool" where
  "jobs_inv ob jobs ids s \<longleftrightarrow>
    (\<forall>k \<in> delivery_key ` set (deliveries (sy_db s)). job_of ob k \<in># jobs (sy_queue s)) \<and>
    (\<forall>j. count (jobs (sy_queue s)) j \<le> 1) \<and>
    (\<forall>j \<in># jobs (sy_queue s). \<exists>k. j = job_of ob k \<and> fst k \<in> set ids)"

lemma jobs_invD:
  assumes "jobs_inv ob jobs ids s"
  shows "k \<in> delivery_key ` set (deliveries (sy_db s)) \<Longrightarrow> job_of ob k \<in># jobs (sy_queue s)"
    "count (jobs (sy_queue s)) j \<le> 1"
    "j \<in># jobs (sy_queue s) \<Longrightarrow> \<exists>k. j = job_of ob k \<and> fst k \<in> set ids"
  using assms unfolding jobs_inv_def by blast+

lemma jobs_inv_deletes:
  assumes "jobs_inv ob jobs ids s" and "only_deletes (sy_db s) (sy_db s')" and "sy_queue s' = sy_queue s"
  shows "jobs_inv ob jobs (ids @ ids') s'"
  using assms by (fastforce simp: jobs_inv_def only_deletes_def)

lemma jobs_inv_dispatch:
  assumes inv: "jobs_inv ob jobs ids s" and ok: "db_ok (dw_jsonb_text w) (sy_db s)"
    and d: "dispatch ob w E ctx event \<lparr>tx_db = sy_db s, tx_queue = sy_queue s, tx_failed = False\<rparr> = (Inr out, tx')"
    and s': "sy_db s' = tx_db tx'" "sy_queue s' = tx_queue tx'"
    and push: "pushes_batch jobs (ADispatch w E ctx event)" and new: "dw_event_id w \<notin> set ids"
  shows "jobs_inv ob jobs (ids @ [dw_event_id w]) s'"
  using d
proof (cases rule: dispatch_Inr)
  case duplicate
  with inv s' show ?thesis by (fastforce simp: jobs_inv_def)
next
  case (inserted hs payload)
  let ?h = "handler_ids_for (ob_registry ob) (EVENT_TYPE E)" and ?e = "dw_event_id w"
  have keys: "map delivery_key (deliveries (sy_db s')) =
      map delivery_key (deliveries (sy_db s)) @ map (\<lambda>h. (?e, h)) ?h"
    by (simp add: s'(1) inserted(7) inserted_rows_def new_deliveries_keys)
  have "db_ok (dw_jsonb_text w) (tx_db tx')" using dispatch_db_ok(1) [OF _ d] ok by simp
  then have "distinct (map delivery_key (deliveries (sy_db s')))" by (simp add: s'(1) schema_defs)
  then have dist: "distinct ?h" unfolding keys by (simp add: distinct_map)
  have q: "jobs (sy_queue s') = jobs (sy_queue s) + mset (map (\<lambda>h. job_of ob (?e, h)) ?h)"
    using inserted(8) push s'(2) by (auto simp: make_envelopes_job_of split: if_splits)
  have fresh: "job_of ob (?e, h) \<notin># jobs (sy_queue s)" for h
    using jobs_invD(3) [OF inv] new by fastforce
  have "count (jobs (sy_queue s')) j \<le> 1" for j
  proof (cases "j \<in> (\<lambda>h. job_of ob (?e, h)) ` set ?h")
    case True
    then have "count (jobs (sy_queue s)) j = 0" using fresh by (auto simp: count_eq_zero_iff)
    moreover have "distinct (map (\<lambda>h. job_of ob (?e, h)) ?h)"
      using dist by (simp add: distinct_map inj_on_def)
    then have "count (mset (map (\<lambda>h. job_of ob (?e, h)) ?h)) j \<le> 1"
      by (metis distinct_count_atmost_1 le_refl zero_le)
    ultimately show ?thesis by (simp add: q)
  next
    case False
    then have "count (mset (map (\<lambda>h. job_of ob (?e, h)) ?h)) j = 0" by (auto simp: count_eq_zero_iff)
    with jobs_invD(2) [OF inv, of j] show ?thesis by (simp add: q)
  qed
  moreover have "delivery_key ` set (deliveries (sy_db s')) =
      delivery_key ` set (deliveries (sy_db s)) \<union> (\<lambda>h. (?e, h)) ` set ?h"
    using arg_cong [OF keys, of set] by simp
  ultimately show ?thesis
    using inv by (auto simp: jobs_inv_def q)
qed

lemma jobs_inv_path:
  assumes "sys_path jt ob s0 as s" and "sys_init s0" and "jobs (sy_queue s0) = {#}"
    and "\<forall>a \<in> set as. pushes_batch jobs a" and "distinct (concat (map dispatch_id as))"
  shows "jobs_inv ob jobs (concat (map dispatch_id as)) s"
  using assms
proof (induction rule: sys_path.induct)
  case path_refl
  then show ?case by (simp add: jobs_inv_def sys_init_def empty_db_def)
next
  case (path_step as s1 a s2)
  then have inv: "jobs_inv ob jobs (concat (map dispatch_id as)) s1" by simp
  have "sys_inv jt s1" using sys_path_reach path_step.hyps(1) path_step.prems(1) sys.reach_invar by blast
  then have ok: "db_ok jt (sy_db s1)" by (simp add: sys_inv_def)
  from path_step.hyps(2) show ?case
  proof (cases rule: sys_step_cases)
    case (dispatch w E ctx event out tx')
    with path_step.hyps(2) have "dw_jsonb_text w = jt" by (auto elim: sys_stepE)
    with jobs_inv_dispatch [OF inv _ dispatch(2-4)] ok path_step.prems dispatch(1) show ?thesis by simp
  next
    case other
    with inv show ?thesis by (simp add: jobs_inv_deletes)
  qed
qed

text \<open>
  (C9) No delivery without a job, and none with two. In every run that starts with empty tables and an empty queue,
  whatever dispatches, claims, verdicts and purges it interleaves, each delivery row has exactly one job in
  the queue, with the row's event and handler and with the handler's concurrency key where the handler has a limit;
  and every job was pushed by a dispatch of the run. (Event ids are never handed out twice; a successful
  \<open>push_batch\<close> adds the jobs of its batch.)
\<close>

theorem one_job_per_delivery:
  assumes "sys_path jt ob s0 as s" and "sys_init s0" and "jobs (sy_queue s0) = {#}"
    and "\<forall>a \<in> set as. pushes_batch jobs a" and "distinct (concat (map dispatch_id as))"
  shows "(\<forall>r \<in> set (deliveries (sy_db s)). count (jobs (sy_queue s)) (job_of ob (delivery_key r)) = 1 \<and>
      hd_event_id r \<in> set (concat (map dispatch_id as))) \<and>
    (\<forall>j \<in># jobs (sy_queue s). env_event_id (fst j) \<in> set (concat (map dispatch_id as)) \<and>
      {#j' \<in># jobs (sy_queue s). fst j' = fst j#} = {#j#})"
proof -
  let ?J = "jobs (sy_queue s)"
  note inv = jobs_inv_path [OF assms]
  have one: "count ?J j = 1" if "j \<in># ?J" for j
    using jobs_invD(2) [OF inv, of j] that count_greater_zero_iff [of ?J j] by linarith
  have same: "j' = j" if "j \<in># ?J" "j' \<in># ?J" "fst j' = fst j" for j j'
    using jobs_invD(3) [OF inv that(1)] jobs_invD(3) [OF inv that(2)] that(3) by (auto simp: job_of_def)
  have "{#j' \<in># ?J. fst j' = fst j#} = {#j#}" if "j \<in># ?J" for j
  proof (rule multiset_eqI)
    show "count {#j' \<in># ?J. fst j' = fst j#} x = count {#j#} x" for x
      using one [OF that] same [OF that, of x] by (cases "x \<in># ?J") (auto simp: not_in_iff)
  qed
  moreover have "env_event_id (fst j) \<in> set (concat (map dispatch_id as))" if "j \<in># ?J" for j
    using jobs_invD(3) [OF inv that] by (auto simp: job_of_def)
  moreover have "count ?J (job_of ob (delivery_key r)) = 1 \<and> hd_event_id r \<in> set (concat (map dispatch_id as))"
    if "r \<in> set (deliveries (sy_db s))" for r
  proof -
    have j: "job_of ob (delivery_key r) \<in># ?J" using jobs_invD(1) [OF inv] that by blast
    then have "fst (delivery_key r) \<in> set (concat (map dispatch_id as))" using jobs_invD(3) [OF inv j] by auto
    with one [OF j] show ?thesis by (simp add: delivery_key_def)
  qed
  ultimately show ?thesis by blast
qed

theorem one_job_per_delivery_witness:
  "\<exists>s :: sample_queue system.
    sys_path (\<lambda>_. ''{}'') sample_outbox sample_start
      [ADispatch (sample_world 7) order_event sample_dctx 1, ATick 200] s \<and> sy_now s = 200 \<and>
    (\<exists>r. find_delivery (7, ''audit'') (deliveries (sy_db s)) = Some r) \<and>
    count (mset (sy_queue s)) (\<lparr>env_event_id = 7, env_handler_id = ''audit''\<rparr>, None) = 1"
proof -
  obtain tx' where d: "dispatch sample_outbox (sample_world 7) order_event sample_dctx 1 empty_tx =
    (Inr (Dispatched 7 2), tx')" by (rule sample_dispatched)
  let ?s1 = "sample_start\<lparr>sy_db := tx_db tx', sy_queue := tx_queue tx'\<rparr>" and ?s2 = "\<lambda>s. s\<lparr>sy_now := 200\<rparr>"
  let ?as = "[ADispatch (sample_world 7) order_event sample_dctx 1, ATick 200]"
  have st1: "sys_step (\<lambda>_. ''{}'') sample_outbox (ADispatch (sample_world 7) order_event sample_dctx 1) sample_start ?s1"
    by (rule dispatched [where out = "Dispatched 7 2"])
      (use d in \<open>simp_all add: sample_start_def empty_tx_def sample_world_def\<close>)
  have st2: "sys_step (\<lambda>_. ''{}'') sample_outbox (ATick 200 :: (string, sample_queue, nat) action) ?s1 (?s2 ?s1)"
    by (rule ticked) (simp add: sample_start_def)
  from path_step [OF path_step [OF path_refl st1] st2]
  have path: "sys_path (\<lambda>_. ''{}'') sample_outbox sample_start ?as (?s2 ?s1)" by simp
  from d have "deliveries (tx_db tx') = new_deliveries 100 7 1 [''audit'', ''bill'']"
    by (cases rule: dispatch_Inr) (simp_all add: inserted_rows_def empty_tx_def empty_db_def sample_world_def
        order_event_def sample_event_def sample_outbox_ids)
  then have f: "find_delivery (7, ''audit'') (deliveries (sy_db (?s2 ?s1))) = Some (new_delivery 100 7 1 ''audit'')"
    by (simp add: new_deliveries_def new_delivery_def find_delivery_def delivery_key_def upt_rec)
  have init: "sys_init sample_start" "mset (sy_queue sample_start) = {#}"
    by (simp_all add: sys_init_def sample_start_def)
  have push: "\<forall>a \<in> set ?as. pushes_batch mset a" "distinct (concat (map dispatch_id ?as))"
    by (auto simp: sample_world_def)
  note one = one_job_per_delivery [OF path init push]
  have "count (mset (sy_queue (?s2 ?s1))) (job_of sample_outbox (delivery_key (new_delivery 100 7 1 ''audit''))) = 1"
    using one hd_tab.look_SomeD(1) [OF f] by blast
  moreover have "job_of sample_outbox (delivery_key (new_delivery 100 7 1 ''audit'')) =
      (\<lparr>env_event_id = 7, env_handler_id = ''audit''\<rparr>, None)"
    by (simp add: job_of_def new_delivery_def delivery_key_def sample_outbox_def Outbox_new_def
        sample_builder_def sample_pending_def lookup_def handlers_fold_add_entry Registry_new_def registered_def)
  ultimately show ?thesis using path f by (intro exI [of _ "?s2 ?s1"]) simp
qed

section \<open>The log of events\<close>

lemma dispatch_new_rows:
  assumes "dispatch ob w E ctx event tx = (Inr out, tx')"
  shows "\<exists>es ks. events (tx_db tx') = events (tx_db tx) @ es \<and> dispatch_keys (tx_db tx') = dispatch_keys (tx_db tx) @ ks \<and>
    ev_id ` set es \<subseteq> {dw_event_id w} \<and> dk_event_id ` set ks \<subseteq> {dw_event_id w}"
  using assms
proof (cases rule: dispatch_Inr)
  case inserted
  then show ?thesis by (auto simp: inserted_rows_def reservation_rows_def split: option.split)
qed simp

text \<open>The steps that may delete events, and those that may delete reservations.\<close>

fun purges_events :: "('p, 'q, 'e) action \<Rightarrow> bool" where
  "purges_events (APurge chunk f) \<longleftrightarrow> chunk \<in> range purge_events_chunk"
| "purges_events a \<longleftrightarrow> False"

fun purges_reservations :: "('p, 'q, 'e) action \<Rightarrow> bool" where
  "purges_reservations (APurge chunk f) \<longleftrightarrow> chunk \<in> range purge_keys_chunk \<union> range purge_events_chunk"
| "purges_reservations a \<longleftrightarrow> False"

lemma purge_chunk_log:
  assumes "run_stmt f chunk d = (res, d')" and "chunk \<in> purge_chunks"
  shows "chunk \<notin> range purge_events_chunk \<Longrightarrow> events d' = events d"
    "chunk \<notin> range purge_keys_chunk \<union> range purge_events_chunk \<Longrightarrow> dispatch_keys d' = dispatch_keys d"
  using run_stmt_db [OF assms(1)] assms(2)
  by (auto simp: purge_chunks_def purge_deliveries_chunk_def purge_keys_chunk_def Let_def)

text \<open>What one step does to a lookup in the log: rows are kept unless a purge deletes them, and found ones are old or new.\<close>

lemma log_kept:
  assumes "sys_step jt ob a s s'"
  shows "find_event e (events (sy_db s)) = Some r \<Longrightarrow> \<not> purges_events a \<Longrightarrow>
      find_event e (events (sy_db s')) = Some r"
    "find_reservation k (dispatch_keys (sy_db s)) = Some q \<Longrightarrow> \<not> purges_reservations a \<Longrightarrow>
      find_reservation k (dispatch_keys (sy_db s')) = Some q"
proof -
  from assms have "(find_event e (events (sy_db s)) = Some r \<longrightarrow> \<not> purges_events a \<longrightarrow>
      find_event e (events (sy_db s')) = Some r) \<and>
    (find_reservation k (dispatch_keys (sy_db s)) = Some q \<longrightarrow> \<not> purges_reservations a \<longrightarrow>
      find_reservation k (dispatch_keys (sy_db s')) = Some q)"
  proof cases
    case (dispatched w E ctx event out tx')
    from dispatch_new_rows [OF dispatched(3)] dispatched(2) show ?thesis
      by (auto simp: ev_tab.look_append dk_tab.look_append)
  next
    case (purged chunk f res d')
    from purge_chunk_log [OF purged(4,3)] purged(1,2) show ?thesis by auto
  qed (auto dest: claim_only_deletes mark_only_deletes)
  then show "find_event e (events (sy_db s)) = Some r \<Longrightarrow> \<not> purges_events a \<Longrightarrow>
      find_event e (events (sy_db s')) = Some r"
    "find_reservation k (dispatch_keys (sy_db s)) = Some q \<Longrightarrow> \<not> purges_reservations a \<Longrightarrow>
      find_reservation k (dispatch_keys (sy_db s')) = Some q" by blast+
qed

lemma log_found:
  assumes inv: "sys_inv jt s" and st: "sys_step jt ob a s s'"
  shows "find_event e (events (sy_db s')) = Some r \<Longrightarrow>
      find_event e (events (sy_db s)) = Some r \<or> e \<in> set (dispatch_id a)"
    "find_reservation k (dispatch_keys (sy_db s')) = Some q \<Longrightarrow>
      find_reservation k (dispatch_keys (sy_db s)) = Some q \<or> dk_event_id q \<in> set (dispatch_id a)"
proof -
  have new: "r \<in> set (events (sy_db s)) \<or> ev_id r \<in> set (dispatch_id a)" if "r \<in> set (events (sy_db s'))" for r
    using st by (cases rule: sys_step_cases)
      (use that in \<open>auto simp: only_deletes_def image_subset_iff dest!: dispatch_new_rows\<close>)
  have newk: "q \<in> set (dispatch_keys (sy_db s)) \<or> dk_event_id q \<in> set (dispatch_id a)"
    if "q \<in> set (dispatch_keys (sy_db s'))" for q
    using st by (cases rule: sys_step_cases)
      (use that in \<open>auto simp: only_deletes_def image_subset_iff dest!: dispatch_new_rows\<close>)
  have dist: "distinct (map ev_id (events (sy_db s)))" "distinct (map reservation_key (dispatch_keys (sy_db s)))"
    using inv by (simp_all add: sys_inv_def schema_defs)
  show "find_event e (events (sy_db s)) = Some r \<or> e \<in> set (dispatch_id a)"
    if "find_event e (events (sy_db s')) = Some r"
    using ev_tab.look_SomeD [OF that] new ev_tab.look_in [OF dist(1)] by blast
  show "find_reservation k (dispatch_keys (sy_db s)) = Some q \<or> dk_event_id q \<in> set (dispatch_id a)"
    if "find_reservation k (dispatch_keys (sy_db s')) = Some q"
    using dk_tab.look_SomeD [OF that] newk dk_tab.look_in [OF dist(2)] by blast
qed

text \<open>
  (C15) The log is immutable, along every run from a reachable state, through dispatches, claims, verdicts and purges. An
  event that was there is there unchanged unless an event purge ran, and a reservation is there unchanged, for the
  same event, unless a purge of keys or events ran; and whatever is found at the end was there at the start, column for
  column, or was written by a dispatch of the run under its own fresh id. So nothing but a purge deletes, and
  nothing rewrites.
\<close>

theorem events_immutable:
  assumes "sys_reach jt ob bs s" and "sys_path jt ob s as s'"
  shows "(find_event e (events (sy_db s)) = Some r \<and> (\<forall>a \<in> set as. \<not> purges_events a) \<longrightarrow>
      find_event e (events (sy_db s')) = Some r) \<and>
    (find_reservation k (dispatch_keys (sy_db s)) = Some q \<and> (\<forall>a \<in> set as. \<not> purges_reservations a) \<longrightarrow>
      find_reservation k (dispatch_keys (sy_db s')) = Some q) \<and>
    (\<forall>r'. find_event e (events (sy_db s')) = Some r' \<longrightarrow>
      find_event e (events (sy_db s)) = Some r' \<or> e \<in> set (concat (map dispatch_id as))) \<and>
    (\<forall>q'. find_reservation k (dispatch_keys (sy_db s')) = Some q' \<longrightarrow>
      find_reservation k (dispatch_keys (sy_db s)) = Some q' \<or> dk_event_id q' \<in> set (concat (map dispatch_id as)))"
proof -
  have "sys_inv jt s" using sys.reach_invar assms(1) by blast
  with assms(2) have "sys_inv jt s' \<and> ?thesis"
  proof (induction rule: sys_path.induct)
    case path_refl
    then show ?case by simp
  next
    case (path_step as s1 a s2)
    then have inv: "sys_inv jt s1" by blast
    note kept = log_kept [OF path_step.hyps(2)] and found = log_found [OF inv path_step.hyps(2)]
    have "sys_inv jt s2" using sys_inv_step [OF inv path_step.hyps(2)] .
    moreover have "find_event e (events (sy_db s)) = Some r \<and> (\<forall>a \<in> set (as @ [a]). \<not> purges_events a) \<longrightarrow>
        find_event e (events (sy_db s2)) = Some r"
      using path_step.IH [OF path_step.prems] kept(1) by simp
    moreover have "find_reservation k (dispatch_keys (sy_db s)) = Some q \<and>
        (\<forall>a \<in> set (as @ [a]). \<not> purges_reservations a) \<longrightarrow>
        find_reservation k (dispatch_keys (sy_db s2)) = Some q"
      using path_step.IH [OF path_step.prems] kept(2) by simp
    moreover have "\<forall>r'. find_event e (events (sy_db s2)) = Some r' \<longrightarrow>
        find_event e (events (sy_db s)) = Some r' \<or> e \<in> set (concat (map dispatch_id (as @ [a])))"
      using path_step.IH [OF path_step.prems] found(1) by fastforce
    moreover have "\<forall>q'. find_reservation k (dispatch_keys (sy_db s2)) = Some q' \<longrightarrow>
        find_reservation k (dispatch_keys (sy_db s)) = Some q' \<or> dk_event_id q' \<in> set (concat (map dispatch_id (as @ [a])))"
      using path_step.IH [OF path_step.prems] found(2) by fastforce
    ultimately show ?case by blast
  qed
  then show ?thesis by blast
qed

theorem events_immutable_witness:
  "\<exists>(s :: sample_queue system) s' ev. sys_path (\<lambda>_. ''{}'') sample_outbox s
      [ADispatch (sample_world 8) order_event sample_dctx 1] s' \<and>
    find_event 7 (events (sy_db s)) = Some ev \<and> find_event 7 (events (sy_db s')) = Some ev \<and>
    find_reservation (''acme'', ''k1'') (dispatch_keys (sy_db s')) = Some \<lparr>dk_tenant_id = ''acme'',
      dk_idempotency_key = ''k1'', dk_event_id = 7, dk_created_at = 100\<rparr>"
proof -
  obtain s :: "sample_queue system" and as :: "(string, sample_queue, nat) action list" and ev
    where s: "sys_reach (\<lambda>_. ''{}'') sample_outbox as s" "sy_now s = 100"
      "dispatch sample_outbox (sample_world 8) order_event sample_dctx 1
        \<lparr>tx_db = sy_db s, tx_queue = sy_queue s, tx_failed = False\<rparr> =
        (Inr (Duplicate 7), \<lparr>tx_db = sy_db s, tx_queue = sy_queue s, tx_failed = False\<rparr>)"
      "find_reservation (''acme'', ''k1'') (dispatch_keys (sy_db s)) = Some \<lparr>dk_tenant_id = ''acme'',
        dk_idempotency_key = ''k1'', dk_event_id = 7, dk_created_at = 100\<rparr>"
      "find_event 7 (events (sy_db s)) = Some ev"
    by (rule sample_repeated)
  have "sys_step (\<lambda>_. ''{}'') sample_outbox (ADispatch (sample_world 8) order_event sample_dctx 1) s
      (s\<lparr>sy_db := tx_db \<lparr>tx_db = sy_db s, tx_queue = sy_queue s, tx_failed = False\<rparr>,
         sy_queue := tx_queue \<lparr>tx_db = sy_db s, tx_queue = sy_queue s, tx_failed = False\<rparr>\<rparr>)"
    by (rule dispatched [OF s(3)]) (simp_all add: sample_world_def s(2))
  from path_step [OF path_refl this] obtain s' where
    p: "sys_path (\<lambda>_. ''{}'') sample_outbox s [ADispatch (sample_world 8) order_event sample_dctx 1] s'" by auto
  from events_immutable [OF s(1) p, of 7 ev "(''acme'', ''k1'')"] s(4,5) p show ?thesis by fastforce
qed

end
