(* ===== verification/Outbox_Transactions.thy ===== *)
theory Outbox_Transactions
  imports Outbox_Provenance
begin

text \<open>
  Dispatches that overlap. \<open>Outbox::dispatch\<close> of \<^verbatim>\<open>src/src/outbox.rs\<close> runs in the caller's transaction, which stays
  open after it returned, so the statements of many dispatches, the workers and the purges interleave. Here
  a dispatch is a sequence of statements of a session, with the locks the server takes for them:
  the row or the index entry of a reservation belongs to the session that wrote or found it until its
  transaction ends, and whoever needs it waits. The theorems say that this is as good as dispatches that run
  alone, one after the other, in the order of their commits.
\<close>

section \<open>Sessions\<close>

text \<open>One call of \<open>dispatch\<close>: its arguments and what it takes from outside the crate.\<close>

record ('p, 'q, 'e) request =
  rq_world :: "('p, 'q) dispatch_world"
  rq_type :: "'e DomainEvent"
  rq_ctx :: DispatchContext
  rq_event :: 'e

text \<open>
  Where a session is in its transaction: before its first write; after step 5 with a reservation of its own;
  after the call returned \<open>Duplicate\<close>, or returned after the insertions. Only the end of the
  transaction makes its rows visible to others.
\<close>

datatype ('p, 'q, 'e) session =
    SIdle
  | SReserved "('p, 'q, 'e) request" bytes
  | SFound "('p, 'q, 'e) request" uuid
  | SWritten "('p, 'q, 'e) request" bytes DispatchOutcome

definition rq_id :: "('p, 'q, 'e) request \<Rightarrow> uuid" where
  "rq_id rq = dw_event_id (rq_world rq)"

definition rq_key :: "('p, 'q, 'e) request \<Rightarrow> (string \<times> string) option" where
  "rq_key rq = map_option (\<lambda>key. (dc_tenant_id (rq_ctx rq), key)) (dc_idempotency_key (rq_ctx rq))"

definition rq_handlers :: "'b Outbox \<Rightarrow> ('p, 'q, 'e) request \<Rightarrow> string list" where
  "rq_handlers ob rq = handler_ids_for (ob_registry ob) (EVENT_TYPE (rq_type rq))"

text \<open>The key of \<open>dispatch_keys\<close> whose row a session has locked, and the event id it has written somewhere.\<close>

fun held_key :: "('p, 'q, 'e) session \<Rightarrow> (string \<times> string) option" where
  "held_key SIdle = None"
| "held_key (SReserved rq payload) = rq_key rq"
| "held_key (SFound rq e) = rq_key rq"
| "held_key (SWritten rq payload out) = rq_key rq"

fun own_id :: "('p, 'q, 'e) session \<Rightarrow> uuid option" where
  "own_id SIdle = None"
| "own_id (SReserved rq payload) = Some (rq_id rq)"
| "own_id (SFound rq e) = None"
| "own_id (SWritten rq payload out) = Some (rq_id rq)"

text \<open>Steps 1 to 4, which touch no table: validation, the encoded payload, and the lookup of the handlers.\<close>

definition dispatch_starts :: "'b Outbox \<Rightarrow> ('p, 'q, 'e) request \<Rightarrow> bytes \<Rightarrow> bool" where
  "dispatch_starts ob rq payload \<longleftrightarrow>
    (validate_dispatch (rq_type rq) (rq_ctx rq) (rq_event rq) :: (unit, 'p DispatchError) rresult) = Inr () \<and>
    (encode_payload (rq_type rq) (rq_event rq) :: (bytes, 'p DispatchError) rresult) = Inr payload \<and>
    (rq_handlers ob rq = [] \<longrightarrow> ob_allow_no_handlers ob)"

text \<open>Step 5, the reservation, as a statement on the committed tables.\<close>

definition reserve_rq :: "('p, 'q, 'e) request \<Rightarrow> string \<Rightarrow> (uuid \<times> bool) stmt" where
  "reserve_rq rq key = reserve_stmt (dw_now (rq_world rq)) (dc_tenant_id (rq_ctx rq)) key (rq_id rq)"

text \<open>What the session itself sees before step 6: the committed tables, and its own reservation.\<close>

definition own_view :: "('p, 'q, 'e) request \<Rightarrow> 'q system \<Rightarrow> 'q txn" where
  "own_view rq s = \<lparr>tx_db = (sy_db s)\<lparr>dispatch_keys := dispatch_keys (sy_db s) @
      reservation_rows (rq_world rq) (rq_ctx rq)\<rparr>, tx_queue = sy_queue s, tx_failed = False\<rparr>"

definition written_rows :: "'b Outbox \<Rightarrow> ('p, 'q, 'e) request \<Rightarrow> bytes \<Rightarrow> json \<Rightarrow> outbox_db \<Rightarrow> outbox_db" where
  "written_rows ob rq payload h d = inserted_rows (rq_world rq)
    (mk_event_row (rq_type rq) (rq_ctx rq) (rq_event rq) (rq_id rq) (dw_now (rq_world rq)) payload h)
    (rq_handlers ob rq) (reservation_rows (rq_world rq) (rq_ctx rq)) d"

definition pushed :: "'b Outbox \<Rightarrow> ('p, 'q, 'e) request \<Rightarrow> 'q \<Rightarrow> ('q, 'p \<times> bool) rresult" where
  "pushed ob rq q = (if rq_handlers ob rq = [] then Inr q
    else dw_push_batch (rq_world rq) (make_envelopes (ob_registry ob) (rq_id rq) (rq_handlers ob rq)) q)"

section \<open>Interleaved steps\<close>

record ('p, 'q, 'e) concurrent =
  cs_sys :: "'q system"
  cs_task :: "nat \<Rightarrow> ('p, 'q, 'e) session"

datatype ('p, 'q, 'e) label =
    TReserve nat "('p, 'q, 'e) request"
  | TWrite nat "('p, 'q, 'e) request"
  | TCommit nat "('p, 'q, 'e) request" DispatchOutcome
  | TRollback nat
  | TOther "('p, 'q, 'e) action"

fun is_dispatch :: "('p, 'q, 'e) action \<Rightarrow> bool" where
  "is_dispatch (ADispatch w E ctx event) \<longleftrightarrow> True"
| "is_dispatch a \<longleftrightarrow> False"

text \<open>
  A statement of one session. It runs when no other session holds what it needs: the reservation of the same
  key (the upsert waits for the row or the index entry), or the same event id (unique indexes). A
  statement that fails, an error the caller returns on, or a lost connection end in a rollback, which is
  possible everywhere. The job queue's rows and the numbers of the deliveries are handed out at
  the commit; nobody else sees them before.
  These waits are what the server is documented to do for \<open>ON CONFLICT DO UPDATE\<close>, unique indexes and row locks, and
  are taken as such here; what the theorems show is what the statements of the crate make of them.
  A worker or a purge runs as before, except that it waits rather than delete a reservation that a session holds,
  whether it deletes the row itself or an event whose reservation would go with it.
\<close>

inductive conc_step ::
  "(json \<Rightarrow> string) \<Rightarrow> 'b Outbox \<Rightarrow> ('p, 'q, 'e) label \<Rightarrow> ('p, 'q, 'e) concurrent \<Rightarrow> ('p, 'q, 'e) concurrent \<Rightarrow> bool"
  for jt :: "json \<Rightarrow> string" and ob :: "'b Outbox"
where
  reserves: "cs_task c i = SIdle \<Longrightarrow> dispatch_starts ob rq payload \<Longrightarrow>
    dw_jsonb_text (rq_world rq) = jt \<Longrightarrow> dw_now (rq_world rq) \<le> sy_now (cs_sys c) \<Longrightarrow>
    dc_idempotency_key (rq_ctx rq) = Some key \<Longrightarrow>
    \<forall>j. held_key (cs_task c j) \<noteq> rq_key rq \<Longrightarrow>
    run_stmt (dw_reserve_fault (rq_world rq)) (reserve_rq rq key) (sy_db (cs_sys c)) = (Inr (e, ins), d') \<Longrightarrow>
    ins \<longrightarrow> (\<forall>j. own_id (cs_task c j) \<noteq> Some (rq_id rq)) \<Longrightarrow>
    conc_step jt ob (TReserve i rq) c
      (c\<lparr>cs_task := (cs_task c)(i := if ins then SReserved rq payload else SFound rq e)\<rparr>)"
| writes: "cs_task c i = SReserved rq payload \<or>
      cs_task c i = SIdle \<and> dispatch_starts ob rq payload \<and> dc_idempotency_key (rq_ctx rq) = None \<and>
      dw_jsonb_text (rq_world rq) = jt \<and> dw_now (rq_world rq) \<le> sy_now (cs_sys c) \<Longrightarrow>
    \<forall>j. j \<noteq> i \<longrightarrow> own_id (cs_task c j) \<noteq> Some (rq_id rq) \<Longrightarrow>
    dispatch_insert ob (rq_world rq) (rq_type rq) (rq_ctx rq) (rq_event rq) payload (rq_handlers ob rq)
      (own_view rq (cs_sys c)) = (Inr out, tx') \<Longrightarrow>
    conc_step jt ob (TWrite i rq) c (c\<lparr>cs_task := (cs_task c)(i := SWritten rq payload out)\<rparr>)"
| commits: "cs_task c i = SWritten rq payload out \<Longrightarrow>
    stored_headers (rq_world rq) (rq_ctx rq) = Inr h \<Longrightarrow> pushed ob rq (sy_queue (cs_sys c)) = Inr q \<Longrightarrow>
    conc_step jt ob (TCommit i rq out) c
      (c\<lparr>cs_sys := (cs_sys c)\<lparr>sy_db := written_rows ob rq payload h (sy_db (cs_sys c)), sy_queue := q\<rparr>,
         cs_task := (cs_task c)(i := SIdle)\<rparr>)"
| commits_found: "cs_task c i = SFound rq e \<Longrightarrow>
    conc_step jt ob (TCommit i rq (Duplicate e)) c (c\<lparr>cs_task := (cs_task c)(i := SIdle)\<rparr>)"
| rolls_back: "conc_step jt ob (TRollback i) c (c\<lparr>cs_task := (cs_task c)(i := SIdle)\<rparr>)"
| others: "sys_step jt ob a (cs_sys c) s' \<Longrightarrow> \<not> is_dispatch a \<Longrightarrow>
    \<forall>r \<in> set (dispatch_keys (sy_db (cs_sys c))).
      (\<exists>i. held_key (cs_task c i) = Some (reservation_key r)) \<longrightarrow> r \<in> set (dispatch_keys (sy_db s')) \<Longrightarrow>
    conc_step jt ob (TOther a) c (c\<lparr>cs_sys := s'\<rparr>)"

definition conc_init :: "('p, 'q, 'e) concurrent \<Rightarrow> bool" where
  "conc_init c \<longleftrightarrow> sys_init (cs_sys c) \<and> (\<forall>i. cs_task c i = SIdle)"

inductive conc_reach ::
  "(json \<Rightarrow> string) \<Rightarrow> 'b Outbox \<Rightarrow> ('p, 'q, 'e) label list \<Rightarrow> ('p, 'q, 'e) concurrent \<Rightarrow> bool"
  for jt :: "json \<Rightarrow> string" and ob :: "'b Outbox"
where
  conc_start: "conc_init c \<Longrightarrow> conc_reach jt ob [] c"
| conc_next: "conc_reach jt ob ls c \<Longrightarrow> conc_step jt ob l c c' \<Longrightarrow> conc_reach jt ob (ls @ [l]) c'"

text \<open>The serial history of an interleaved one: each dispatch whole, at its commit.\<close>

fun serial :: "('p, 'q, 'e) label \<Rightarrow> ('p, 'q, 'e) action list" where
  "serial (TCommit i rq out) = [ADispatch (rq_world rq) (rq_type rq) (rq_ctx rq) (rq_event rq)]"
| "serial (TOther a) = [a]"
| "serial l = []"

section \<open>A statement that has succeeded would succeed again\<close>

text \<open>
  What the insertion of a dispatch asks for apart from the tables: the headers render and are stored, the texts
  and the new rows pass the checks, and no handler is named twice.
\<close>

definition insertable :: "'b Outbox \<Rightarrow> ('p, 'q, 'e) request \<Rightarrow> bytes \<Rightarrow> json \<Rightarrow> bool" where
  "insertable ob rq payload h \<longleftrightarrow>
    (let w = rq_world rq;
         row = mk_event_row (rq_type rq) (rq_ctx rq) (rq_event rq) (rq_id rq) (dw_now w) payload h
     in dw_insert_fault w = NoFault \<and>
        (\<exists>s. (encode_headers (dw_to_string w) (rq_ctx rq) :: (string, 'p DispatchError) rresult) = Inr s \<and>
          dw_jsonb_in w s = Inr h) \<and>
        (\<exists>d d'. insert_event (dw_jsonb_text w) (Inr h) (\<lambda>_. row) d = Inr (row, d')) \<and>
        list_all text_ok (rq_handlers ob rq) \<and> distinct (rq_handlers ob rq) \<and>
        list_all (\<lambda>i. i \<noteq> [] \<and> length i \<le> 128) (rq_handlers ob rq))"

lemma insert_event_again:
  assumes "insert_event jt h mk d = Inr (row, d')" and "ev_id row \<notin> ev_id ` set (events d2)"
  shows "insert_event jt h mk d2 = Inr (row, d2\<lparr>events := events d2 @ [row]\<rparr>)"
  using assms by (auto simp: insert_event_def Let_def split: sum.splits if_splits)

lemma insert_deliveries_static:
  assumes "insert_deliveries now e ids d = Inr (n, d')"
  shows "list_all text_ok ids \<and> distinct ids \<and> list_all (\<lambda>i. i \<noteq> [] \<and> length i \<le> 128) ids"
proof -
  let ?rows = "new_deliveries now e (next_delivery_id d) ids"
  from assms have "list_all text_ok ids" "list_all deliveries_check ?rows"
    "distinct (map delivery_key (deliveries d @ ?rows))"
    by (auto simp: insert_deliveries_def Let_def split: if_splits)
  then show ?thesis
    by (simp add: new_deliveries_check new_deliveries_keys distinct_map)
qed

lemma insert_deliveries_again:
  assumes "list_all text_ok ids" "distinct ids" "list_all (\<lambda>i. i \<noteq> [] \<and> length i \<le> 128) ids"
    and "\<forall>r \<in> set (deliveries d). hd_event_id r \<noteq> e" and "distinct (map delivery_key (deliveries d))"
    and "e \<in> ev_id ` set (events d)"
  shows "insert_deliveries now e ids d =
    Inr (length ids, d\<lparr>deliveries := deliveries d @ new_deliveries now e (next_delivery_id d) ids,
      next_delivery_id := next_delivery_id d + length ids\<rparr>)"
proof -
  have "distinct (map delivery_key (deliveries d @ new_deliveries now e (next_delivery_id d) ids))"
    using assms(2,4,5) unfolding map_append distinct_append new_deliveries_keys
    by (auto simp: distinct_map inj_on_def delivery_key_def)
  then show ?thesis
    using assms(1,3,6) by (simp add: insert_deliveries_def Let_def new_deliveries_check)
qed

lemma insertable_of_success:
  fixes rq :: "('p, 'q, 'e) request"
  assumes "dispatch_insert ob (rq_world rq) (rq_type rq) (rq_ctx rq) (rq_event rq) payload (rq_handlers ob rq) tx =
    (Inr out, tx')"
  shows "\<exists>h. insertable ob rq payload h \<and> stored_headers (rq_world rq) (rq_ctx rq) = Inr h \<and>
    out = job_outcome (rq_world rq) (rq_handlers ob rq) \<and> rq_id rq \<notin> ev_id ` set (events (tx_db tx))"
proof -
  let ?w = "rq_world rq" and ?ids = "rq_handlers ob rq"
  let ?mk = "mk_event_row (rq_type rq) (rq_ctx rq) (rq_event rq) (rq_id rq) (dw_now ?w) payload"
  from assms obtain s where s: "(encode_headers (dw_to_string ?w) (rq_ctx rq) :: (string, 'p DispatchError) rresult) = Inr s"
    by (auto simp: dispatch_insert_def split: sum.splits)
  from assms s have "\<exists>row d'. insert_event (dw_jsonb_text ?w) (dw_jsonb_in ?w s) ?mk (tx_db tx) = Inr (row, d') \<and>
      dw_insert_fault ?w = NoFault \<and>
      (?ids = [] \<or> (\<exists>n d2. insert_deliveries (dw_now ?w) (ev_id row) ?ids d' = Inr (n, d2)))"
    unfolding rq_id_def
    by (auto simp: dispatch_insert_def run_tx_Inr insert_event_with_deliveries_def Let_def
        split: if_splits sum.splits prod.splits)
  then obtain row d' where r: "insert_event (dw_jsonb_text ?w) (dw_jsonb_in ?w s) ?mk (tx_db tx) = Inr (row, d')"
    "dw_insert_fault ?w = NoFault" "?ids = [] \<or> (\<exists>n d2. insert_deliveries (dw_now ?w) (ev_id row) ?ids d' = Inr (n, d2))"
    by blast
  from insert_event_Inr [OF r(1)] obtain h where h: "dw_jsonb_in ?w s = Inr h" "row = ?mk h"
    "ev_id row \<notin> ev_id ` set (events (tx_db tx))" by blast
  have "insert_event (dw_jsonb_text ?w) (Inr h) (\<lambda>_. ?mk h) (tx_db tx) = Inr (?mk h, d')"
    using r(1) h(1,2) by (simp add: insert_event_def)
  moreover have "list_all text_ok ?ids \<and> distinct ?ids \<and> list_all (\<lambda>i. i \<noteq> [] \<and> length i \<le> 128) ?ids"
    using r(3) insert_deliveries_static by fastforce
  ultimately have "insertable ob rq payload h"
    using r(2) s h(1) by (auto simp: insertable_def Let_def)
  moreover have "stored_headers ?w (rq_ctx rq) = Inr h" using encode_headers_Inr [OF s] h(1) by simp
  moreover have "out = job_outcome ?w ?ids" using assms by (rule dispatch_insert_Inr)
  ultimately show ?thesis using h(2,3) by auto
qed

lemma dispatch_insert_again:
  fixes rq :: "('p, 'q, 'e) request"
  assumes ins: "insertable ob rq payload h" and ok: "db_ok jt (sy_db s)"
    and new: "rq_id rq \<notin> ev_id ` set (events (sy_db s))" and q: "pushed ob rq (sy_queue s) = Inr q"
  shows "dispatch_insert ob (rq_world rq) (rq_type rq) (rq_ctx rq) (rq_event rq) payload (rq_handlers ob rq)
      (own_view rq s) =
    (Inr (job_outcome (rq_world rq) (rq_handlers ob rq)),
     \<lparr>tx_db = written_rows ob rq payload h (sy_db s), tx_queue = q, tx_failed = False\<rparr>)"
proof -
  let ?w = "rq_world rq" and ?ids = "rq_handlers ob rq" and ?d = "tx_db (own_view rq s)"
  let ?mk = "mk_event_row (rq_type rq) (rq_ctx rq) (rq_event rq) (rq_id rq) (dw_now ?w) payload"
  let ?d1 = "?d\<lparr>events := events ?d @ [?mk h]\<rparr>"
  note i = ins [unfolded insertable_def Let_def]
  have ev: "ev_id (?mk h) \<notin> ev_id ` set (events ?d)" using new by (simp add: own_view_def)
  have e: "insert_event (dw_jsonb_text ?w) (Inr h) ?mk ?d = Inr (?mk h, ?d1)"
    using i insert_event_again [OF _ ev, of "dw_jsonb_text ?w" "Inr h" "\<lambda>_. ?mk h"]
    by (auto simp: insert_event_def)
  have "\<forall>r \<in> set (deliveries (sy_db s)). hd_event_id r \<noteq> rq_id rq"
    using ok new by (metis db_ok_def immediate_ok_def)
  then have del: "insert_deliveries (dw_now ?w) (rq_id rq) ?ids ?d1 = Inr (length ?ids,
      ?d1\<lparr>deliveries := deliveries ?d1 @ new_deliveries (dw_now ?w) (rq_id rq) (next_delivery_id ?d1) ?ids,
      next_delivery_id := next_delivery_id ?d1 + length ?ids\<rparr>)"
    using i ok by (intro insert_deliveries_again) (simp_all add: own_view_def schema_defs)
  have rows: "?d1\<lparr>deliveries := deliveries ?d1 @ new_deliveries (dw_now ?w) (rq_id rq) (next_delivery_id ?d1) ?ids,
      next_delivery_id := next_delivery_id ?d1 + length ?ids\<rparr> = written_rows ob rq payload h (sy_db s)"
    by (simp add: own_view_def written_rows_def inserted_rows_def rq_id_def)
  have empty: "?ids = [] \<Longrightarrow> ?d1 = written_rows ob rq payload h (sy_db s)"
    by (simp add: own_view_def written_rows_def inserted_rows_def rq_id_def new_deliveries_def)
  have run: "\<not> tx_failed (own_view rq s)" "tx_queue (own_view rq s) = sy_queue s" by (simp_all add: own_view_def)
  have tx: "(own_view rq s)\<lparr>tx_db := d\<rparr> = \<lparr>tx_db = d, tx_queue = sy_queue s, tx_failed = False\<rparr>" for d
    by (simp add: own_view_def)
  from i obtain t where t: "(encode_headers (dw_to_string ?w) (rq_ctx rq) :: (string, 'p DispatchError) rresult) = Inr t"
    "dw_jsonb_in ?w t = Inr h" by blast
  show ?thesis
  proof (cases "?ids = []")
    case True
    have "run_tx (dw_insert_fault ?w) (insert_event (dw_jsonb_text ?w) (Inr h) ?mk) (own_view rq s) =
      (Inr (?mk h), (own_view rq s)\<lparr>tx_db := written_rows ob rq payload h (sy_db s)\<rparr>)"
      using i e empty [OF True] run by (simp add: run_tx_Inr)
    then show ?thesis
      using t True q by (simp add: dispatch_insert_def rq_id_def pushed_def job_outcome_def tx)
  next
    case False
    have "run_tx (dw_insert_fault ?w) (insert_event_with_deliveries (dw_jsonb_text ?w) (dw_now ?w) (Inr h) ?mk ?ids)
        (own_view rq s) =
      (Inr (length ?ids), (own_view rq s)\<lparr>tx_db := written_rows ob rq payload h (sy_db s)\<rparr>)"
      using i run unfolding run_tx_Inr insert_event_with_deliveries_def e
      by (simp only: sum.case prod.case mk_event_row_id del rows) simp
    then show ?thesis
      using t False q by (simp add: dispatch_insert_def rq_id_def pushed_def job_outcome_def tx push_jobs_def)
  qed
qed

section \<open>The invariant of the sessions\<close>

text \<open>
  What a session may rely on while it waits: the result of its last statement is still the result the
  statement would have now, on the committed tables.
\<close>

definition started :: "(json \<Rightarrow> string) \<Rightarrow> 'b Outbox \<Rightarrow> 'q system \<Rightarrow> ('p, 'q, 'e) request \<Rightarrow> bytes \<Rightarrow> bool" where
  "started jt ob s rq payload \<longleftrightarrow> dispatch_starts ob rq payload \<and> dw_jsonb_text (rq_world rq) = jt \<and>
    dw_now (rq_world rq) \<le> sy_now s"

definition would_reserve :: "'q system \<Rightarrow> ('p, 'q, 'e) request \<Rightarrow> uuid \<times> bool \<Rightarrow> bool" where
  "would_reserve s rq v \<longleftrightarrow> (\<exists>key d'. dc_idempotency_key (rq_ctx rq) = Some key \<and>
    dw_reserve_fault (rq_world rq) = NoFault \<and> reserve_rq rq key (sy_db s) = Inr (v, d'))"

fun session_ok :: "(json \<Rightarrow> string) \<Rightarrow> 'b Outbox \<Rightarrow> 'q system \<Rightarrow> ('p, 'q, 'e) session \<Rightarrow> bool" where
  "session_ok jt ob s SIdle \<longleftrightarrow> True"
| "session_ok jt ob s (SReserved rq payload) \<longleftrightarrow>
    started jt ob s rq payload \<and> would_reserve s rq (rq_id rq, True)"
| "session_ok jt ob s (SFound rq e) \<longleftrightarrow> (\<exists>payload. started jt ob s rq payload) \<and> would_reserve s rq (e, False)"
| "session_ok jt ob s (SWritten rq payload out) \<longleftrightarrow>
    started jt ob s rq payload \<and> (rq_key rq \<noteq> None \<longrightarrow> would_reserve s rq (rq_id rq, True)) \<and>
    rq_id rq \<notin> ev_id ` set (events (sy_db s)) \<and> out = job_outcome (rq_world rq) (rq_handlers ob rq) \<and>
    (\<exists>h. insertable ob rq payload h \<and> stored_headers (rq_world rq) (rq_ctx rq) = Inr h)"

text \<open>No two sessions hold the same thing.\<close>

definition exclusive :: "('s \<Rightarrow> 'k option) \<Rightarrow> (nat \<Rightarrow> 's) \<Rightarrow> bool" where
  "exclusive f t \<longleftrightarrow> (\<forall>i j k. f (t i) = Some k \<longrightarrow> f (t j) = Some k \<longrightarrow> i = j)"

lemma exclusiveD: "exclusive f t \<Longrightarrow> f (t i) = Some k \<Longrightarrow> f (t j) = Some k \<Longrightarrow> i = j"
  by (simp add: exclusive_def)

lemma exclusive_upd:
  assumes "exclusive f t" and "\<And>j k. j \<noteq> i \<Longrightarrow> f se = Some k \<Longrightarrow> f (t j) \<noteq> Some k"
  shows "exclusive f (t(i := se))"
  unfolding exclusive_def
proof (intro allI impI)
  fix a b k assume "f ((t(i := se)) a) = Some k" "f ((t(i := se)) b) = Some k"
  with assms(2) exclusiveD [OF assms(1)] show "a = b" by (cases "a = i"; cases "b = i") auto
qed

definition conc_inv :: "(json \<Rightarrow> string) \<Rightarrow> 'b Outbox \<Rightarrow> ('p, 'q, 'e) concurrent \<Rightarrow> bool" where
  "conc_inv jt ob c \<longleftrightarrow> sys_inv jt (cs_sys c) \<and> (\<forall>i. session_ok jt ob (cs_sys c) (cs_task c i)) \<and>
    exclusive held_key (cs_task c) \<and> exclusive own_id (cs_task c)"

text \<open>
  Others may add rows with other keys and ids and delete rows, but not a reservation the session holds: then the
  reservation statement still answers the same.
\<close>

definition undisturbed :: "('p, 'q, 'e) session \<Rightarrow> outbox_db \<Rightarrow> outbox_db \<Rightarrow> bool" where
  "undisturbed se d d' \<longleftrightarrow>
    (\<forall>r \<in> set (dispatch_keys d'). r \<in> set (dispatch_keys d) \<or>
      held_key se \<noteq> Some (reservation_key r) \<and> own_id se \<noteq> Some (dk_event_id r)) \<and>
    (\<forall>r \<in> set (dispatch_keys d). held_key se = Some (reservation_key r) \<longrightarrow> r \<in> set (dispatch_keys d')) \<and>
    (\<forall>r \<in> set (events d'). r \<in> set (events d) \<or> own_id se \<noteq> Some (ev_id r))"

definition reservable :: "('p, 'q, 'e) request \<Rightarrow> string \<Rightarrow> bool" where
  "reservable rq key \<longleftrightarrow> list_all text_ok [dc_tenant_id (rq_ctx rq), key] \<and>
    dispatch_keys_check \<lparr>dk_tenant_id = dc_tenant_id (rq_ctx rq), dk_idempotency_key = key,
      dk_event_id = rq_id rq, dk_created_at = dw_now (rq_world rq)\<rparr>"

lemma reserve_rq_eq:
  "reserve_rq rq key d = Inr (v, d') \<longleftrightarrow> reservable rq key \<and>
    (case find_reservation (dc_tenant_id (rq_ctx rq), key) (dispatch_keys d) of
       Some r \<Rightarrow> v = (dk_event_id r, False) \<and> d' = d
     | None \<Rightarrow> rq_id rq \<notin> dk_event_id ` set (dispatch_keys d) \<and> v = (rq_id rq, True) \<and>
         d' = d\<lparr>dispatch_keys := dispatch_keys d @ [\<lparr>dk_tenant_id = dc_tenant_id (rq_ctx rq),
           dk_idempotency_key = key, dk_event_id = rq_id rq, dk_created_at = dw_now (rq_world rq)\<rparr>]\<rparr>)"
proof (cases "reservable rq key")
  case True
  then show ?thesis
    by (auto simp: reserve_rq_def reserve_stmt_def Let_def reservable_def split: option.split)
next
  case False
  then show ?thesis
    unfolding reserve_rq_def reserve_stmt_def Let_def reservable_def by (auto split: if_split)
qed

lemma would_reserve_new_iff:
  "would_reserve s rq (rq_id rq, True) \<longleftrightarrow>
    (\<exists>key. dc_idempotency_key (rq_ctx rq) = Some key \<and> dw_reserve_fault (rq_world rq) = NoFault \<and>
      reservable rq key \<and> (dc_tenant_id (rq_ctx rq), key) \<notin> reservation_key ` set (dispatch_keys (sy_db s)) \<and>
      rq_id rq \<notin> dk_event_id ` set (dispatch_keys (sy_db s)))"
  unfolding would_reserve_def reserve_rq_eq dk_tab.look_None_iff [symmetric]
  by (auto split: option.splits)

lemma would_reserve_found_iff:
  "would_reserve s rq (e, False) \<longleftrightarrow>
    (\<exists>key r. dc_idempotency_key (rq_ctx rq) = Some key \<and> dw_reserve_fault (rq_world rq) = NoFault \<and>
      reservable rq key \<and>
      find_reservation (dc_tenant_id (rq_ctx rq), key) (dispatch_keys (sy_db s)) = Some r \<and> dk_event_id r = e)"
  unfolding would_reserve_def reserve_rq_eq
  by (auto split: option.splits)

lemma started_mono: "started jt ob s rq payload \<Longrightarrow> sy_now s \<le> sy_now s' \<Longrightarrow> started jt ob s' rq payload"
  by (simp add: started_def)

lemma would_reserve_new_mono:
  assumes w: "would_reserve s rq (rq_id rq, True)" and u: "undisturbed se (sy_db s) (sy_db s')"
    and se: "held_key se = rq_key rq" "own_id se = Some (rq_id rq)"
  shows "would_reserve s' rq (rq_id rq, True)"
proof -
  from w obtain key where k: "dc_idempotency_key (rq_ctx rq) = Some key" "dw_reserve_fault (rq_world rq) = NoFault"
    "reservable rq key" "(dc_tenant_id (rq_ctx rq), key) \<notin> reservation_key ` set (dispatch_keys (sy_db s))"
    "rq_id rq \<notin> dk_event_id ` set (dispatch_keys (sy_db s))"
    by (auto simp only: would_reserve_new_iff)
  then have "held_key se = Some (dc_tenant_id (rq_ctx rq), key)" by (simp add: se rq_key_def)
  then have new: "r \<in> set (dispatch_keys (sy_db s)) \<or>
      (dc_tenant_id (rq_ctx rq), key) \<noteq> reservation_key r \<and> rq_id rq \<noteq> dk_event_id r"
    if "r \<in> set (dispatch_keys (sy_db s'))" for r
    using that u se(2) by (auto simp: undisturbed_def)
  from k(4,5) new have "(dc_tenant_id (rq_ctx rq), key) \<notin> reservation_key ` set (dispatch_keys (sy_db s'))"
    and "rq_id rq \<notin> dk_event_id ` set (dispatch_keys (sy_db s'))" by blast+
  with k(1-3) show ?thesis unfolding would_reserve_new_iff by blast
qed

lemma would_reserve_found_mono:
  assumes w: "would_reserve s rq (e, False)" and u: "undisturbed (SFound rq e) (sy_db s) (sy_db s')"
    and ok: "db_ok jt (sy_db s')"
  shows "would_reserve s' rq (e, False)"
proof -
  from w obtain key r where k: "dc_idempotency_key (rq_ctx rq) = Some key" "dw_reserve_fault (rq_world rq) = NoFault"
    "reservable rq key" and r: "find_reservation (dc_tenant_id (rq_ctx rq), key) (dispatch_keys (sy_db s)) = Some r"
    "dk_event_id r = e"
    unfolding would_reserve_found_iff by blast
  from dk_tab.look_SomeD [OF r(1)] have "r \<in> set (dispatch_keys (sy_db s'))"
    and kr: "reservation_key r = (dc_tenant_id (rq_ctx rq), key)"
    using u k(1) by (auto simp: undisturbed_def rq_key_def)
  then have "find_reservation (dc_tenant_id (rq_ctx rq), key) (dispatch_keys (sy_db s')) = Some r"
    using dk_tab.look_in ok by (metis db_ok_def immediate_ok_def)
  with k r(2) show ?thesis unfolding would_reserve_found_iff by blast
qed

lemma session_ok_mono:
  assumes ok: "session_ok jt ob s se" and db: "db_ok jt (sy_db s')" and now: "sy_now s \<le> sy_now s'"
    and u: "undisturbed se (sy_db s) (sy_db s')"
  shows "session_ok jt ob s' se"
proof (cases se)
  case (SReserved rq payload)
  with ok u now show ?thesis by (auto intro: started_mono would_reserve_new_mono)
next
  case (SFound rq e)
  with ok u now db show ?thesis by (auto intro: started_mono would_reserve_found_mono)
next
  case (SWritten rq payload out)
  moreover from this have "rq_id rq \<notin> ev_id ` set (events (sy_db s'))"
    using ok u by (auto simp: undisturbed_def)
  ultimately show ?thesis
    using ok u now by (auto intro: started_mono would_reserve_new_mono)
qed simp

section \<open>A commit is a whole dispatch\<close>

abbreviation dispatch_now :: "'b Outbox \<Rightarrow> ('p, 'q, 'e) request \<Rightarrow> 'q system \<Rightarrow>
    (DispatchOutcome, 'p DispatchError) rresult \<times> 'q txn" where
  "dispatch_now ob rq s \<equiv> dispatch ob (rq_world rq) (rq_type rq) (rq_ctx rq) (rq_event rq)
    \<lparr>tx_db = sy_db s, tx_queue = sy_queue s, tx_failed = False\<rparr>"

lemma dispatch_inserts:
  assumes st: "started jt ob s rq payload" and new: "rq_key rq \<noteq> None \<longrightarrow> would_reserve s rq (rq_id rq, True)"
  shows "dispatch_now ob rq s = dispatch_insert ob (rq_world rq) (rq_type rq) (rq_ctx rq) (rq_event rq) payload
    (rq_handlers ob rq) (own_view rq s)"
proof (cases "dc_idempotency_key (rq_ctx rq)")
  case None
  then have "own_view rq s = \<lparr>tx_db = sy_db s, tx_queue = sy_queue s, tx_failed = False\<rparr>"
    by (simp add: own_view_def reservation_rows_def)
  with None st show ?thesis
    by (auto simp: started_def dispatch_starts_def dispatch_def rq_handlers_def)
next
  case (Some key)
  with new obtain d' where r: "reserve_rq rq key (sy_db s) = Inr ((rq_id rq, True), d')"
    "dw_reserve_fault (rq_world rq) = NoFault"
    by (auto simp: would_reserve_def rq_key_def)
  from reserve_stmt_Inr [OF r(1) [unfolded reserve_rq_def]] have
    "\<lparr>tx_db = d', tx_queue = sy_queue s, tx_failed = False\<rparr> = own_view rq s"
    using Some by (simp add: own_view_def reservation_rows_def rq_id_def)
  with r Some st show ?thesis
    by (auto simp: started_def dispatch_starts_def dispatch_def rq_handlers_def run_tx_def run_stmt_def
        reserve_rq_def rq_id_def)
qed

lemma dispatch_finds:
  assumes st: "started jt ob s rq payload" and found: "would_reserve s rq (e, False)"
  shows "dispatch_now ob rq s = (Inr (Duplicate e), \<lparr>tx_db = sy_db s, tx_queue = sy_queue s, tx_failed = False\<rparr>)"
proof -
  from found obtain key d' where r: "dc_idempotency_key (rq_ctx rq) = Some key"
    "reserve_rq rq key (sy_db s) = Inr ((e, False), d')" "dw_reserve_fault (rq_world rq) = NoFault"
    by (auto simp: would_reserve_def)
  from reserve_stmt_Inr [OF r(2) [unfolded reserve_rq_def]] have "d' = sy_db s" by simp
  with r st show ?thesis
    by (auto simp: started_def dispatch_starts_def dispatch_def rq_handlers_def run_tx_def run_stmt_def
        reserve_rq_def rq_id_def)
qed

text \<open>The outcome the caller has had since the call returned is the outcome of the dispatch that the commit amounts to.\<close>

lemma commit_is_dispatch:
  assumes inv: "conc_inv jt ob c" and st: "conc_step jt ob (TCommit i rq out) c c'"
  shows "\<exists>tx'. dispatch_now ob rq (cs_sys c) = (Inr out, tx') \<and> dw_jsonb_text (rq_world rq) = jt \<and>
    dw_now (rq_world rq) \<le> sy_now (cs_sys c) \<and>
    cs_sys c' = (cs_sys c)\<lparr>sy_db := tx_db tx', sy_queue := tx_queue tx'\<rparr>"
  using st
proof cases
  case (commits payload h q)
  from inv commits(2) have ok: "session_ok jt ob (cs_sys c) (SWritten rq payload out)" and
    db: "db_ok jt (sy_db (cs_sys c))"
    by (auto simp: conc_inv_def sys_inv_def simp del: session_ok.simps dest: spec [of _ i])
  then obtain h' where h': "insertable ob rq payload h'" "stored_headers (rq_world rq) (rq_ctx rq) = Inr h'"
    by auto
  then have "insertable ob rq payload h" using commits(3) by simp
  from dispatch_insert_again [OF this db _ commits(4)] dispatch_inserts [of jt ob "cs_sys c" rq payload] ok
  have "dispatch_now ob rq (cs_sys c) = (Inr out, \<lparr>tx_db = written_rows ob rq payload h (sy_db (cs_sys c)),
    tx_queue = q, tx_failed = False\<rparr>)" by simp
  with ok commits(1) show ?thesis by (simp add: started_def)
next
  case (commits_found e)
  from inv commits_found(3) have ok: "session_ok jt ob (cs_sys c) (SFound rq e)"
    by (auto simp: conc_inv_def simp del: session_ok.simps dest: spec [of _ i])
  then obtain payload where p: "started jt ob (cs_sys c) rq payload" "would_reserve (cs_sys c) rq (e, False)" by auto
  from dispatch_finds [OF this] p(1) commits_found(1,2) show ?thesis by (simp add: started_def)
qed

lemma commit_is_step:
  assumes "conc_inv jt ob c" and "conc_step jt ob (TCommit i rq out) c c'"
  shows "sys_step jt ob (ADispatch (rq_world rq) (rq_type rq) (rq_ctx rq) (rq_event rq)) (cs_sys c) (cs_sys c')"
  using commit_is_dispatch [OF assms] by (auto intro: dispatched)

section \<open>Every step keeps the invariant\<close>

lemma conc_inv_task:
  assumes "conc_inv jt ob c" and "session_ok jt ob (cs_sys c) se"
    and "\<And>j k. j \<noteq> i \<Longrightarrow> held_key se = Some k \<Longrightarrow> held_key (cs_task c j) \<noteq> Some k"
    and "\<And>j e. j \<noteq> i \<Longrightarrow> own_id se = Some e \<Longrightarrow> own_id (cs_task c j) \<noteq> Some e"
  shows "conc_inv jt ob (c\<lparr>cs_task := (cs_task c)(i := se)\<rparr>)"
  using assms by (auto simp: conc_inv_def intro!: exclusive_upd)

lemma conc_inv_end: "conc_inv jt ob c \<Longrightarrow> conc_inv jt ob (c\<lparr>cs_task := (cs_task c)(i := SIdle)\<rparr>)"
  by (rule conc_inv_task) simp_all

lemma conc_inv_sys:
  assumes "conc_inv jt ob c" and "sys_inv jt s'" and "sy_now (cs_sys c) \<le> sy_now s'"
    and "\<And>i. undisturbed (cs_task c i) (sy_db (cs_sys c)) (sy_db s')"
  shows "conc_inv jt ob (c\<lparr>cs_sys := s'\<rparr>)"
proof -
  have "session_ok jt ob s' (cs_task c i)" for i
    using session_ok_mono [OF _ _ assms(3,4)] assms(1,2) unfolding conc_inv_def sys_inv_def by blast
  with assms(1,2) show ?thesis by (simp add: conc_inv_def)
qed

lemma undisturbed_written:
  assumes "rq_key rq \<noteq> None \<longrightarrow> held_key se \<noteq> rq_key rq" and "own_id se \<noteq> Some (rq_id rq)"
  shows "undisturbed se d (written_rows ob rq payload h d)"
  using assms
  by (auto simp: undisturbed_def written_rows_def inserted_rows_def reservation_rows_def reservation_key_def
      rq_key_def rq_id_def split: option.splits) (metis option.simps(9))

lemma conc_inv_reserves:
  assumes inv: "conc_inv jt ob c" and st: "started jt ob (cs_sys c) rq payload"
    and key: "dc_idempotency_key (rq_ctx rq) = Some key"
    and free: "\<forall>j. held_key (cs_task c j) \<noteq> rq_key rq"
    and run: "run_stmt (dw_reserve_fault (rq_world rq)) (reserve_rq rq key) (sy_db (cs_sys c)) = (Inr (e, ins), d')"
    and own: "ins \<longrightarrow> (\<forall>j. own_id (cs_task c j) \<noteq> Some (rq_id rq))"
  shows "conc_inv jt ob (c\<lparr>cs_task := (cs_task c)(i := if ins then SReserved rq payload else SFound rq e)\<rparr>)"
proof -
  from run have "would_reserve (cs_sys c) rq (e, ins)" using key by (auto simp: would_reserve_def run_stmt_Inr)
  moreover have "ins \<Longrightarrow> e = rq_id rq" using run by (auto simp: run_stmt_Inr reserve_rq_eq split: option.splits)
  ultimately show ?thesis
    using inv st free own by (intro conc_inv_task) (simp_all split: if_splits, metis+)
qed

lemma conc_inv_writes:
  assumes inv: "conc_inv jt ob c"
    and at: "cs_task c i = SReserved rq payload \<or>
      cs_task c i = SIdle \<and> dispatch_starts ob rq payload \<and> dc_idempotency_key (rq_ctx rq) = None \<and>
      dw_jsonb_text (rq_world rq) = jt \<and> dw_now (rq_world rq) \<le> sy_now (cs_sys c)"
    and own: "\<forall>j. j \<noteq> i \<longrightarrow> own_id (cs_task c j) \<noteq> Some (rq_id rq)"
    and ins: "dispatch_insert ob (rq_world rq) (rq_type rq) (rq_ctx rq) (rq_event rq) payload (rq_handlers ob rq)
      (own_view rq (cs_sys c)) = (Inr out, tx')"
  shows "conc_inv jt ob (c\<lparr>cs_task := (cs_task c)(i := SWritten rq payload out)\<rparr>)"
proof (rule conc_inv_task [OF inv])
  from inv have "session_ok jt ob (cs_sys c) (cs_task c i)" by (simp add: conc_inv_def)
  with at have "started jt ob (cs_sys c) rq payload"
    "rq_key rq \<noteq> None \<longrightarrow> would_reserve (cs_sys c) rq (rq_id rq, True)"
    by (auto simp: started_def rq_key_def)
  moreover from insertable_of_success [OF ins] obtain h where
    "insertable ob rq payload h" "stored_headers (rq_world rq) (rq_ctx rq) = Inr h"
    "out = job_outcome (rq_world rq) (rq_handlers ob rq)" "rq_id rq \<notin> ev_id ` set (events (sy_db (cs_sys c)))"
    by (auto simp: own_view_def)
  ultimately show "session_ok jt ob (cs_sys c) (SWritten rq payload out)" by auto
  show "held_key (cs_task c j) \<noteq> Some k" if "j \<noteq> i" "held_key (SWritten rq payload out) = Some k" for j k
  proof -
    from that(2) have "rq_key rq = Some k" by simp
    with at have "held_key (cs_task c i) = Some k" by (auto simp: rq_key_def)
    with inv that(1) show ?thesis unfolding conc_inv_def by (metis exclusiveD)
  qed
qed (use own in simp)

lemma conc_inv_commits:
  assumes inv: "conc_inv jt ob c" and at: "cs_task c i = SWritten rq payload out" and s': "sys_inv jt s'"
    and eq: "s' = (cs_sys c)\<lparr>sy_db := written_rows ob rq payload h (sy_db (cs_sys c)), sy_queue := q\<rparr>"
  shows "conc_inv jt ob (c\<lparr>cs_sys := s', cs_task := (cs_task c)(i := SIdle)\<rparr>)"
proof -
  let ?c = "c\<lparr>cs_task := (cs_task c)(i := SIdle)\<rparr>"
  have "undisturbed (cs_task ?c j) (sy_db (cs_sys ?c)) (sy_db s')" for j
  proof (cases "j = i")
    case False
    with inv at have "rq_key rq \<noteq> None \<longrightarrow> held_key (cs_task c j) \<noteq> rq_key rq" "own_id (cs_task c j) \<noteq> Some (rq_id rq)"
      unfolding conc_inv_def by (metis exclusiveD held_key.simps(4) not_None_eq, metis exclusiveD own_id.simps(4))
    then show ?thesis using False by (simp add: eq undisturbed_written)
  qed (auto simp: eq rq_key_def intro: undisturbed_written)
  from conc_inv_sys [OF conc_inv_end [OF inv] s' _ this] show ?thesis by (cases c) (simp add: eq)
qed

lemma sys_step_now: "sys_step jt ob a s s' \<Longrightarrow> sy_now s \<le> sy_now s'"
  by (erule sys_stepE) simp_all

lemma conc_inv_others:
  assumes inv: "conc_inv jt ob c" and st: "sys_step jt ob a (cs_sys c) s'" and "\<not> is_dispatch a"
    and keep: "\<forall>r \<in> set (dispatch_keys (sy_db (cs_sys c))).
      (\<exists>i. held_key (cs_task c i) = Some (reservation_key r)) \<longrightarrow> r \<in> set (dispatch_keys (sy_db s'))"
  shows "conc_inv jt ob (c\<lparr>cs_sys := s'\<rparr>)"
proof (rule conc_inv_sys [OF inv _ sys_step_now [OF st]])
  show "sys_inv jt s'" using inv st by (auto simp: conc_inv_def intro: sys_inv_step)
  have "only_deletes (sy_db (cs_sys c)) (sy_db s')"
    using st by (cases rule: sys_step_cases) (use assms(3) in auto)
  then show "undisturbed (cs_task c i) (sy_db (cs_sys c)) (sy_db s')" for i
    using keep by (auto simp: undisturbed_def only_deletes_def)
qed

lemma conc_inv_step:
  assumes inv: "conc_inv jt ob c" and "conc_step jt ob l c c'"
  shows "conc_inv jt ob c'"
  using assms(2)
proof cases
  case (reserves i rq payload key e ins d')
  with inv show ?thesis by (simp only:) (rule conc_inv_reserves, simp_all add: started_def)
next
  case (writes i rq payload out tx')
  with inv show ?thesis by (simp only:) (rule conc_inv_writes)
next
  case (commits i rq payload out h q)
  have "sys_inv jt (cs_sys c')"
    using sys_inv_step [OF _ commit_is_step [OF inv assms(2) [unfolded commits(1)]]] inv by (simp add: conc_inv_def)
  with conc_inv_commits [OF inv commits(3) _ refl] commits(2) show ?thesis by simp
next
  case others
  with inv show ?thesis by (auto intro: conc_inv_others)
qed (use inv in \<open>auto intro: conc_inv_end\<close>)

interpretation conc: invariant_system "conc_init :: ('p, 'q, 'e) concurrent \<Rightarrow> bool"
  "\<lambda>c c'. \<exists>l. conc_step jt ob l c c'"
  "\<lambda>c. \<exists>ls. conc_reach jt ob ls c" "conc_inv jt ob" for jt ob
proof
  show "P c" if "\<exists>ls. conc_reach jt ob ls c" "\<And>c. conc_init c \<Longrightarrow> P c"
    "\<And>c c'. \<exists>ls. conc_reach jt ob ls c \<Longrightarrow> P c \<Longrightarrow> \<exists>l. conc_step jt ob l c c' \<Longrightarrow> P c'" for P c
  proof -
    from that(1) obtain ls where "conc_reach jt ob ls c" ..
    then show ?thesis by (induction rule: conc_reach.induct) (blast intro: that(2,3))+
  qed
  show "conc_inv jt ob c" if "conc_init c" for c :: "('p, 'q, 'e) concurrent"
    using that sys.invar_init [of "cs_sys c" jt] by (simp add: conc_init_def conc_inv_def exclusive_def)
qed (blast intro: conc_inv_step)

section \<open>Overlapping dispatches are serializable\<close>

lemma serial_step:
  assumes "conc_inv jt ob c" and "conc_step jt ob l c c'" and "sys_reach jt ob as (cs_sys c)"
  shows "sys_reach jt ob (as @ serial l) (cs_sys c')"
  using assms(2)
proof cases
  case (commits i rq payload out h q)
  from reach_step [OF assms(3) commit_is_step [OF assms(1) assms(2) [unfolded commits(1)]]] commits(1)
  show ?thesis by simp
next
  case (commits_found i rq e)
  from reach_step [OF assms(3) commit_is_step [OF assms(1) assms(2) [unfolded commits_found(1)]]] commits_found(1)
  show ?thesis by simp
next
  case others
  from reach_step [OF assms(3) others(3)] others(1,2) show ?thesis by simp
qed (use assms(3) in simp_all)

lemma serial_reach:
  assumes "conc_reach jt ob ls c"
  shows "sys_reach jt ob (concat (map serial ls)) (cs_sys c)"
  using assms
proof (induction rule: conc_reach.induct)
  case (conc_start c)
  then show ?case by (simp add: conc_init_def reach_init)
next
  case (conc_next ls c l c')
  have "conc_inv jt ob c" using conc.reach_invar conc_next.hyps(1) by blast
  from serial_step [OF this conc_next.hyps(2) conc_next.IH] show ?case by simp
qed

text \<open>
  (C4) Dispatches that overlap are serializable, in the order of their commits. However the statements of any number
  of open transactions, the workers and the purges interleave, the committed tables and the queue are those of a
  run in which each dispatch happens whole, at the moment its transaction commits; and the outcome that the
  call had returned to its caller, possibly long before, is the outcome of that whole dispatch.
\<close>

theorem concurrent_dispatch_serializable:
  assumes "conc_reach jt ob ls c"
  shows "sys_reach jt ob (concat (map serial ls)) (cs_sys c) \<and>
    (conc_step jt ob (TCommit i rq out) c c' \<longrightarrow>
      (\<exists>tx'. dispatch ob (rq_world rq) (rq_type rq) (rq_ctx rq) (rq_event rq)
          \<lparr>tx_db = sy_db (cs_sys c), tx_queue = sy_queue (cs_sys c), tx_failed = False\<rparr> = (Inr out, tx') \<and>
        cs_sys c' = (cs_sys c)\<lparr>sy_db := tx_db tx', sy_queue := tx_queue tx'\<rparr>))"
proof -
  have "conc_inv jt ob c" using conc.reach_invar assms by blast
  with serial_reach [OF assms] show ?thesis using commit_is_dispatch by blast
qed

text \<open>
  While a transaction that was answered \<open>Duplicate\<close> is open, the event it was told is stored, too: the lock of the row keeps
  the reservation from being deleted, and with it, by the foreign key and its cascade, the event.
\<close>

lemma held_reservation_stays:
  assumes "conc_reach jt ob ls c" and "cs_task c i = SFound rq e"
  shows "\<exists>r ev. rq_key rq = Some (reservation_key r) \<and>
    find_reservation (reservation_key r) (dispatch_keys (sy_db (cs_sys c))) = Some r \<and> dk_event_id r = e \<and>
    find_event e (events (sy_db (cs_sys c))) = Some ev \<and>
    (\<forall>j. held_key (cs_task c j) = rq_key rq \<longrightarrow> j = i)"
proof -
  have inv: "conc_inv jt ob c" using conc.reach_invar assms(1) by blast
  then have ok: "db_ok jt (sy_db (cs_sys c))" and se: "session_ok jt ob (cs_sys c) (cs_task c i)"
    and ex: "exclusive held_key (cs_task c)" by (auto simp: conc_inv_def sys_inv_def)
  from se assms(2) obtain key r where k: "dc_idempotency_key (rq_ctx rq) = Some key"
    and r: "find_reservation (dc_tenant_id (rq_ctx rq), key) (dispatch_keys (sy_db (cs_sys c))) = Some r" "dk_event_id r = e"
    by (auto simp: would_reserve_found_iff)
  note m = dk_tab.look_SomeD [OF r(1)]
  then have key: "rq_key rq = Some (reservation_key r)" using k by (simp add: rq_key_def)
  have "e \<in> ev_id ` set (events (sy_db (cs_sys c)))" using m r(2) ok by (auto simp: schema_defs)
  then have "find_event e (events (sy_db (cs_sys c))) \<noteq> None" by (simp add: ev_tab.look_None_iff)
  then obtain ev where "find_event e (events (sy_db (cs_sys c))) = Some ev" by blast
  moreover have "\<forall>j. held_key (cs_task c j) = rq_key rq \<longrightarrow> j = i"
    using exclusiveD [OF ex] assms(2) key by (metis held_key.simps(3))
  ultimately show ?thesis using key r m by (intro exI [of _ r] exI [of _ ev]) simp
qed

section \<open>Idempotency under concurrency\<close>

text \<open>A step that may delete reservations: a purge of the keys or of the events.\<close>

fun purges_keys :: "('p, 'q, 'e) label \<Rightarrow> bool" where
  "purges_keys (TOther (APurge chunk f)) \<longleftrightarrow> chunk \<notin> range purge_deliveries_chunk"
| "purges_keys l \<longleftrightarrow> False"

lemma keys_stay:
  assumes "conc_step jt ob l c c'" and "\<not> purges_keys l"
  shows "set (dispatch_keys (sy_db (cs_sys c))) \<subseteq> set (dispatch_keys (sy_db (cs_sys c')))"
  using assms(1)
proof cases
  case (others a s')
  from others(3) have "set (dispatch_keys (sy_db (cs_sys c))) \<subseteq> set (dispatch_keys (sy_db s'))"
  proof cases
    case dispatched
    with others(4) show ?thesis by simp
  next
    case (purged chunk f res d')
    with others(1) assms(2) obtain cutoff where "chunk = purge_deliveries_chunk cutoff" by auto
    with run_stmt_db [OF purged(4)] purged(2) show ?thesis
      by (auto simp: purge_deliveries_chunk_def Let_def)
  qed (auto dest: claim_only_deletes mark_only_deletes)
  with others(2) show ?thesis by simp
qed (auto simp: written_rows_def inserted_rows_def)

lemma reservation_stays:
  assumes "conc_reach jt ob ls' c" and "ls' = ls @ TCommit i rq out # ms"
    and "\<forall>l \<in> set ms. \<not> purges_keys l" and "dc_idempotency_key (rq_ctx rq) = Some key"
  shows "\<exists>r \<in> set (dispatch_keys (sy_db (cs_sys c))). reservation_key r = (dc_tenant_id (rq_ctx rq), key) \<and>
    dk_event_id r = outcome_event_id out"
  using assms(1-3)
proof (induction arbitrary: ms rule: conc_reach.induct)
  case (conc_next ls' c l c')
  show ?case
  proof (cases ms rule: rev_cases)
    case Nil
    with conc_next.prems have l: "l = TCommit i rq out" by simp
    have "conc_inv jt ob c" using conc.reach_invar conc_next.hyps(1) by blast
    from commit_is_dispatch [OF this conc_next.hyps(2) [unfolded l]] obtain tx' where
      "dispatch_now ob rq (cs_sys c) = (Inr out, tx')" "sy_db (cs_sys c') = tx_db tx'" by auto
    with dispatch_reserves [OF this(1) assms(4)] show ?thesis by simp
  next
    case (snoc ms' m)
    with conc_next.prems conc_next.IH [of ms'] keys_stay [OF conc_next.hyps(2)] show ?thesis by auto
  qed
qed simp

text \<open>
  (C3) One key, one event, whatever the interleaving: if a dispatch with a key commits, then every dispatch with the same
  tenant and key that commits later, even one that was called before, in another process, for another event,
  with any other transactions in between, answers \<open>Duplicate\<close> with the event of the first, as long as no purge
  of keys or events ran between the two commits.
\<close>

theorem concurrent_dispatch_idempotent:
  assumes "conc_reach jt ob (ls @ TCommit i rq out # ms @ [TCommit j rq2 out2]) c"
    and "rq_key rq2 = rq_key rq" and "rq_key rq \<noteq> None" and "\<forall>l \<in> set ms. \<not> purges_keys l"
  shows "out2 = Duplicate (outcome_event_id out)"
proof -
  from assms(1) obtain c1 where reach: "conc_reach jt ob (ls @ TCommit i rq out # ms) c1"
    and st: "conc_step jt ob (TCommit j rq2 out2) c1 c"
    by (cases rule: conc_reach.cases) auto
  from assms(2,3) obtain key where k: "dc_idempotency_key (rq_ctx rq) = Some key"
    "dc_idempotency_key (rq_ctx rq2) = Some key" "dc_tenant_id (rq_ctx rq2) = dc_tenant_id (rq_ctx rq)"
    by (auto simp: rq_key_def)
  from reservation_stays [OF reach refl assms(4) k(1)] obtain r where
    r: "r \<in> set (dispatch_keys (sy_db (cs_sys c1)))" "reservation_key r = (dc_tenant_id (rq_ctx rq), key)"
    "dk_event_id r = outcome_event_id out" by blast
  have inv: "conc_inv jt ob c1" using conc.reach_invar reach by blast
  then have "find_reservation (dc_tenant_id (rq_ctx rq2), key) (dispatch_keys (sy_db (cs_sys c1))) = Some r"
    using dk_tab.look_in [OF _ r(1)] r(2) k(3) by (simp add: conc_inv_def sys_inv_def schema_defs)
  moreover from commit_is_dispatch [OF inv st] obtain tx' where "dispatch_now ob rq2 (cs_sys c1) = (Inr out2, tx')"
    by blast
  ultimately show ?thesis using k(2) r(3) by (elim dispatch_Inr) auto
qed

section \<open>A run with three sessions\<close>

text \<open>
  Session 0 reserves; session 2, without a key, writes; session 0 writes; session 2 commits first; then session 0.
  Session 1 comes with the key of session 0, and finds its event.
\<close>

definition sample_rq :: "uuid \<Rightarrow> DispatchContext \<Rightarrow> (string, sample_queue, nat) request" where
  "sample_rq e ctx = \<lparr>rq_world = sample_world e, rq_type = order_event, rq_ctx = ctx, rq_event = 1\<rparr>"

definition plain_dctx :: DispatchContext where
  "plain_dctx = DispatchContext_new ''acme''"

definition sample_conc :: "(string, sample_queue, nat) concurrent" where
  "sample_conc = \<lparr>cs_sys = sample_start, cs_task = (\<lambda>_. SIdle)\<rparr>"

lemma sample_rq_sel [simp]:
  "rq_world (sample_rq e ctx) = sample_world e" "rq_type (sample_rq e ctx) = order_event"
  "rq_ctx (sample_rq e ctx) = ctx" "rq_event (sample_rq e ctx) = 1"
  by (simp_all add: sample_rq_def)

lemma sample_dctx_sel [simp]:
  "dc_idempotency_key sample_dctx = Some ''k1''" "dc_idempotency_key plain_dctx = None"
  "dc_tenant_id sample_dctx = ''acme''" "dc_tenant_id plain_dctx = ''acme''"
  "dc_producer_bc sample_dctx = []" "dc_producer_bc plain_dctx = []"
  by (simp_all add: sample_dctx_def plain_dctx_def with_idempotency_key_def DispatchContext_new_def)

lemma order_event_sel [simp]:
  "EVENT_TYPE order_event = ''order''" "aggregate_key order_event n = None" "to_vec order_event n = Inr (replicate n 0)"
  by (simp_all add: order_event_def sample_event_def)

lemma sample_rq_simps [simp]:
  "rq_id (sample_rq e ctx) = e" "rq_handlers sample_outbox (sample_rq e ctx) = [''audit'', ''bill'']"
  "rq_key (sample_rq e sample_dctx) = Some (''acme'', ''k1'')" "rq_key (sample_rq e plain_dctx) = None"
  "dw_jsonb_text (sample_world e) = (\<lambda>_. ''{}'')" "dw_now (sample_world e) = 100"
  "stored_headers (sample_world e) ctx = Inr (JObject [])" "dw_reserve_fault (sample_world e) = NoFault"
  "job_outcome (sample_world e) [''audit'', ''bill''] = Dispatched e 2"
  by (simp_all add: rq_id_def rq_handlers_def rq_key_def sample_world_def sample_outbox_ids stored_headers_def
      job_outcome_def)

lemma sample_pushed [simp]: "pushed sample_outbox (sample_rq e ctx) q =
    Inr (q @ make_envelopes (ob_registry sample_outbox) e [''audit'', ''bill''])"
  by (simp add: pushed_def) (simp add: sample_world_def)

lemma sample_starts:
  "ctx \<in> {sample_dctx, plain_dctx} \<Longrightarrow> dispatch_starts sample_outbox (sample_rq e ctx) [0]"
  by (auto simp: dispatch_starts_def validate_dispatch_def encode_payload_def limit_defs)

lemma sample_insertable:
  assumes "ctx \<in> {sample_dctx, plain_dctx}"
  shows "insertable sample_outbox (sample_rq e ctx) [0] (JObject [])"
proof -
  have "\<exists>d'. insert_event (\<lambda>_. ''{}'') (Inr (JObject [])) (\<lambda>_. mk_event_row order_event ctx 1 e 100 [0] (JObject []))
      empty_db = Inr (mk_event_row order_event ctx 1 e 100 [0] (JObject []), d')"
    using assms by (auto simp: insert_event_def Let_def mk_event_row_def events_check_def empty_db_def text_ok_def)
  moreover have "dw_insert_fault (sample_world e) = NoFault \<and>
      encode_headers (dw_to_string (sample_world e)) ctx = Inr ''{}'' \<and> dw_jsonb_in (sample_world e) t = Inr (JObject [])" for t
    by (simp add: encode_headers_def sample_world_def limit_defs)
  ultimately show ?thesis by (auto simp: insertable_def Let_def text_ok_def)
qed

lemma sample_reservable: "reservable (sample_rq e sample_dctx) ''k1''"
  by (simp add: reservable_def dispatch_keys_check_def text_ok_def)

lemma sample_write:
  assumes reach: "conc_reach (\<lambda>_. ''{}'') sample_outbox ls c" and ctx: "ctx \<in> {sample_dctx, plain_dctx}"
    and at: "cs_task c i = SReserved (sample_rq e ctx) [0] \<or> cs_task c i = SIdle \<and> ctx = plain_dctx"
    and now: "100 \<le> sy_now (cs_sys c)" and own: "\<forall>j. j \<noteq> i \<longrightarrow> own_id (cs_task c j) \<noteq> Some e"
    and new: "e \<notin> ev_id ` set (events (sy_db (cs_sys c)))"
  shows "conc_reach (\<lambda>_. ''{}'') sample_outbox (ls @ [TWrite i (sample_rq e ctx)])
    (c\<lparr>cs_task := (cs_task c)(i := SWritten (sample_rq e ctx) [0] (Dispatched e 2))\<rparr>)"
proof -
  have "conc_inv (\<lambda>_. ''{}'') sample_outbox c" using conc.reach_invar reach by blast
  then have "db_ok (\<lambda>_. ''{}'') (sy_db (cs_sys c))" by (simp add: conc_inv_def sys_inv_def)
  from dispatch_insert_again [OF sample_insertable [OF ctx, of e] this, of "sy_queue (cs_sys c) @
    make_envelopes (ob_registry sample_outbox) e [''audit'', ''bill'']"] new obtain tx' where
    "dispatch_insert sample_outbox (rq_world (sample_rq e ctx)) (rq_type (sample_rq e ctx)) (rq_ctx (sample_rq e ctx))
      (rq_event (sample_rq e ctx)) [0] (rq_handlers sample_outbox (sample_rq e ctx))
      (own_view (sample_rq e ctx) (cs_sys c)) = (Inr (Dispatched e 2), tx')"
    by simp
  from writes [OF _ _ this] conc_next [OF reach] at own now sample_starts [OF ctx, of e] show ?thesis by auto
qed

definition sample_labels :: "(string, sample_queue, nat) label list" where
  "sample_labels = [TReserve 0 (sample_rq 7 sample_dctx), TWrite 2 (sample_rq 9 plain_dctx),
    TWrite 0 (sample_rq 7 sample_dctx), TCommit 2 (sample_rq 9 plain_dctx) (Dispatched 9 2)]"

lemma sample_interleaving:
  obtains c c' where "conc_reach (\<lambda>_. ''{}'') sample_outbox sample_labels c"
    "conc_step (\<lambda>_. ''{}'') sample_outbox (TCommit 0 (sample_rq 7 sample_dctx) (Dispatched 7 2)) c c'"
    "\<forall>i. cs_task c' i = SIdle" "sy_now (cs_sys c') = 100"
    "dispatch_keys (sy_db (cs_sys c')) = reservation_rows (sample_world 7) sample_dctx"
proof -
  let ?r7 = "sample_rq 7 sample_dctx" and ?r9 = "sample_rq 9 plain_dctx"
  let ?c1 = "sample_conc\<lparr>cs_task := (cs_task sample_conc)(0 := SReserved ?r7 [0])\<rparr>"
  let ?c2 = "?c1\<lparr>cs_task := (cs_task ?c1)(2 := SWritten ?r9 [0] (Dispatched 9 2))\<rparr>"
  let ?c3 = "?c2\<lparr>cs_task := (cs_task ?c2)(0 := SWritten ?r7 [0] (Dispatched 7 2))\<rparr>"
  have init: "conc_reach (\<lambda>_. ''{}'') sample_outbox [] sample_conc"
    by (rule conc_start) (simp add: conc_init_def sample_conc_def sys_init_def sample_start_def)
  have "conc_step (\<lambda>_. ''{}'') sample_outbox (TReserve 0 ?r7) sample_conc
      (sample_conc\<lparr>cs_task := (cs_task sample_conc)(0 := if True then SReserved ?r7 [0] else SFound ?r7 7)\<rparr>)"
    by (rule reserves [where key = "''k1''"])
      (use sample_starts [of sample_dctx 7] sample_reservable in
        \<open>auto simp: sample_conc_def sample_start_def run_stmt_Inr reserve_rq_eq find_reservation_def empty_db_def\<close>)
  from conc_next [OF init this] have r1: "conc_reach (\<lambda>_. ''{}'') sample_outbox [TReserve 0 ?r7] ?c1" by simp
  have r2: "conc_reach (\<lambda>_. ''{}'') sample_outbox ([TReserve 0 ?r7] @ [TWrite 2 ?r9]) ?c2"
    by (rule sample_write [OF r1]) (simp_all add: sample_conc_def sample_start_def empty_db_def)
  have r3: "conc_reach (\<lambda>_. ''{}'') sample_outbox (([TReserve 0 ?r7] @ [TWrite 2 ?r9]) @ [TWrite 0 ?r7]) ?c3"
    by (rule sample_write [OF r2]) (simp_all add: sample_conc_def sample_start_def empty_db_def)
  have t2: "cs_task ?c3 2 = SWritten ?r9 [0] (Dispatched 9 2)" by simp
  note c4 = commits [where jt = "\<lambda>_. ''{}''" and ob = sample_outbox and h = "JObject []", OF t2 _ sample_pushed]
  from conc_next [OF r3 c4] obtain c4 where r4: "conc_reach (\<lambda>_. ''{}'') sample_outbox sample_labels c4"
    and t4: "cs_task c4 = (cs_task ?c3)(2 := SIdle)" "sy_now (cs_sys c4) = 100"
      "dispatch_keys (sy_db (cs_sys c4)) = []"
    by (simp add: sample_labels_def written_rows_def inserted_rows_def reservation_rows_def sample_conc_def
        sample_start_def empty_db_def)
  have t0: "cs_task c4 0 = SWritten ?r7 [0] (Dispatched 7 2)" by (simp add: t4(1))
  note c5 = commits [where jt = "\<lambda>_. ''{}''" and ob = sample_outbox and h = "JObject []", OF t0 _ sample_pushed]
  show ?thesis
    by (rule that [OF r4 c5])
      (simp_all add: t4 written_rows_def inserted_rows_def sample_conc_def)
qed

lemma sample_finds:
  obtains c where "conc_reach (\<lambda>_. ''{}'') sample_outbox (sample_labels @
      TCommit 0 (sample_rq 7 sample_dctx) (Dispatched 7 2) # [TReserve 1 (sample_rq 8 sample_dctx)]) c"
    "cs_task c 1 = SFound (sample_rq 8 sample_dctx) 7"
proof -
  let ?r8 = "sample_rq 8 sample_dctx"
  obtain c c' where r: "conc_reach (\<lambda>_. ''{}'') sample_outbox sample_labels c"
    and st: "conc_step (\<lambda>_. ''{}'') sample_outbox (TCommit 0 (sample_rq 7 sample_dctx) (Dispatched 7 2)) c c'"
    and c': "\<forall>i. cs_task c' i = SIdle" "sy_now (cs_sys c') = 100"
      "dispatch_keys (sy_db (cs_sys c')) = reservation_rows (sample_world 7) sample_dctx"
    by (rule sample_interleaving)
  have "dw_event_id (sample_world 7) = 7" by (simp add: sample_world_def)
  then have "conc_step (\<lambda>_. ''{}'') sample_outbox (TReserve 1 ?r8) c'
      (c'\<lparr>cs_task := (cs_task c')(1 := if False then SReserved ?r8 [0] else SFound ?r8 7)\<rparr>)"
    by (intro reserves [where key = "''k1''" and d' = "sy_db (cs_sys c')"])
      (use sample_starts [of sample_dctx 8] sample_reservable [of 8] c' in
        \<open>auto simp: run_stmt_Inr reserve_rq_eq find_reservation_def reservation_rows_def reservation_key_def\<close>)
  from conc_next [OF conc_next [OF r st] this] have "conc_reach (\<lambda>_. ''{}'') sample_outbox (sample_labels @
      TCommit 0 (sample_rq 7 sample_dctx) (Dispatched 7 2) # [TReserve 1 ?r8])
    (c'\<lparr>cs_task := (cs_task c')(1 := SFound ?r8 7)\<rparr>)" by simp
  then show ?thesis by (rule that) simp
qed

theorem concurrent_dispatch_serializable_witness:
  "\<exists>c c'. conc_reach (\<lambda>_. ''{}'') sample_outbox sample_labels c \<and>
    conc_step (\<lambda>_. ''{}'') sample_outbox (TCommit 0 (sample_rq 7 sample_dctx) (Dispatched 7 2)) c c' \<and>
    sys_reach (\<lambda>_. ''{}'') sample_outbox [ADispatch (sample_world 9) order_event plain_dctx 1] (cs_sys c) \<and>
    (\<exists>tx'. dispatch sample_outbox (sample_world 7) order_event sample_dctx 1
      \<lparr>tx_db = sy_db (cs_sys c), tx_queue = sy_queue (cs_sys c), tx_failed = False\<rparr> = (Inr (Dispatched 7 2), tx'))"
proof -
  obtain c c' where c: "conc_reach (\<lambda>_. ''{}'') sample_outbox sample_labels c"
    "conc_step (\<lambda>_. ''{}'') sample_outbox (TCommit 0 (sample_rq 7 sample_dctx) (Dispatched 7 2)) c c'"
    by (rule sample_interleaving)
  from concurrent_dispatch_serializable [OF c(1), of 0 "sample_rq 7 sample_dctx" "Dispatched 7 2" c'] c show ?thesis
    by (auto simp: sample_labels_def)
qed

theorem concurrent_dispatch_idempotent_witness:
  "\<exists>out2 c. conc_reach (\<lambda>_. ''{}'') sample_outbox (sample_labels @ TCommit 0 (sample_rq 7 sample_dctx) (Dispatched 7 2) #
      [TReserve 1 (sample_rq 8 sample_dctx)] @ [TCommit 1 (sample_rq 8 sample_dctx) out2]) c \<and> out2 = Duplicate 7"
proof -
  obtain c where c: "conc_reach (\<lambda>_. ''{}'') sample_outbox (sample_labels @
      TCommit 0 (sample_rq 7 sample_dctx) (Dispatched 7 2) # [TReserve 1 (sample_rq 8 sample_dctx)]) c"
    "cs_task c 1 = SFound (sample_rq 8 sample_dctx) 7"
    by (rule sample_finds)
  from conc_next [OF c(1) commits_found [OF c(2)]] obtain c' where
    c': "conc_reach (\<lambda>_. ''{}'') sample_outbox (sample_labels @ TCommit 0 (sample_rq 7 sample_dctx) (Dispatched 7 2) #
      [TReserve 1 (sample_rq 8 sample_dctx)] @ [TCommit 1 (sample_rq 8 sample_dctx) (Duplicate 7)]) c'"
    by simp
  from concurrent_dispatch_idempotent [OF c'] c' show ?thesis by force
qed

end
