(* ===== verification/Outbox_Tracing.thy ===== *)
theory Outbox_Tracing
  imports Outbox_Lifecycle Outbox_Purge Outbox_History
begin

text \<open>
  What the crate tells its operators: the spans of the \<open>#[tracing::instrument]\<close> attributes and the events of the
  \<open>tracing\<close> macros, with target, level and fields, for every operation that has them. The attribute macro is code
  of another crate and a parameter; \<open>instrument_ok\<close> states its documentation. A field is the value that is recorded,
  before a subscriber renders it; the free message of an event, a constant, is left out.
\<close>

section \<open>Spans and events\<close>

datatype level = LDebug | LInfo | LWarn | LError

text \<open>Recorded values: primitive ones, \<open>%\<close> and \<open>?\<close> of values with a fixed rendering, and the tree of a derived \<open>Debug\<close>.\<close>

datatype field =
    VStr string
  | VNum nat
  | VBool bool
  | VUuid uuid
  | VDuration duration
  | VPolicy PanicPolicy
  | VJson json_map
  | VOption "field option"
  | VStruct string "(string \<times> field) list"

type_synonym fields = "(string \<times> field) list"

record span =
  sp_target :: string
  sp_level :: level
  sp_fields :: fields

record tevent =
  te_target :: string
  te_level :: level
  te_fields :: fields

text \<open>
  \<open>#[tracing::instrument(skip(\<dots>), fields(\<dots>))]\<close>, given the arguments of the function with their recorded values.
  Documented: the level is INFO unless one is given; every argument is recorded under its name unless it is skipped or
  a field of that name is given; the given fields are recorded; nothing else is.
\<close>

record instrument =
  in_default_level :: level
  in_fields :: "fields \<Rightarrow> string list \<Rightarrow> fields \<Rightarrow> fields"

definition instrument_ok :: "instrument \<Rightarrow> bool" where
  "instrument_ok I \<longleftrightarrow> in_default_level I = LInfo \<and>
    (\<forall>args skip given. set (in_fields I args skip given) =
      {(n, v) \<in> set args. n \<notin> set skip \<and> n \<notin> fst ` set given} \<union> set given)"

section \<open>Spans\<close>

text \<open>\<open>#[derive(Debug)]\<close> on \<open>DispatchContext\<close>.\<close>

definition debug_DispatchContext :: "DispatchContext \<Rightarrow> field" where
  "debug_DispatchContext ctx = VStruct ''DispatchContext''
    [(''tenant_id'', VStr (dc_tenant_id ctx)), (''producer_bc'', VStr (dc_producer_bc ctx)),
     (''idempotency_key'', VOption (map_option VStr (dc_idempotency_key ctx))),
     (''headers'', VOption (map_option VJson (dc_headers ctx)))]"

text \<open>\<open>impl Debug for Outbox\<close>: two flags, nothing of the pool, the configuration or the handlers.\<close>

definition debug_Outbox :: "'b Outbox \<Rightarrow> field" where
  "debug_Outbox ob = VStruct ''Outbox''
    [(''allow_no_handlers'', VBool (ob_allow_no_handlers ob)), (''started'', VBool (ob_started ob))]"

text \<open>
  \<open>self\<close>, \<open>tx\<close> and \<open>event\<close>, which are skipped, have a value that does not matter; \<open>ctx\<close> has no \<open>Value\<close> of its own and
  is recorded by its \<open>Debug\<close>.
\<close>

definition dispatch_span ::
  "instrument \<Rightarrow> field \<times> field \<times> field \<Rightarrow> 'e DomainEvent \<Rightarrow> DispatchContext \<Rightarrow> span" where
  "dispatch_span I unused E ctx =
    \<lparr>sp_target = ''rust_events.dispatch'', sp_level = in_default_level I,
     sp_fields = in_fields I
       [(''self'', fst unused), (''tx'', fst (snd unused)), (''ctx'', debug_DispatchContext ctx),
        (''event'', snd (snd unused))]
       [''self'', ''tx'', ''event'']
       [(''event_type'', VStr (EVENT_TYPE E)), (''tenant_id'', VStr (dc_tenant_id ctx)),
        (''producer_bc'', VStr (dc_producer_bc ctx)),
        (''idempotency_key_set'', VBool (dc_idempotency_key ctx \<noteq> None))]\<rparr>"

definition handle_envelope_span ::
  "instrument \<Rightarrow> field \<times> field \<times> field \<Rightarrow> HandlerEnvelope \<Rightarrow> JobContext \<Rightarrow> span" where
  "handle_envelope_span I unused env ctx =
    \<lparr>sp_target = ''rust_events.worker'', sp_level = in_default_level I,
     sp_fields = in_fields I
       [(''self'', fst unused), (''env'', fst (snd unused)), (''ctx'', snd (snd unused))]
       [''self'', ''env'', ''ctx'']
       [(''event_id'', VUuid (env_event_id env)), (''handler_id'', VStr (env_handler_id env)),
        (''attempt'', VNum (unat (jc_attempt ctx))), (''max_attempts'', VNum (unat (jc_max_attempts ctx)))]\<rparr>"

definition history_event_span :: "instrument \<Rightarrow> field \<Rightarrow> uuid \<Rightarrow> span" where
  "history_event_span I unused event_id =
    \<lparr>sp_target = ''rust_events.history'', sp_level = in_default_level I,
     sp_fields = in_fields I [(''self'', unused), (''event_id'', VUuid event_id)] [''self''] []\<rparr>"

definition history_deliveries_span :: "instrument \<Rightarrow> field \<Rightarrow> uuid \<Rightarrow> span" where
  "history_deliveries_span I unused event_id =
    \<lparr>sp_target = ''rust_events.history'', sp_level = in_default_level I,
     sp_fields = in_fields I [(''self'', unused), (''event_id'', VUuid event_id)] [''self''] []\<rparr>"

text \<open>The three purges have the same attribute and the same arguments.\<close>

definition purge_span :: "instrument \<Rightarrow> field \<Rightarrow> duration \<Rightarrow> span" where
  "purge_span I unused older_than =
    \<lparr>sp_target = ''rust_events.purge'', sp_level = in_default_level I,
     sp_fields = in_fields I [(''pool'', unused), (''older_than'', VDuration older_than)] [''pool''] []\<rparr>"

section \<open>Events of dispatch, start and shutdown\<close>

definition event_dup :: "uuid \<Rightarrow> tevent" where
  "event_dup existing_event_id = \<lparr>te_target = ''rust_events.dispatch.dup'', te_level = LInfo,
    te_fields = [(''event_id'', VUuid existing_event_id)]\<rparr>"

definition event_empty :: "uuid \<Rightarrow> string \<Rightarrow> tevent" where
  "event_empty event_id event_type = \<lparr>te_target = ''rust_events.dispatch.empty'', te_level = LInfo,
    te_fields = [(''event_id'', VUuid event_id), (''event_type'', VStr event_type)]\<rparr>"

definition event_dispatched :: "uuid \<Rightarrow> nat \<Rightarrow> tevent" where
  "event_dispatched event_id n = \<lparr>te_target = ''rust_events.dispatch'', te_level = LDebug,
    te_fields = [(''event_id'', VUuid event_id), (''deliveries'', VNum n)]\<rparr>"

text \<open>Each event is emitted right before the \<open>return\<close> it announces; an error is returned without one.\<close>

fun dispatch_log :: "'e DomainEvent \<Rightarrow> (DispatchOutcome, 'p DispatchError) rresult \<Rightarrow> tevent list" where
  "dispatch_log E (Inl e) = []"
| "dispatch_log E (Inr (Duplicate event_id)) = [event_dup event_id]"
| "dispatch_log E (Inr (NoHandlers event_id)) = [event_empty event_id (EVENT_TYPE E)]"
| "dispatch_log E (Inr (Dispatched event_id n)) = [event_dispatched event_id n]"

definition start_log :: "('b, 'be, 'se, 'k, 'h) start_world \<Rightarrow> 'b Outbox \<Rightarrow> tevent list" where
  "start_log w ob =
    (if ob_started ob then []
     else case flavor_check ob w of
       Inr True \<Rightarrow> [\<lparr>te_target = ''rust_events.start.current_thread_runtime'', te_level = LWarn,
           te_fields = [(''concurrency'', VNum (unat (cfg_concurrency (ob_config ob))))]\<rparr>]
     | _ \<Rightarrow> [])"

definition shutdown_log ::
  "(duration \<Rightarrow> ('s, 'd) rresult \<times> duration) \<Rightarrow> timer \<Rightarrow> fault \<Rightarrow> duration option \<Rightarrow> duration \<Rightarrow> outbox_db \<Rightarrow>
   tevent list"
where
  "shutdown_log drain elapsed f query_time timeout d =
    (case drain timeout of
       (Inl e, _) \<Rightarrow> []
     | (Inr stats, spent) \<Rightarrow>
         (let remaining = remaining_budget timeout spent
          in if elapsed remaining query_time
             then [\<lparr>te_target = ''rust_events.shutdown.pending_count_timeout'', te_level = LWarn,
                    te_fields = [(''remaining_ms'', VNum (min (remaining div 1000000) u64_max))]\<rparr>]
             else case run_stmt f count_active d of
               (Inr n, _) \<Rightarrow> []
             | (Inl e, _) \<Rightarrow> [\<lparr>te_target = ''rust_events.shutdown.pending_count_err'', te_level = LWarn,
                    te_fields = [(''error'', VStr (redact_db_error e))]\<rparr>]))"

section \<open>Events of the worker\<close>

definition event_fenced_out :: "string \<Rightarrow> uuid \<Rightarrow> string \<Rightarrow> tevent" where
  "event_fenced_out new_status event_id handler_id = \<lparr>te_target = ''rust_events.audit.fenced_out'', te_level = LWarn,
    te_fields = [(''event_id'', VUuid event_id), (''handler_id'', VStr handler_id),
      (''attempted_status'', VStr new_status)]\<rparr>"

definition event_mark_pool_starved :: "string \<Rightarrow> uuid \<Rightarrow> string \<Rightarrow> string \<Rightarrow> tevent" where
  "event_mark_pool_starved kind event_id handler_id redacted =
    \<lparr>te_target = ''rust_events.audit.mark_pool_starved'', te_level = LWarn,
     te_fields = [(''event_id'', VUuid event_id), (''handler_id'', VStr handler_id), (''mark_kind'', VStr kind),
       (''error'', VStr redacted)]\<rparr>"

definition event_audit_missing :: "uuid \<Rightarrow> string \<Rightarrow> tevent" where
  "event_audit_missing event_id handler_id = \<lparr>te_target = ''rust_events.worker.audit_missing'', te_level = LError,
    te_fields = [(''event_id'', VUuid event_id), (''handler_id'', VStr handler_id)]\<rparr>"

definition event_skip :: "string \<Rightarrow> tevent" where
  "event_skip prev = \<lparr>te_target = ''rust_events.worker.skip'', te_level = LInfo,
    te_fields = [(''prev_status'', VStr prev)]\<rparr>"

definition event_audit_inconsistent :: "string \<Rightarrow> tevent" where
  "event_audit_inconsistent other = \<lparr>te_target = ''rust_events.worker.audit_inconsistent'', te_level = LError,
    te_fields = [(''prev_status'', VStr other)]\<rparr>"

definition event_handler_not_registered :: "string \<Rightarrow> tevent" where
  "event_handler_not_registered handler_id =
    \<lparr>te_target = ''rust_events.worker.handler_not_registered'', te_level = LError,
     te_fields = [(''handler_id'', VStr handler_id)]\<rparr>"

definition event_panic :: "uuid \<Rightarrow> string \<Rightarrow> string \<Rightarrow> PanicPolicy \<Rightarrow> tevent" where
  "event_panic event_id handler_id msg policy = \<lparr>te_target = ''rust_events.worker.panic'', te_level = LError,
    te_fields = [(''event_id'', VUuid event_id), (''handler_id'', VStr handler_id), (''panic'', VStr msg),
      (''policy'', VPolicy policy)]\<rparr>"

definition event_handler_timeout :: "uuid \<Rightarrow> string \<Rightarrow> u32 \<Rightarrow> u32 \<Rightarrow> duration \<Rightarrow> tevent" where
  "event_handler_timeout event_id handler_id attempt max_attempts eff =
    \<lparr>te_target = ''rust_events.worker.handler_timeout'', te_level = LWarn,
     te_fields = [(''event_id'', VUuid event_id), (''handler_id'', VStr handler_id),
       (''attempt'', VNum (unat attempt)), (''max_attempts'', VNum (unat max_attempts)),
       (''effective_timeout'', VDuration eff)]\<rparr>"

definition event_skipped :: "string \<Rightarrow> tevent" where
  "event_skipped reason = \<lparr>te_target = ''rust_events.worker.skipped'', te_level = LInfo,
    te_fields = [(''reason'', VStr reason)]\<rparr>"

text \<open>The entries of the traces that \<open>handle_envelope\<close> returns, as the events they stand for.\<close>

fun traced :: "trace_event \<Rightarrow> tevent" where
  "traced (FencedOut new_status e h) = event_fenced_out new_status e h"
| "traced (MarkPoolStarved kind e h redacted) = event_mark_pool_starved kind e h redacted"
| "traced (AuditMissing e h) = event_audit_missing e h"
| "traced (WorkerSkip prev) = event_skip prev"
| "traced (AuditInconsistent other) = event_audit_inconsistent other"
| "traced (HandlerNotRegistered h) = event_handler_not_registered h"
| "traced (WorkerPanic e h msg policy) = event_panic e h msg policy"
| "traced (WorkerHandlerTimeout e h a m eff) = event_handler_timeout e h a m eff"
| "traced (WorkerSkipped reason) = event_skipped reason"

lemmas worker_event_defs = event_fenced_out_def event_mark_pool_starved_def event_audit_missing_def event_skip_def
  event_audit_inconsistent_def event_handler_not_registered_def event_panic_def event_handler_timeout_def
  event_skipped_def

lemma traced_error_iff:
  "te_level (traced t) = LError \<longleftrightarrow> (\<exists>e h. t = AuditMissing e h) \<or> (\<exists>s. t = AuditInconsistent s) \<or>
    (\<exists>h. t = HandlerNotRegistered h) \<or> (\<exists>e h m p. t = WorkerPanic e h m p)"
  by (cases t) (simp_all add: worker_event_defs)

section \<open>Properties of the spans\<close>

lemma span_levels:
  assumes "instrument_ok I"
  shows "sp_level (dispatch_span I u E ctx) = LInfo" "sp_level (handle_envelope_span I u env jctx) = LInfo"
    "sp_level (history_event_span I x e) = LInfo" "sp_level (history_deliveries_span I x e) = LInfo"
    "sp_level (purge_span I x age) = LInfo"
  using assms by (simp_all add: instrument_ok_def dispatch_span_def handle_envelope_span_def
      history_event_span_def history_deliveries_span_def purge_span_def)

lemma dispatch_span_fields:
  assumes "instrument_ok I"
  shows "set (sp_fields (dispatch_span I u E ctx)) =
    {(''ctx'', debug_DispatchContext ctx), (''event_type'', VStr (EVENT_TYPE E)),
     (''tenant_id'', VStr (dc_tenant_id ctx)), (''producer_bc'', VStr (dc_producer_bc ctx)),
     (''idempotency_key_set'', VBool (dc_idempotency_key ctx \<noteq> None))}"
  using assms by (auto simp: instrument_ok_def dispatch_span_def)

lemma map_option_inject: "inj f \<Longrightarrow> map_option f x = map_option f y \<longleftrightarrow> x = y"
  by (cases x; cases y) (auto dest: injD)

lemma debug_DispatchContext_inject: "debug_DispatchContext c = debug_DispatchContext c' \<longleftrightarrow> c = c'"
  by (auto simp: debug_DispatchContext_def map_option_inject inj_def)

text \<open>
  (C30) What the span of a dispatch tells. Besides the four documented fields, the argument \<open>ctx\<close>, which the attribute does not
  skip, is recorded with its \<open>Debug\<close>: two dispatches of one event type have equal span fields only if their whole contexts
  are equal, idempotency key and headers included. The documentation promises that only whether a key
  is set is recorded, never its value.
\<close>

theorem dispatch_span_reveals_key:
  assumes "instrument_ok I"
  shows "(''ctx'', debug_DispatchContext ctx) \<in> set (sp_fields (dispatch_span I u E ctx)) \<and>
    (''idempotency_key_set'', VBool (dc_idempotency_key ctx \<noteq> None)) \<in> set (sp_fields (dispatch_span I u E ctx)) \<and>
    (set (sp_fields (dispatch_span I u E ctx)) = set (sp_fields (dispatch_span I u E ctx')) \<longleftrightarrow> ctx = ctx')"
proof -
  have "ctx = ctx'" if "set (sp_fields (dispatch_span I u E ctx)) = set (sp_fields (dispatch_span I u E ctx'))"
  proof -
    have "(''ctx'', debug_DispatchContext ctx) \<in> set (sp_fields (dispatch_span I u E ctx'))"
      unfolding that [symmetric] by (simp add: dispatch_span_fields [OF assms])
    then show ?thesis by (simp add: dispatch_span_fields [OF assms] debug_DispatchContext_inject)
  qed
  then show ?thesis by (auto simp: dispatch_span_fields [OF assms])
qed

definition sample_instrument :: instrument where
  "sample_instrument = \<lparr>in_default_level = LInfo,
    in_fields = (\<lambda>args skip given. filter (\<lambda>(n, v). n \<notin> set skip \<and> n \<notin> fst ` set given) args @ given)\<rparr>"

theorem dispatch_span_reveals_key_witness:
  "set (sp_fields (dispatch_span sample_instrument (VNum 0, VNum 0, VNum 0) order_event
      (with_idempotency_key ''k1'' (DispatchContext_new ''acme'')))) \<noteq>
   set (sp_fields (dispatch_span sample_instrument (VNum 0, VNum 0, VNum 0) order_event
      (with_idempotency_key ''k2'' (DispatchContext_new ''acme''))))"
proof -
  have "instrument_ok sample_instrument" by (auto simp: instrument_ok_def sample_instrument_def)
  moreover have "with_idempotency_key ''k1'' (DispatchContext_new ''acme'') \<noteq>
      with_idempotency_key ''k2'' (DispatchContext_new ''acme'')"
    by (simp add: with_idempotency_key_def DispatchContext_new_def)
  ultimately show ?thesis using dispatch_span_reveals_key by blast
qed

section \<open>Properties of the worker's events\<close>

lemma mark_trace_quiet:
  assumes "settle_mark x v f now e h t d = (res, d', tr)" and "y \<in> set tr"
  shows "te_level (traced y) \<noteq> LError"
  using assms
  by (cases v rule: result_cases)
    (auto simp: mark_sent_fenced_def mark_awaiting_retry_fenced_def mark_dead_fenced_def mark_skipped_fenced_def
      execute_mark_def Let_def map_mark_err_def log_fenced_out_def worker_event_defs
      split: prod.splits sum.splits if_splits)

lemma settle_trace_quiet:
  assumes "settle f now env ctx v d = (res, d', tr)" and "y \<in> set tr"
  shows "te_level (traced y) \<noteq> LError"
proof -
  obtain r d1 tr1 where m: "settle_mark (attempts_exhausted ctx) v f now (env_event_id env) (env_handler_id env)
      (jc_lease_token ctx) d = (r, d1, tr1)" by (metis prod.exhaust)
  have "tr = settle_trace v @ tr1"
    using assms(1) m by (cases r) (auto simp: settle_eq)
  moreover have "te_level (traced y) \<noteq> LError" if "y \<in> set (settle_trace v)"
    using that by (cases v rule: result_cases) (auto simp: worker_event_defs)
  ultimately show ?thesis using assms(2) mark_trace_quiet [OF m] by auto
qed

lemma invoke_handler_trace_error:
  assumes "invoke_handler rt elapsed env ctx rh payload hctx = (out, tr)" and "y \<in> set tr"
    and "te_level (traced y) = LError"
  shows "\<exists>p. ending (rh_handler rh payload hctx) = Panicked p \<and>
    y = WorkerPanic (env_event_id env) (env_handler_id env) (sanitize_reason (panic_payload_message p))
      (cfg_panic_policy (rt_config rt))"
  using assms
  by (auto simp: invoke_handler_def Let_def worker_event_defs split: if_splits ending.splits PanicPolicy.splits)

lemma process_claimed_trace_error:
  assumes "process_claimed rt elapsed io others env ctx (claim_view ev keys prev upd) d = (res, d', tr)" and "y \<in> set tr"
    and "te_level (traced y) = LError"
  shows "y = HandlerNotRegistered (env_handler_id env) \<and> lookup (rt_registry rt) (env_handler_id env) = None \<or>
    (\<exists>rh p. lookup (rt_registry rt) (env_handler_id env) = Some rh \<and>
      ending (rh_handler rh (ev_payload ev) (delivery_context ev keys env ctx)) = Panicked p \<and>
      y = WorkerPanic (env_event_id env) (env_handler_id env) (sanitize_reason (panic_payload_message p))
        (cfg_panic_policy (rt_config rt)))"
proof (cases "lookup (rt_registry rt) (env_handler_id env)")
  case None
  obtain r d1 tr1 where m: "settle_mark True (Inl (Abort ''handler not registered'')) (io_mark_fault io) (io_mark_now io)
      (env_event_id env) (env_handler_id env) (jc_lease_token ctx) (others d) = (r, d1, tr1)"
    by (metis prod.exhaust)
  then have "tr = HandlerNotRegistered (env_handler_id env) # tr1"
    using assms(1) None by (cases r) (auto simp: process_claimed_def)
  with None assms(2,3) mark_trace_quiet [OF m] show ?thesis by auto
next
  case (Some rh)
  from assms(1) obtain out v tr1 tr2 d1 res' where
    i: "invoke_handler rt elapsed env ctx rh (ev_payload ev) (delivery_context ev keys env ctx) = (out, tr1)"
    and s: "settle (io_mark_fault io) (io_mark_now io) env ctx v (others d) = (res', d1, tr2)" and tr: "tr = tr1 @ tr2"
    by (auto simp: process_claimed_def Some claim_view_def delivery_context_def split: prod.splits)
  with assms(2,3) settle_trace_quiet [OF s] have "y \<in> set tr1" by auto
  from invoke_handler_trace_error [OF i this assms(3)] Some show ?thesis by blast
qed

text \<open>
  (C29) No false alarm. An event of level ERROR from the worker has a real cause: the delivery row is gone (and then nothing is
  written), no handler is registered under the job's id, or the handler panicked, and the event then carries the
  sanitized message. In particular the report of an inconsistent audit row is never made: the branch of the code
  that makes it cannot be reached.
\<close>

theorem worker_error_events:
  assumes "handle_envelope rt elapsed io others env ctx d = (res, d', tr)" and "y \<in> set tr"
    and "te_level (traced y) = LError"
  shows "y = AuditMissing (env_event_id env) (env_handler_id env) \<and> d' = d \<and>
      find_delivery (env_event_id env, env_handler_id env) (deliveries d) = None \<or>
    y = HandlerNotRegistered (env_handler_id env) \<and> lookup (rt_registry rt) (env_handler_id env) = None \<or>
    (\<exists>rh ev p. lookup (rt_registry rt) (env_handler_id env) = Some rh \<and>
      find_event (env_event_id env) (events d) = Some ev \<and>
      ending (rh_handler rh (ev_payload ev) (delivery_context ev (dispatch_keys d) env ctx)) = Panicked p \<and>
      y = WorkerPanic (env_event_id env) (env_handler_id env) (sanitize_reason (panic_payload_message p))
        (cfg_panic_policy (rt_config rt)))"
proof -
  let ?e = "env_event_id env" and ?h = "env_handler_id env"
  from assms(1,2) obtain row d1 where
    c: "claim_stmt (io_claim_now io) ?e ?h (attempt_param (jc_attempt ctx)) (jc_lease_token ctx) d = Inr (Some row, d1)"
    and rest: "(case cr_prev_status row of
        None \<Rightarrow> (Inl (JobAbort ''handler_delivery row not found''), d1, [AuditMissing ?e ?h])
      | Some prev \<Rightarrow>
          if \<not> cr_did_update row then
            if prev \<in> {''sent'', ''dead'', ''skipped''} then (Inr (), d1, [WorkerSkip prev])
            else (Inl (JobRetry ''audit row UPDATE collision'' None), d1, [AuditInconsistent prev])
          else process_claimed rt elapsed io others env ctx row d1) = (res, d', tr)"
    by (auto simp: handle_envelope_def run_stmt_def split: fault.splits sum.splits prod.splits option.splits)
  from c obtain ev n where u: "update_deliveries (io_claim_now io) (claimable ?e ?h)
        (claim_set (io_claim_now io) (attempt_param (jc_attempt ctx)) (jc_lease_token ctx)) d = Inr (n, d1)"
    and row: "row = claim_view ev (dispatch_keys d) (find_delivery (?e, ?h) (deliveries d)) (n \<noteq> 0)"
    and ev: "find_event ?e (events d) = Some ev"
    by (auto simp: claim_stmt_eq split: if_splits sum.splits)
  show ?thesis
  proof (cases "find_delivery (?e, ?h) (deliveries d)")
    case None
    then have "\<not> claimable ?e ?h r" if "r \<in> set (deliveries d)" for r
      using that by (force simp: hd_tab.look_None_iff claimable_def)
    then have "d1 = d" using u update_deliveries_no_match by (metis Inr_inject prod.inject)
    with None rest assms(2) show ?thesis by (auto simp: row claim_view_def)
  next
    case (Some r)
    have "claimable ?e ?h r \<or> terminal_status (hd_status r)" "r \<in> set (deliveries d)"
      using hd_tab.look_SomeD [OF Some] by (auto simp: claimable_def)
    then have "n \<noteq> 0 \<or> as_str (hd_status r) \<in> {''sent'', ''dead'', ''skipped''}"
      using update_deliveries_frame(5) [OF u] by (auto simp: rows_matching_def filter_empty_conv terminal_status_def)
    moreover have view: "cr_prev_status row = Some (as_str (hd_status r))" "cr_did_update row \<longleftrightarrow> n \<noteq> 0"
      by (simp_all add: row claim_view_def Some)
    ultimately have "process_claimed rt elapsed io others env ctx row d1 = (res, d', tr)"
      using rest assms(2,3) by (auto simp: worker_event_defs split: if_splits)
    from process_claimed_trace_error [OF this [unfolded row] assms(2,3)] ev show ?thesis by blast
  qed
qed

theorem worker_error_events_witness:
  "\<exists>res d' tr. handle_envelope sample_rt sample_timer sample_io id (sample_env\<lparr>env_handler_id := ''gone''\<rparr>) sample_ctx
      sample_db = (res, d', tr) \<and> AuditMissing 7 ''gone'' \<in> set tr \<and> d' = sample_db"
proof -
  let ?env = "sample_env\<lparr>env_handler_id := ''gone''\<rparr>"
  have none: "\<not> claimable 7 ''gone'' r" if "r \<in> set (deliveries sample_db)" for r
    using that by (auto simp: sample_db_def sample_delivery_def claimable_def delivery_key_def)
  have "find_delivery (7, ''gone'') (deliveries sample_db) = None"
    by (simp add: sample_db_def sample_delivery_def find_delivery_def delivery_key_def)
  then have h: "handle_envelope sample_rt sample_timer sample_io id ?env sample_ctx sample_db =
      (Inl (JobAbort ''handler_delivery row not found''), sample_db, [AuditMissing 7 ''gone''])"
    using claim_inactive [OF none] sample_lookups
    by (simp add: handle_envelope_def run_stmt_def sample_io_def sample_env_def text_ok_def claim_view_def)
  have "AuditMissing 7 ''gone'' \<in> set [AuditMissing 7 ''gone'']" "te_level (traced (AuditMissing 7 ''gone'')) = LError"
    by (simp_all add: worker_event_defs)
  from worker_error_events [OF h this] h show ?thesis by auto
qed

end
