(* ===== verification/Outbox_Migrator.thy ===== *)
theory Outbox_Migrator
  imports Outbox_Prelude
begin

text \<open>
  The migrator of \<^verbatim>\<open>src/src/migrator.rs\<close>: the embedded migrations, by their versions, and the option that lets two
  libraries share one table of applied migrations. Running a migrator is code of \<open>sqlx\<close> and a parameter;
  \<open>migrate_ok\<close> states its documentation. The schema that the migration creates is modelled in \<open>Outbox_Schema\<close>.
\<close>

record Migrator =
  mg_migrations :: "nat list"
  mg_ignore_missing :: bool

text \<open>\<open>sqlx::migrate!\<close> embeds the directory's one file, with the version of its name; it does not ignore missing migrations.\<close>

definition embedded :: Migrator where
  "embedded = \<lparr>mg_migrations = [20260513000001], mg_ignore_missing = False\<rparr>"

definition migrator :: Migrator where
  "migrator = embedded\<lparr>mg_ignore_missing := True\<rparr>"

text \<open>
  \<open>Migrator::run\<close> on the versions recorded in \<open>_sqlx_migrations\<close>. Documented: a recorded version that the migrator does not
  have is an error (\<open>None\<close>) unless missing ones are ignored; otherwise every migration that is not recorded
  is applied and recorded.
\<close>

definition migrate_ok :: "(Migrator \<Rightarrow> nat set \<Rightarrow> nat set option) \<Rightarrow> bool" where
  "migrate_ok run \<longleftrightarrow> (\<forall>m applied. run m applied =
    (if \<not> mg_ignore_missing m \<and> \<not> applied \<subseteq> set (mg_migrations m) then None
     else Some (applied \<union> set (mg_migrations m))))"

text \<open>
  The crate's migrator and one of another library that ignores missing migrations can run in either order, on
  whatever was applied before, and again; both orders apply the same migrations.
\<close>

lemma migrators_commute:
  assumes "migrate_ok run" and "mg_ignore_missing other"
  shows "Option.bind (run migrator applied) (run other) = Option.bind (run other applied) (run migrator)"
    "run migrator applied = Some (insert 20260513000001 applied)"
    "Option.bind (run migrator applied) (run migrator) = run migrator applied"
  using assms by (auto simp: migrate_ok_def migrator_def embedded_def)

text \<open>Without the option the second to run would fail: the other library's versions would be missing.\<close>

lemma option_needed:
  assumes "migrate_ok run" and "v \<in> applied" and "v \<noteq> 20260513000001"
  shows "run embedded applied = None" "run migrator applied \<noteq> None"
  using assms by (auto simp: migrate_ok_def migrator_def embedded_def)

end
