(* ===== verification/Outbox_Unit_Tests.thy ===== *)
theory Outbox_Unit_Tests
  imports Outbox_Builder
begin

text \<open>
  The crate's own unit tests (\<open>mod tests\<close> of \<^verbatim>\<open>util.rs\<close>, \<^verbatim>\<open>builder.rs\<close>, \<^verbatim>\<open>handler.rs\<close> and \<^verbatim>\<open>dispatch_context.rs\<close>), translated and run on
  the model: each assertion of a test is a conjunct, and the lemmas show that every test passes. They
  validate the definitions on the inputs the authors chose. (Only \<open>is_constraint_violation_types_compile\<close>
  is left out, which tests that a signature compiles.)
\<close>

section \<open>util.rs\<close>

text \<open>Text with characters outside ASCII is given by its code points.\<close>

definition sanitize_reason_strips_nul :: bool where
  "sanitize_reason_strips_nul \<longleftrightarrow>
    (let out = sanitize_reason (''err'' @ CHR 0x00 # ''msg'') in out = ''err?msg'' \<and> CHR 0x00 \<notin> set out)"

definition sanitize_reason_strips_ansi_escape :: bool where
  "sanitize_reason_strips_ansi_escape \<longleftrightarrow>
    (let out = sanitize_reason (CHR 0x1B # ''[31mred'' @ CHR 0x1B # ''[0m'')
     in out = ''?[31mred?[0m'' \<and> CHR 0x1B \<notin> set out)"

definition sanitize_reason_strips_cr_lf_bel_del :: bool where
  "sanitize_reason_strips_cr_lf_bel_del \<longleftrightarrow>
    sanitize_reason [CHR ''a'', CHR 0x0D, CHR ''b'', CHR 0x0A, CHR ''c'', CHR 0x07, CHR ''d'', CHR 0x7F, CHR ''e''] =
      ''a?b?c?d?e''"

definition sanitize_reason_passes_through_printable_utf8 :: bool where
  "sanitize_reason_passes_through_printable_utf8 \<longleftrightarrow>
    (let s = encode_utf8 [0x142, 0xF3, 0x64, 0x17A, 0x20, 0x1F980, 0x20, 0x4F, 0x4B] in sanitize_reason s = s)"

definition sanitize_reason_preserves_byte_count_per_char :: bool where
  "sanitize_reason_preserves_byte_count_per_char \<longleftrightarrow>
    (let s = [CHR 0x00, CHR 0x07, CHR 0x1B] in length (sanitize_reason s) = length s)"

definition truncate_utf8_ascii :: bool where
  "truncate_utf8_ascii \<longleftrightarrow> truncate_utf8 ''abcdef'' 3 = ''abc''"

definition truncate_utf8_multibyte_does_not_split_codepoint :: bool where
  "truncate_utf8_multibyte_does_not_split_codepoint \<longleftrightarrow>
    truncate_utf8 (encode_utf8 [0x61, 0x62, 0x1F980, 0x63, 0x64]) 3 = ''ab''"

definition truncate_utf8_max_larger_than_len_returns_whole :: bool where
  "truncate_utf8_max_larger_than_len_returns_whole \<longleftrightarrow> truncate_utf8 ''abc'' 100 = ''abc''"

definition truncate_utf8_zero_max :: bool where
  "truncate_utf8_zero_max \<longleftrightarrow> truncate_utf8 ''abc'' 0 = ''''"

definition parse_headers_object_passthrough :: bool where
  "parse_headers_object_passthrough \<longleftrightarrow>
    map_of (parse_headers (JObject [(''a'', JNumber ''1''), (''b'', JString ''x'')])) ''a'' = Some (JNumber ''1'')"

definition parse_headers_non_object_returns_empty :: bool where
  "parse_headers_non_object_returns_empty \<longleftrightarrow>
    parse_headers (JArray [JNumber ''1'', JNumber ''2'', JNumber ''3'']) = []"

definition redact_db_error_pool_closed :: bool where
  "redact_db_error_pool_closed \<longleftrightarrow> redact_db_error PoolClosed = ''db_error kind=pool_closed''"

definition redact_db_error_pool_timed_out :: bool where
  "redact_db_error_pool_timed_out \<longleftrightarrow> redact_db_error PoolTimedOut = ''db_error kind=pool_timed_out''"

definition redact_db_error_row_not_found :: bool where
  "redact_db_error_row_not_found \<longleftrightarrow> redact_db_error RowNotFound = ''db_error kind=row_not_found''"

definition redact_db_error_starts_with_prefix :: bool where
  "redact_db_error_starts_with_prefix \<longleftrightarrow>
    list_all (\<lambda>e. starts_with (redact_db_error e) ''db_error '') [PoolClosed, PoolTimedOut, RowNotFound]"

lemma sanitize_tests:
  sanitize_reason_strips_nul sanitize_reason_strips_ansi_escape sanitize_reason_strips_cr_lf_bel_del
  sanitize_reason_passes_through_printable_utf8 sanitize_reason_preserves_byte_count_per_char
  unfolding sanitize_reason_strips_nul_def sanitize_reason_strips_ansi_escape_def
    sanitize_reason_strips_cr_lf_bel_del_def sanitize_reason_preserves_byte_count_per_char_def
  by (simp_all add: sanitize_reason_ascii sanitize_reason_encode sanitize_char_def is_control_def is_scalar_def
      sanitize_reason_passes_through_printable_utf8_def Let_def del: encode_utf8_Cons)

lemma truncate_tests:
  truncate_utf8_ascii truncate_utf8_multibyte_does_not_split_codepoint
  truncate_utf8_max_larger_than_len_returns_whole truncate_utf8_zero_max
proof -
  have "truncate_utf8 (encode_utf8 [0x61, 0x62, 0x1F980, 0x63, 0x64]) 3 = encode_utf8 [0x61, 0x62]"
    by (subst truncate_utf8_encode) (simp_all add: is_scalar_def char_width_def)
  moreover have "encode_utf8 [0x61, 0x62] = ''ab''"
    using char_of_char [of "CHR ''a''"] char_of_char [of "CHR ''b''"] by (simp add: encode_char_def)
  ultimately show truncate_utf8_multibyte_does_not_split_codepoint
    by (simp only: truncate_utf8_multibyte_does_not_split_codepoint_def)
qed (simp_all add: truncate_utf8_ascii_def truncate_utf8_max_larger_than_len_returns_whole_def truncate_utf8_zero_max_def
    truncate_utf8_def eval_nat_numeral is_char_boundary_def is_continuation_def)

lemma parse_headers_tests:
  parse_headers_object_passthrough parse_headers_non_object_returns_empty
  by (simp_all add: parse_headers_object_passthrough_def parse_headers_non_object_returns_empty_def)

text \<open>The prefix that the last test checks on three errors holds of all (\<open>redact_db_error_prefix\<close>).\<close>

lemma redact_tests:
  redact_db_error_pool_closed redact_db_error_pool_timed_out redact_db_error_row_not_found
  redact_db_error_starts_with_prefix
  by (simp_all add: redact_db_error_pool_closed_def redact_db_error_pool_timed_out_def
      redact_db_error_row_not_found_def redact_db_error_starts_with_prefix_def redact_db_error_prefix)

section \<open>builder.rs\<close>

definition handler_options_records_timeout_override :: bool where
  "handler_options_records_timeout_override \<longleftrightarrow>
    opt_handler_timeout (options_handler_timeout (from_secs 180) HandlerOptions_new) = Some (from_secs 180)"

definition handler_options_default_has_no_override :: bool where
  "handler_options_default_has_no_override \<longleftrightarrow> opt_handler_timeout HandlerOptions_new = None"

definition handler_options_last_timeout_wins :: bool where
  "handler_options_last_timeout_wins \<longleftrightarrow>
    opt_handler_timeout (options_handler_timeout (from_secs 2) (options_handler_timeout (from_secs 1) HandlerOptions_new)) =
      Some (from_secs 2)"

definition handler_options_records_concurrency_limit :: bool where
  "handler_options_records_concurrency_limit \<longleftrightarrow>
    opt_concurrency_limit (options_concurrency_limit 4 HandlerOptions_new) = Some 4"

definition handler_options_default_has_no_concurrency_limit :: bool where
  "handler_options_default_has_no_concurrency_limit \<longleftrightarrow> opt_concurrency_limit HandlerOptions_new = None"

definition handler_options_last_concurrency_limit_wins :: bool where
  "handler_options_last_concurrency_limit_wins \<longleftrightarrow>
    opt_concurrency_limit (options_concurrency_limit 8 (options_concurrency_limit 1 HandlerOptions_new)) = Some 8"

lemmas options_defs = HandlerOptions_new_def options_handler_timeout_def options_concurrency_limit_def

lemma handler_options_tests:
  handler_options_records_timeout_override handler_options_default_has_no_override handler_options_last_timeout_wins
  handler_options_records_concurrency_limit handler_options_default_has_no_concurrency_limit
  handler_options_last_concurrency_limit_wins
  unfolding handler_options_records_timeout_override_def handler_options_default_has_no_override_def
    handler_options_last_timeout_wins_def handler_options_records_concurrency_limit_def
    handler_options_default_has_no_concurrency_limit_def handler_options_last_concurrency_limit_wins_def
  by (simp_all add: options_defs)

section \<open>handler.rs and dispatch\_context.rs\<close>

text \<open>
  The tests of \<open>retry_at\<close> read the clock twice; \<open>test_now\<close> is the first reading and \<open>now\<close> the second, which the tests
  allow to be up to two seconds later.
\<close>

definition retry_at_future_yields_positive_delay :: "timestamp \<Rightarrow> timestamp \<Rightarrow> bool" where
  "retry_at_future_yields_positive_delay test_now now \<longleftrightarrow>
    (case handler_retry_at ''after window'' (test_now + int (from_secs 30)) now of
       Retry reason (Some delay) \<Rightarrow> from_secs 28 \<le> delay \<and> delay \<le> from_secs 31
     | _ \<Rightarrow> False)"

definition retry_at_past_yields_zero_delay :: "timestamp \<Rightarrow> timestamp \<Rightarrow> bool" where
  "retry_at_past_yields_zero_delay test_now now \<longleftrightarrow>
    (case handler_retry_at ''late'' (test_now - int (from_secs 10)) now of
       Retry reason retry_in \<Rightarrow> retry_in = Some 0
     | _ \<Rightarrow> False)"

definition retry_at_carries_reason :: "timestamp \<Rightarrow> timestamp \<Rightarrow> bool" where
  "retry_at_carries_reason test_now now \<longleftrightarrow>
    (case handler_retry_at ''rate_limited'' test_now now of
       Retry reason retry_in \<Rightarrow> reason = ''rate_limited''
     | _ \<Rightarrow> False)"

lemma retry_at_tests:
  assumes "test_now \<le> now" and "now \<le> test_now + int (from_secs 2)"
  shows "retry_at_future_yields_positive_delay test_now now" "retry_at_past_yields_zero_delay test_now now"
    "retry_at_carries_reason test_now now"
  using assms
  by (auto simp: retry_at_future_yields_positive_delay_def retry_at_past_yields_zero_delay_def
      retry_at_carries_reason_def handler_retry_at_def from_secs_def)

definition new_sets_tenant :: bool where
  "new_sets_tenant \<longleftrightarrow> (let ctx = DispatchContext_new ''acme''
    in dc_tenant_id ctx = ''acme'' \<and> dc_producer_bc ctx = '''' \<and> dc_idempotency_key ctx = None)"

definition with_producer_bc_chains :: bool where
  "with_producer_bc_chains \<longleftrightarrow> dc_producer_bc (with_producer_bc ''shop'' (DispatchContext_new ''acme'')) = ''shop''"

definition with_idempotency_key_chains :: bool where
  "with_idempotency_key_chains \<longleftrightarrow>
    dc_idempotency_key (with_idempotency_key ''order:42'' (DispatchContext_new ''acme'')) = Some ''order:42''"

definition with_headers_chains :: bool where
  "with_headers_chains \<longleftrightarrow>
    dc_headers (with_headers [(''trace'', JString ''abc'')] (DispatchContext_new ''acme'')) \<noteq> None"

lemma dispatch_context_tests:
  new_sets_tenant with_producer_bc_chains with_idempotency_key_chains with_headers_chains
  unfolding new_sets_tenant_def with_producer_bc_chains_def with_idempotency_key_chains_def with_headers_chains_def
  by (simp_all add: DispatchContext_new_def with_producer_bc_def with_idempotency_key_def with_headers_def Let_def)

end
