(* ===== verification/Spec2Isabelle.thy ===== *)
theory Spec2Isabelle
  imports Outbox_Quick_Start Outbox_Transactions Outbox_Tracing Outbox_Migrator Outbox_Unit_Tests
begin

text \<open>
  A verification of \<open>rust_events\<close>, a transactional outbox for Rust services on Postgres.

  \<^bold>\<open>The program.\<close> A producer calls \<open>Outbox::dispatch\<close> in its own transaction: the event, one delivery row for each
  handler registered for its type, an optional idempotency reservation and one job per delivery for the queue of
  \<open>pg_work_queue\<close> are written together or not at all. A worker, started once per process by \<open>Outbox::start\<close>, is
  called back for every claimed job: \<open>handle_envelope\<close> claims the delivery row under the job's lease token, runs the
  user's handler under a timeout that also catches panics, and writes the verdict with an update that is fenced by
  status and lease. \<open>History\<close> reads the tables, three purge functions shrink them, \<open>OutboxHandle::shutdown\<close>
  drains the worker and counts what is left.

  \<^bold>\<open>The theories\<close>, each with the part of \<^verbatim>\<open>src/src\<close> that it models:
  \<^item> \<open>Outbox_Prelude\<close>: the types of the model, tables as lists of rows, and two interfaces as locales, a table with a
    key (\<open>keyed_table\<close>) and a transition system with an invariant (\<open>invariant_system\<close>).
  \<^item> \<open>Outbox_Text\<close> (\<^verbatim>\<open>util.rs\<close>): UTF-8, \<open>sanitize_reason\<close>, \<open>truncate_utf8\<close>.
  \<^item> \<open>Outbox_Errors\<close> (\<^verbatim>\<open>limits.rs\<close>, \<^verbatim>\<open>error.rs\<close>, the rest of \<^verbatim>\<open>util.rs\<close>): constants, error types, their classification,
    redaction and texts.
  \<^item> \<open>Outbox_Handler\<close> (\<^verbatim>\<open>handler.rs\<close>, \<^verbatim>\<open>dispatch_context.rs\<close>, \<^verbatim>\<open>envelope.rs\<close>, \<^verbatim>\<open>outcome.rs\<close>, \<open>TypedHandler\<close> of \<^verbatim>\<open>registry.rs\<close>):
    the data that flows between producer, worker and handlers; a handler's future is the time it takes and how it ends.
  \<^item> \<open>Outbox_Builder\<close> (\<^verbatim>\<open>builder.rs\<close>, \<^verbatim>\<open>registry.rs\<close>, the struct \<open>Outbox\<close>): both builders and the registry; the locale
    \<open>handler_registry\<close> is what dispatch and worker rely on.
  \<^item> \<open>Outbox_Schema\<close> (the migration under \<^verbatim>\<open>src/migrations\<close>, \<open>DeliveryStatus\<close> of \<^verbatim>\<open>history.rs\<close>): the three tables, their
    constraints as the predicate \<open>db_ok\<close>, statements as functions that fail with an SQLSTATE and then change nothing,
    and connection faults before and after a statement.
  \<^item> \<open>Outbox_Runtime\<close> (\<^verbatim>\<open>runtime.rs\<close>): the claim, the handler call, the four fenced transitions, which implement the
    locale \<open>fenced_mark\<close>, and \<open>handle_envelope\<close>; the specification of a delivery is \<open>final_status\<close>, \<open>final_error\<close> and
    \<open>job_verdict\<close> of the handler's result.
  \<^item> \<open>Outbox_Dispatch\<close> (\<open>dispatch\<close> of \<^verbatim>\<open>outbox.rs\<close>): transactions, the statements (locale \<open>safe_statement\<close>), the nine steps.
  \<^item> \<open>Outbox_Lifecycle\<close> (\<open>start\<close> and \<open>StartedGuard\<close> of \<^verbatim>\<open>outbox.rs\<close>, \<^verbatim>\<open>handle.rs\<close>): \<open>start\<close> as a function and as the
    step relation \<open>start_step\<close> of concurrent callers; \<open>shutdown\<close>.
  \<^item> \<open>Outbox_Purge\<close> (\<^verbatim>\<open>purge.rs\<close>): the loops, as clients of the locale \<open>chunked_purge\<close> that the three statements implement.
  \<^item> \<open>Outbox_History\<close> (the queries of \<^verbatim>\<open>history.rs\<close>).
  \<^item> \<open>Outbox_System\<close>: dispatches, claims, verdicts and purge chunks of any number of sessions, interleaved over one
    set of tables (\<open>sys_step\<close>), with the invariant \<open>sys_inv\<close>, the specification \<open>row_change\<close> of what a step may do to
    a delivery, and the arrows \<open>documented_edge\<close> of the README. Only dispatches that succeed are steps (one that fails
    leaves nothing to commit), and the queue holds what was ever pushed to it.
  \<^item> \<open>Outbox_Provenance\<close>: invariants of its runs, about the queue, the tenants and the log of events.
  \<^item> \<open>Outbox_Transactions\<close> (\<open>dispatch\<close> of \<^verbatim>\<open>outbox.rs\<close> once more, and the argument of its comment on the upsert): the
    statements of dispatches in open transactions of any number of sessions, interleaved with each other and with
    the steps of the system (\<open>conc_step\<close>). A session holds the key it reserved or found, and the event id it wrote,
    until its transaction ends, and a statement that needs them waits; \<open>conc_inv\<close> says that what a session was told stays
    true.
  \<^item> \<open>Outbox_Delivery\<close>: what holds from end to end.
  \<^item> \<open>Outbox_Tracing\<close> (the \<open>instrument\<close> attributes and the \<open>tracing\<close> macros of \<^verbatim>\<open>outbox.rs\<close>, \<^verbatim>\<open>runtime.rs\<close>, \<^verbatim>\<open>handle.rs\<close>,
    \<^verbatim>\<open>history.rs\<close>, \<^verbatim>\<open>purge.rs\<close>): spans and events with target, level and recorded fields.
  \<^item> \<open>Outbox_Quick_Start\<close> (the program on the front page of \<^verbatim>\<open>lib.rs\<close>): all components in the order an application calls
    them.
  \<^item> \<open>Outbox_Migrator\<close> (\<^verbatim>\<open>migrator.rs\<close>): the versions of the migrations and the option under which two libraries share a
    table of them.
  \<^item> \<open>Outbox_Unit_Tests\<close> (\<open>mod tests\<close> of \<^verbatim>\<open>util.rs\<close>, \<^verbatim>\<open>builder.rs\<close>, \<^verbatim>\<open>handler.rs\<close>, \<^verbatim>\<open>dispatch_context.rs\<close>): the crate's unit tests,
    which hold of the model.

  \<^bold>\<open>What is shown.\<close>
  \<^item> Worker: fencing (a stale worker changes nothing), agreement of \<open>handle_envelope\<close> with its specification, that
    the worker's statements never violate a constraint, what lost transitions leave behind, that words of database
    errors leak nowhere, that the timeout always leaves room for the last write.
  \<^item> Dispatch: its exact effect, exactly when the schema refuses what Rust lets pass, idempotency and how long it lasts,
    atomicity of errors, and the two documented or hidden gaps (a refused push, the limit on headers).
  \<^item> Lifecycle: at most one worker, an honest flag, each error with its cause, agreement of limits and keys,
    what the pending count means.
  \<^item> Purges: they return under every fault, delete exactly what they say, never lose an unfinished delivery, and
    do not depend on their order.
  \<^item> The system: whole calls of \<open>handle_envelope\<close> are steps of it, every step follows the specification of the
    statuses, and every change of status is an arrow of the README; leases that are void stay void; each delivery has
    exactly one job; tenants are isolated; events and reservations are never rewritten and only purges delete them; the last
    attempt finishes a delivery exactly when it gets to write its verdict, and strands it otherwise; an event reaches the user's handler as it was dispatched; the history reads back what
    was dispatched; the program of the front page does what it shows.
  \<^item> Concurrent dispatches: they are serializable in the order of their commits, and each caller was told the outcome
    that its dispatch has in that order; one key has one event in every interleaving that purges no keys. The waits for
    locks are the server's and are premises of the steps.
  \<^item> Tracing: no ERROR event without its cause; the span of a dispatch reveals the idempotency key.

  \<^bold>\<open>Conventions.\<close> Rust strings are byte lists, so lengths are bytes; \<open>u32\<close> and \<open>Uuid\<close> are words, \<open>usize\<close> and \<open>u64\<close>
  are \<open>nat\<close> with saturation written out; \<open>Duration\<close> is nanoseconds, instants are integers. \<open>Result\<close> is a sum with the error
  on the left. A panic is a value (\<open>Panicked\<close>). Each \<open>UPDATE\<close>, \<open>DELETE\<close>, \<open>INSERT\<close> or CTE is one atomic step, and a
  dispatch is one step of the system; that its transaction, though it has several statements, amounts to such a step
  is shown in \<open>Outbox_Transactions\<close>. All functions are total, without fuel; only
  \<open>purge_loop\<close> is a partial function into \<open>option\<close>, and \<open>purges_return\<close> proves that it is never \<open>None\<close>.

  \<^bold>\<open>Parameters\<close>, code outside the repository: \<open>serde_json\<close> (the codec of events and headers), the server's \<open>jsonb\<close>
  conversions, \<open>pg_work_queue\<close> (\<open>push_batch\<close>, whose contract is \<open>pushes_batch\<close>, building, starting and draining a worker,
  the job context), the attribute macro of \<open>tracing\<close> (\<open>instrument_ok\<close>), \<open>sqlx\<close>'s migrator (\<open>migrate_ok\<close>), the
  \<open>tokio\<close> timer (\<open>timer_ok\<close> is its documented behaviour) and runtime flavour, \<open>chrono\<close>'s conversions
  (\<open>chrono_exact\<close> where they are exact), fresh ids, clocks and connection faults.

  \<^bold>\<open>Not modelled.\<close> The module declarations and re-exports of \<^verbatim>\<open>lib.rs\<close>, the derived \<open>Debug\<close> of types other than
  \<open>DispatchContext\<close>, the constant messages of tracing events, several dispatches in one transaction of a session with other
  sessions between them (and the deadlocks the server then breaks), isolation levels above \<open>READ COMMITTED\<close>,
  errors of the client that leave a transaction usable, the cancellation of a whole call of \<open>handle_envelope\<close> by the
  queue's own timer, the
  moment at which a sequence numbers the deliveries, \<open>pg_work_queue\<close> itself and the integration tests, which need a server.
\<close>

end
